(* ===== verification/Prelude.thy ===== *)
theory Prelude
  imports Main "HOL-Library.Word"
begin

unbundle bit_operations_syntax

text \<open>
  Shared vocabulary of the development: machine integers and byte strings, bounds-checked
  reads, the little-endian encodings every protocol layer of the relay uses, and the
  Bluetooth address value of \<^verbatim>\<open>src/src/common/BdAddr.h\<close>.

  A byte span of the source is a list of bytes. \<^verbatim>\<open>p[i]\<close> on a span is
  \<open>read_at p i\<close>, which is \<open>None\<close> outside the span: what C++ leaves undefined is a value
  of the model that theorems can talk about. The clock of the source
  (\<^verbatim>\<open>std::chrono::steady_clock\<close>) is an integer number of nanoseconds, and the
  default-constructed \<^verbatim>\<open>time_point{}\<close> the source uses as "not set" is 0.
\<close>

section \<open>Machine integers and spans\<close>

type_synonym byte = "8 word"
type_synonym u16 = "16 word"
type_synonym u32 = "32 word"
type_synonym u64 = "64 word"
type_synonym bytes = "byte list"
type_synonym time = int

text \<open>Rules that evaluate the wire encodings, and the definitions of the wire constants.\<close>

named_theorems wire
named_theorems consts_def

abbreviation (input) time_unset :: time where
  "time_unset \<equiv> 0"

definition ms :: "int \<Rightarrow> time" where
  "ms n = n * 1000000"

definition seconds :: "int \<Rightarrow> time" where
  "seconds n = n * 1000000000"

definition read_at :: "'a list \<Rightarrow> nat \<Rightarrow> 'a option" where
  "read_at xs i = (if i < length xs then Some (xs ! i) else None)"

definition subspan :: "nat \<Rightarrow> nat \<Rightarrow> 'a list \<Rightarrow> 'a list" where
  "subspan off n xs = take n (drop off xs)"

lemma read_at_Some [simp]: "i < length xs \<Longrightarrow> read_at xs i = Some (xs ! i)"
  by (simp add: read_at_def)

lemma read_at_None [simp]: "length xs \<le> i \<Longrightarrow> read_at xs i = None"
  by (simp add: read_at_def)

lemma read_at_eq_None: "read_at xs i = None \<longleftrightarrow> length xs \<le> i"
  by (simp add: read_at_def)

lemma read_at_SomeD: "read_at xs i = Some x \<Longrightarrow> i < length xs \<and> x = xs ! i"
  by (simp add: read_at_def split: if_splits)

lemma length_subspan [simp]: "length (subspan off n xs) = min n (length xs - off)"
  by (simp add: subspan_def)

lemma nth_subspan: "i < n \<Longrightarrow> off + i < length xs \<Longrightarrow> subspan off n xs ! i = xs ! (off + i)"
  by (simp add: subspan_def)

lemma set_subspan: "set (subspan off n xs) \<subseteq> set xs"
  by (auto simp: subspan_def dest: in_set_takeD in_set_dropD)

lemma unat_Suc_less:
  assumes "(c :: 'a::len word) < h"
  shows "unat (c + 1) = Suc (unat c)"
proof -
  have "unat h < 2 ^ LENGTH('a)" by (rule unsigned_less)
  moreover have "unat c < unat h" using assms by (simp add: word_less_nat_alt)
  ultimately have "unat c + 1 < 2 ^ LENGTH('a)" by linarith
  then show ?thesis by (cases "LENGTH('a) = 1") (simp_all add: unat_word_ariths)
qed

section \<open>Overwriting part of a buffer\<close>

text \<open>\<^verbatim>\<open>memcpy(&buf[at], src, n)\<close> for a copy that stays inside \<^verbatim>\<open>buf\<close>.\<close>

definition overwrite :: "nat \<Rightarrow> 'a list \<Rightarrow> 'a list \<Rightarrow> 'a list" where
  "overwrite at src buf = take at buf @ src @ drop (at + length src) buf"

lemma length_overwrite [simp]:
  "at + length src \<le> length buf \<Longrightarrow> length (overwrite at src buf) = length buf"
  by (simp add: overwrite_def)

lemma nth_overwrite:
  assumes "at + length src \<le> length buf"
  shows "overwrite at src buf ! i =
    (if at \<le> i \<and> i < at + length src then src ! (i - at) else buf ! i)"
proof (cases "i < at")
  case True
  then show ?thesis using assms by (simp add: overwrite_def nth_append)
next
  case False
  show ?thesis
  proof (cases "i < at + length src")
    case True
    then have "i - at < length src" using False by simp
    with True show ?thesis using False assms by (simp add: overwrite_def nth_append)
  next
    case hi: False
    then have "i - at - length src + (at + length src) = i" and "\<not> i - at < length src"
      using False by simp_all
    then show ?thesis using False hi assms
      by (simp add: overwrite_def nth_append add.commute)
  qed
qed

lemma take_overwrite [simp]:
  "at + length src \<le> length buf \<Longrightarrow> take at (overwrite at src buf) = take at buf"
  by (simp add: overwrite_def)

lemma drop_overwrite [simp]:
  "at + length src \<le> length buf \<Longrightarrow> n = at + length src \<Longrightarrow>
    drop n (overwrite at src buf) = drop n buf"
  by (simp add: overwrite_def)

lemma take_overwrite_0 [simp]:
  "length src \<le> length buf \<Longrightarrow> n = length src \<Longrightarrow> take n (overwrite 0 src buf) = src"
  by (simp add: overwrite_def)

section \<open>Little-endian integers\<close>

definition le16 :: "byte \<Rightarrow> byte \<Rightarrow> u16" where
  "le16 lo hi = ucast lo OR push_bit 8 (ucast hi)"

definition put_le16 :: "u16 \<Rightarrow> bytes" where
  "put_le16 w = [ucast w, ucast (drop_bit 8 w)]"

definition le32 :: "byte \<Rightarrow> byte \<Rightarrow> byte \<Rightarrow> byte \<Rightarrow> u32" where
  "le32 a b c d = ucast a OR push_bit 8 (ucast b) OR push_bit 16 (ucast c) OR push_bit 24 (ucast d)"

definition put_le32 :: "u32 \<Rightarrow> bytes" where
  "put_le32 w = [ucast w, ucast (drop_bit 8 w), ucast (drop_bit 16 w), ucast (drop_bit 24 w)]"

lemma length_put_le16 [simp]: "length (put_le16 w) = 2"
  by (simp add: put_le16_def)

lemma length_put_le32 [simp]: "length (put_le32 w) = 4"
  by (simp add: put_le32_def)

lemma le16_put [simp]: "le16 (ucast w) (ucast (drop_bit 8 w)) = w"
  by (rule bit_word_eqI)
    (auto simp: le16_def bit_or_iff bit_push_bit_iff bit_unsigned_iff bit_drop_bit_eq)

lemma le16_lo [simp]: "ucast (le16 lo hi) = lo"
  by (rule bit_word_eqI)
    (auto simp: le16_def bit_or_iff bit_push_bit_iff bit_unsigned_iff)

lemma le16_hi [simp]: "ucast (drop_bit 8 (le16 lo hi)) = hi"
  by (rule bit_word_eqI)
    (auto simp: le16_def bit_or_iff bit_push_bit_iff bit_unsigned_iff bit_drop_bit_eq
      dest: bit_imp_le_length)

lemma put_le16_le16 [simp]: "put_le16 (le16 lo hi) = [lo, hi]"
  by (simp add: put_le16_def)

lemma le32_put [simp]:
  "le32 (ucast w) (ucast (drop_bit 8 w)) (ucast (drop_bit 16 w)) (ucast (drop_bit 24 w)) = w"
proof (rule bit_word_eqI)
  fix n assume "n < LENGTH(32)"
  then have "n < 8 \<or> 8 \<le> n \<and> n - 8 < 8 \<or> 16 \<le> n \<and> n - 16 < 8 \<or> 24 \<le> n \<and> n - 24 < 8"
    by simp linarith
  then show "bit (le32 (ucast w) (ucast (drop_bit 8 w)) (ucast (drop_bit 16 w))
      (ucast (drop_bit 24 w))) n \<longleftrightarrow> bit w n"
    by (auto simp: le32_def bit_or_iff bit_push_bit_iff bit_unsigned_iff bit_drop_bit_eq
        dest: bit_imp_le_length)
qed

lemma le32_bytes:
  "put_le32 (le32 a b c d) = [a, b, c, d]"
proof -
  have "ucast (le32 a b c d) = a" "ucast (drop_bit 8 (le32 a b c d)) = b"
    "ucast (drop_bit 16 (le32 a b c d)) = c" "ucast (drop_bit 24 (le32 a b c d)) = d"
    by (rule bit_word_eqI,
        auto simp: le32_def bit_or_iff bit_push_bit_iff bit_unsigned_iff bit_drop_bit_eq
          dest: bit_imp_le_length)+
  then show ?thesis by (simp add: put_le32_def)
qed

lemma put_le32_iff: "put_le32 w = [a, b, c, d] \<longleftrightarrow> le32 a b c d = w"
  using le32_bytes [of a b c d] by (auto simp: put_le32_def)

lemma put_le16_inj [simp]: "put_le16 v = put_le16 w \<longleftrightarrow> v = w"
proof
  assume "put_le16 v = put_le16 w"
  then have "le16 (ucast v) (ucast (drop_bit 8 v)) = le16 (ucast w) (ucast (drop_bit 8 w))"
    by (simp only: put_le16_def list.inject)
  then show "v = w" by simp
qed simp

section \<open>Bluetooth addresses\<close>

text \<open>
  \<^verbatim>\<open>bdaddr_t\<close> is six bytes, \<open>b[0]\<close> the least significant. Two addresses are compared
  as a whole (\<^verbatim>\<open>operator==\<close>, a \<^verbatim>\<open>memcmp\<close> of the six bytes); all zeros is
  "not known yet".
\<close>

datatype bdaddr = BdAddr (b0: byte) (b1: byte) (b2: byte) (b3: byte) (b4: byte) (b5: byte)

definition addr_any :: bdaddr where
  "addr_any = BdAddr 0 0 0 0 0 0"

definition addr_is_set :: "bdaddr \<Rightarrow> bool" where
  "addr_is_set a \<longleftrightarrow> a \<noteq> addr_any"

definition addr_bytes :: "bdaddr \<Rightarrow> bytes" where
  "addr_bytes a = [b0 a, b1 a, b2 a, b3 a, b4 a, b5 a]"

definition addr_of :: "bytes \<Rightarrow> bdaddr" where
  "addr_of p = BdAddr (p ! 0) (p ! 1) (p ! 2) (p ! 3) (p ! 4) (p ! 5)"

lemma addr_any_not_set [simp]: "\<not> addr_is_set addr_any"
  by (simp add: addr_is_set_def)

lemma length_addr_bytes [simp]: "length (addr_bytes a) = 6"
  by (simp add: addr_bytes_def)

lemma addr_of_bytes [simp]: "addr_of (addr_bytes a) = a"
  by (simp add: addr_of_def addr_bytes_def)

lemma addr_of_bytes_append [simp]: "addr_of (addr_bytes a @ p) = a"
  by (simp add: addr_of_def addr_bytes_def)

lemma addr_bytes_of:
  assumes "length p = 6"
  shows "addr_bytes (addr_of p) = p"
proof -
  from assms obtain a b c d e f where "p = [a, b, c, d, e, f]"
    by (auto simp: length_Suc_conv numeral_eq_Suc)
  then show ?thesis by (simp add: addr_bytes_def addr_of_def)
qed

text \<open>
  The formatter prints the most significant byte first, in two upper-case hexadecimal
  digits per byte with a colon between two bytes.
\<close>

definition hex_digit :: "nat \<Rightarrow> char" where
  "hex_digit n = ''0123456789ABCDEF'' ! n"

definition hex_byte :: "byte \<Rightarrow> string" where
  "hex_byte b = [hex_digit (unat b div 16), hex_digit (unat b mod 16)]"

definition format_addr :: "bdaddr \<Rightarrow> string" where
  "format_addr a = hex_byte (b5 a) @ '':'' @ hex_byte (b4 a) @ '':'' @ hex_byte (b3 a) @ '':''
    @ hex_byte (b2 a) @ '':'' @ hex_byte (b1 a) @ '':'' @ hex_byte (b0 a)"

lemma hex_digit_inj: "i < 16 \<Longrightarrow> j < 16 \<Longrightarrow> hex_digit i = hex_digit j \<longleftrightarrow> i = j"
  unfolding hex_digit_def by (rule nth_eq_iff_index_eq) simp_all

lemma byte_div_16: "unat (b :: byte) div 16 < 16"
proof -
  have "unat b < 256" using unsigned_less [of b] by simp
  then show ?thesis by simp
qed

lemma hex_byte_inj: "hex_byte a = hex_byte b \<longleftrightarrow> a = b"
proof
  assume "hex_byte a = hex_byte b"
  then have "unat a div 16 = unat b div 16" "unat a mod 16 = unat b mod 16"
    by (simp_all add: hex_byte_def hex_digit_inj byte_div_16)
  then have "unat a = unat b" by (metis div_mult_mod_eq)
  then show "a = b" by (simp add: word_unat_eq_iff)
qed simp

lemma hex_byte_append: "hex_byte a @ x = hex_byte b @ y \<longleftrightarrow> a = b \<and> x = y"
  using hex_byte_inj [of a b] by (auto simp: hex_byte_def)

lemma format_addr_eq_iff: "format_addr a = format_addr b \<longleftrightarrow> a = b"
  by (cases a; cases b) (auto simp: format_addr_def hex_byte_append hex_byte_inj)

end
