(* ===== verification/PacketContents.thy ===== *)
theory PacketContents
  imports Prelude
begin

text \<open>
  \<^verbatim>\<open>src/src/bluetooth/PacketContents.h\<close>: the bounds-checked cursor over one packet. The
  three accessors of the source (\<^verbatim>\<open>get<T>()\<close>, \<^verbatim>\<open>bytes(n)\<close>, \<^verbatim>\<open>get(n)\<close>) differ in the
  C++ type of the pointer they return only; each is \<open>PacketContents_get n\<close> with
  \<open>n\<close> the size asked for, and returns the bytes the pointer covers.
\<close>

record PacketContents =
  m_data :: bytes
  m_offset :: nat

definition PacketContents_init :: "bytes \<Rightarrow> PacketContents" where
  "PacketContents_init p = \<lparr>m_data = p, m_offset = 0\<rparr>"

definition PacketContents_remaining :: "PacketContents \<Rightarrow> nat" where
  "PacketContents_remaining c =
    (if m_offset c < length (m_data c) then length (m_data c) - m_offset c else 0)"

definition PacketContents_get :: "nat \<Rightarrow> PacketContents \<Rightarrow> bytes option \<times> PacketContents" where
  "PacketContents_get n c =
    (if PacketContents_remaining c < n then (None, c)
     else (Some (subspan (m_offset c) n (m_data c)), c\<lparr>m_offset := m_offset c + n\<rparr>))"

text \<open>What is still ahead of the cursor.\<close>

definition ahead :: "PacketContents \<Rightarrow> bytes" where
  "ahead c = drop (m_offset c) (m_data c)"

section \<open>The interface its clients rely on\<close>

text \<open>
  A cursor hands out consecutive pieces of what is ahead of it: a read of \<open>n\<close> bytes that
  succeeds returns the next \<open>n\<close> bytes and leaves the rest ahead, one that does not leaves
  the cursor as it was because fewer than \<open>n\<close> bytes are left.
\<close>

locale packet_cursor =
  fixes rest :: "'c \<Rightarrow> bytes"
    and remaining :: "'c \<Rightarrow> nat"
    and get :: "nat \<Rightarrow> 'c \<Rightarrow> bytes option \<times> 'c"
  assumes remaining_rest: "remaining c = length (rest c)"
    and get_some: "get n c = (Some p, c') \<Longrightarrow> rest c = p @ rest c' \<and> length p = n"
    and get_none: "get n c = (None, c') \<Longrightarrow> c' = c \<and> length (rest c) < n"
begin

lemma get_total:
  "n \<le> length (rest c) \<Longrightarrow> \<exists>p c'. get n c = (Some p, c') \<and> p = take n (rest c) \<and> rest c' = drop n (rest c)"
  by (cases "get n c"; cases "fst (get n c)") (auto dest: get_some get_none)

lemma get_fails: "length (rest c) < n \<Longrightarrow> get n c = (None, c)"
  by (cases "get n c"; cases "fst (get n c)") (auto dest: get_some get_none)

lemma get_eq:
  "fst (get n c) = (if n \<le> length (rest c) then Some (take n (rest c)) else None)"
  "rest (snd (get n c)) = (if n \<le> length (rest c) then drop n (rest c) else rest c)"
  using get_total [of n c] get_fails [of c n] by (auto simp: not_le)

text \<open>Reads in a row: all or nothing per read, and together they tile the packet.\<close>

fun get_seq :: "nat list \<Rightarrow> 'c \<Rightarrow> bytes option list \<times> 'c" where
  "get_seq [] c = ([], c)"
| "get_seq (n # ns) c = (case get n c of (r, c') \<Rightarrow> case get_seq ns c' of (rs, c'') \<Rightarrow> (r # rs, c''))"

lemma get_seq_tiles:
  "get_seq ns c = (rs, c') \<Longrightarrow>
    rest c = concat (map (case_option [] id) rs) @ rest c' \<and>
    list_all2 (\<lambda>n r. case r of None \<Rightarrow> True | Some p \<Rightarrow> length p = n) ns rs"
proof (induction ns arbitrary: c rs c')
  case Nil
  then show ?case by simp
next
  case (Cons n ns)
  obtain r c1 where g: "get n c = (r, c1)" by (cases "get n c") auto
  obtain rs1 c2 where gs: "get_seq ns c1 = (rs1, c2)" by (cases "get_seq ns c1") auto
  from Cons.prems g gs have eqs: "rs = r # rs1" "c' = c2" by simp_all
  from Cons.IH [OF gs] have IH: "rest c1 = concat (map (case_option [] id) rs1) @ rest c2"
    "list_all2 (\<lambda>n r. case r of None \<Rightarrow> True | Some p \<Rightarrow> length p = n) ns rs1"
    by simp_all
  show ?case
  proof (cases r)
    case None
    with get_none [of n c c1] g have "c1 = c" by simp
    with None IH eqs show ?thesis by simp
  next
    case (Some p)
    with get_some [of n c p c1] g have "rest c = p @ rest c1" "length p = n" by simp_all
    with Some IH eqs show ?thesis by simp
  qed
qed

end

lemma remaining_ahead: "PacketContents_remaining c = length (ahead c)"
  by (simp add: PacketContents_remaining_def ahead_def)

lemma get_ahead:
  "PacketContents_get n c =
    (if length (ahead c) < n then (None, c)
     else (Some (take n (ahead c)), c\<lparr>m_offset := m_offset c + n\<rparr>))"
  by (simp add: PacketContents_get_def remaining_ahead subspan_def ahead_def)

lemma ahead_advance: "ahead (c\<lparr>m_offset := m_offset c + n\<rparr>) = drop n (ahead c)"
  by (simp add: ahead_def add.commute)

interpretation pc: packet_cursor ahead PacketContents_remaining PacketContents_get
proof unfold_locales
  show "PacketContents_remaining c = length (ahead c)" for c
    by (rule remaining_ahead)
  show "ahead c = p @ ahead c' \<and> length p = n"
    if "PacketContents_get n c = (Some p, c')" for n c p c'
    using that by (auto simp: get_ahead ahead_advance split: if_splits)
  show "c' = c \<and> length (ahead c) < n"
    if "PacketContents_get n c = (None, c')" for n c c'
    using that by (auto simp: get_ahead split: if_splits)
qed

lemma ahead_init [simp]: "ahead (PacketContents_init p) = p"
  by (simp add: ahead_def PacketContents_init_def)

section \<open>Reading a sequence of fields\<close>

text \<open>The handlers read one field after the other; this is that loop on the real cursor.\<close>

fun read_fields :: "nat list \<Rightarrow> PacketContents \<Rightarrow> bytes option list \<times> PacketContents" where
  "read_fields [] c = ([], c)"
| "read_fields (n # ns) c =
    (case PacketContents_get n c of (r, c') \<Rightarrow>
      case read_fields ns c' of (rs, c'') \<Rightarrow> (r # rs, c''))"

lemma read_fields_get_seq: "read_fields ns c = pc.get_seq ns c"
  by (induction ns arbitrary: c) (simp_all split: prod.split)

text \<open>
  Cursor safety: However many fields of whatever claimed sizes are read from a packet,
  the pieces handed out are consecutive pieces of that packet in order, each of exactly the
  size asked for, and together with what is left they are the packet: no read reaches past
  its end, none skips or repeats a byte, and a short read consumes nothing.
\<close>

theorem cursor_reads_tile_packet:
  assumes "read_fields ns (PacketContents_init packet) = (rs, c)"
  shows "packet = concat (map (case_option [] id) rs) @ ahead c \<and>
    list_all2 (\<lambda>n r. case r of None \<Rightarrow> True | Some p \<Rightarrow> length p = n) ns rs"
  using pc.get_seq_tiles [of ns "PacketContents_init packet" rs c] assms
  by (simp add: read_fields_get_seq)

theorem cursor_reads_tile_packet_witness:
  "(1 # 2 # 3 # []) = concat (map (case_option [] id) [Some [1 :: byte, 2], None, Some [3]]) @
      ahead (\<lparr>m_data = [1, 2, 3], m_offset = 3\<rparr>) \<and>
    list_all2 (\<lambda>n r. case r of None \<Rightarrow> True | Some p \<Rightarrow> length p = n) [2, 4, 1]
      [Some [1 :: byte, 2], None, Some [3]]"
  by (rule cursor_reads_tile_packet)
    (simp add: PacketContents_init_def PacketContents_get_def PacketContents_remaining_def
      subspan_def)

end
