(* ===== verification/DualSense.thy ===== *)
theory DualSense
  imports Prelude
begin

unbundle bit_operations_syntax

text \<open>
  \<^verbatim>\<open>src/src/dualsense/DualSense.h\<close>: the wire constants the USB and the Bluetooth side
  share, the declared sizes of the feature reports, and the seeded checksum.

  zlib's \<^verbatim>\<open>crc32(c, buf, len)\<close> is not part of the repository: it is the parameter
  \<open>zcrc\<close> of every definition that uses it, with \<open>None\<close> for a \<^verbatim>\<open>Z_NULL\<close> buffer.
  Nothing is assumed of it here; where a theorem needs zlib's documented chaining law the
  law is the locale \<open>zlib_crc32\<close> below.
\<close>

type_synonym zlib = "u32 \<Rightarrow> bytes option \<Rightarrow> u32"

section \<open>Wire constants\<close>

definition HIDP_DATA_INPUT :: byte where [consts_def]: "HIDP_DATA_INPUT = 0xa1"
definition HIDP_DATA_OUTPUT :: byte where [consts_def]: "HIDP_DATA_OUTPUT = 0xa2"
definition HIDP_DATA_FEATURE :: byte where [consts_def]: "HIDP_DATA_FEATURE = 0xa3"
definition HIDP_GET_FEATURE :: byte where [consts_def]: "HIDP_GET_FEATURE = 0x43"
definition HIDP_SET_FEATURE :: byte where [consts_def]: "HIDP_SET_FEATURE = 0x53"

definition CRC_SEED_INPUT :: byte where [consts_def]: "CRC_SEED_INPUT = 0xa1"
definition CRC_SEED_OUTPUT :: byte where [consts_def]: "CRC_SEED_OUTPUT = 0xa2"
definition CRC_SEED_SET_FEATURE :: byte where [consts_def]: "CRC_SEED_SET_FEATURE = 0x53"

definition REPORT_INPUT_USB :: byte where [consts_def]: "REPORT_INPUT_USB = 0x01"
definition REPORT_BT :: byte where [consts_def]: "REPORT_BT = 0x31"
definition REPORT_INPUT_BT_BASIC :: byte where [consts_def]: "REPORT_INPUT_BT_BASIC = 0x01"

definition REPORT_CALIBRATION :: byte where [consts_def]: "REPORT_CALIBRATION = 0x05"
definition REPORT_PAIRING_INFO :: byte where [consts_def]: "REPORT_PAIRING_INFO = 0x09"
definition REPORT_PAIRING_LIST :: byte where [consts_def]: "REPORT_PAIRING_LIST = 0x0b"
definition REPORT_PAIRING_SET :: byte where [consts_def]: "REPORT_PAIRING_SET = 0x0a"
definition REPORT_TRANSPORT :: byte where [consts_def]: "REPORT_TRANSPORT = 0x08"
definition REPORT_FIRMWARE :: byte where [consts_def]: "REPORT_FIRMWARE = 0x20"

definition TRANSPORT_PAIR :: byte where [consts_def]: "TRANSPORT_PAIR = 0x01"
definition TRANSPORT_UNPAIR :: byte where [consts_def]: "TRANSPORT_UNPAIR = 0x02"

text \<open>Sizes and offsets; the report sizes include the report id byte.\<close>

definition INPUT_BT_BASIC_SIZE :: nat where [consts_def]: "INPUT_BT_BASIC_SIZE = 10"
definition INPUT_USB_SIZE :: nat where [consts_def]: "INPUT_USB_SIZE = 64"
definition INPUT_BT_SIZE :: nat where [consts_def]: "INPUT_BT_SIZE = 78"
definition OUTPUT_BT_SIZE :: nat where [consts_def]: "OUTPUT_BT_SIZE = 78"
definition OUTPUT_COMMON_SIZE :: nat where [consts_def]: "OUTPUT_COMMON_SIZE = 47"
definition OUTPUT_TAG :: byte where [consts_def]: "OUTPUT_TAG = 0x10"
definition INPUT_BODY_LEN :: nat where [consts_def]: "INPUT_BODY_LEN = 63"
definition INPUT_BODY_OFF_USB :: nat where [consts_def]: "INPUT_BODY_OFF_USB = 1"
definition INPUT_BODY_OFF_BT :: nat where [consts_def]: "INPUT_BODY_OFF_BT = 2"
definition STATUS_OFF :: nat where [consts_def]: "STATUS_OFF = 52"
definition PAIRING_LIST_OFFSET :: nat where [consts_def]: "PAIRING_LIST_OFFSET = 11"
definition PAIRING_LIST_SLOTS :: nat where [consts_def]: "PAIRING_LIST_SLOTS = 4"
definition PAIRING_LIST_STRIDE :: nat where [consts_def]: "PAIRING_LIST_STRIDE = 7"

definition STATUS_CHARGING_DISCHARGING :: byte where [consts_def]: "STATUS_CHARGING_DISCHARGING = 0x0"
definition STATUS_CHARGING_CHARGING :: byte where [consts_def]: "STATUS_CHARGING_CHARGING = 0x1"
definition STATUS_CHARGING_FULL :: byte where [consts_def]: "STATUS_CHARGING_FULL = 0x2"
definition STATUS_CHARGING_VOLTAGE_ERR :: byte where [consts_def]: "STATUS_CHARGING_VOLTAGE_ERR = 0xa"
definition STATUS_CHARGING_TEMP_ERR :: byte where [consts_def]: "STATUS_CHARGING_TEMP_ERR = 0xb"
definition STATUS_CHARGING_ERROR :: byte where [consts_def]: "STATUS_CHARGING_ERROR = 0xf"

section \<open>HIDP handshakes and feature report sizes\<close>

definition handshake_name :: "byte \<Rightarrow> string" where
  "handshake_name code =
    (if code = 0x00 then ''SUCCESS''
     else if code = 0x01 then ''NOT_READY''
     else if code = 0x02 then ''ERR_INVALID_REPORT_ID''
     else if code = 0x03 then ''ERR_UNSUPPORTED_REQUEST''
     else if code = 0x04 then ''ERR_INVALID_PARAMETER''
     else if code = 0x05 then ''ERR_UNKNOWN''
     else if code = 0x06 then ''ERR_FATAL''
     else ''?'')"

text \<open>
  The switch of \<^verbatim>\<open>feature_report_size\<close> as its table of cases; an id that is not in it
  falls through to 0.
\<close>

definition feature_report_sizes :: "(byte \<times> nat) list" where
  "feature_report_sizes =
    [(0x05, 41), (0x08, 48), (0x09, 20), (0x0a, 27), (0x0b, 42), (0x0c, 42), (0x20, 64),
     (0x21, 5), (0x22, 64), (0x80, 64), (0x81, 64), (0x82, 10), (0x83, 64), (0x84, 64),
     (0x85, 3), (0xa0, 2), (0xe0, 64), (0xf0, 64), (0xf1, 64), (0xf2, 16), (0xf4, 64),
     (0xf5, 4)]"

definition feature_report_size :: "byte \<Rightarrow> nat" where
  "feature_report_size report_id =
    (case map_of feature_report_sizes report_id of Some n \<Rightarrow> n | None \<Rightarrow> 0)"

definition is_cacheable_feature :: "byte \<Rightarrow> bool" where
  "is_cacheable_feature report_id \<longleftrightarrow>
    report_id = REPORT_CALIBRATION \<or> report_id = REPORT_PAIRING_INFO \<or> report_id = REPORT_FIRMWARE"

lemma feature_report_size_le_64: "feature_report_size report_id \<le> 64"
proof -
  have "list_all (\<lambda>(_, n). n \<le> 64) feature_report_sizes"
    by (simp add: feature_report_sizes_def)
  then show ?thesis
    by (auto simp: feature_report_size_def list_all_iff split: option.splits dest!: map_of_SomeD)
qed

section \<open>The seeded checksum\<close>

definition crc32_seeded :: "zlib \<Rightarrow> byte \<Rightarrow> bytes \<Rightarrow> u32" where
  "crc32_seeded zcrc seed data =
    (let c = zcrc 0 None;
         c = zcrc c (Some [seed])
     in zcrc c (Some data))"

text \<open>
  \<open>None\<close> where the source would write outside the report: the four checksum bytes do not
  fit into the \<open>total_len\<close> bytes, or these are more than the buffer has.
\<close>

definition append_crc32 :: "zlib \<Rightarrow> byte \<Rightarrow> bytes \<Rightarrow> nat \<Rightarrow> bytes option" where
  "append_crc32 zcrc seed report total_len =
    (if total_len < 4 \<or> length report < total_len then None
     else Some (overwrite (total_len - 4)
            (put_le32 (crc32_seeded zcrc seed (take (total_len - 4) report))) report))"

lemma append_crc32_length:
  "append_crc32 zcrc seed report n = Some r \<Longrightarrow> length r = length report"
  by (auto simp: append_crc32_def split: if_splits)

lemma append_crc32_payload:
  "append_crc32 zcrc seed report n = Some r \<Longrightarrow> take (n - 4) r = take (n - 4) report"
  by (auto simp: append_crc32_def split: if_splits)

lemma append_crc32_full:
  assumes "4 \<le> length report"
  shows "append_crc32 zcrc seed report (length report) =
    Some (take (length report - 4) report
      @ put_le32 (crc32_seeded zcrc seed (take (length report - 4) report)))"
  using assms by (simp add: append_crc32_def overwrite_def)

text \<open>
  What zlib documents of \<^verbatim>\<open>crc32\<close>: the empty start value, and that feeding a buffer in
  two pieces is feeding it at once. Under this contract the seeded checksum is the plain
  checksum of the HIDP header byte followed by the report, which is what \<^verbatim>\<open>PROTOCOL.md\<close>
  says it is.
\<close>

locale zlib_crc32 =
  fixes zcrc :: zlib
  assumes crc_null: "zcrc c None = 0"
    and crc_chain: "zcrc (zcrc c (Some a)) (Some b) = zcrc c (Some (a @ b))"
begin

lemma crc32_seeded_prefix: "crc32_seeded zcrc seed data = zcrc 0 (Some (seed # data))"
  by (simp add: crc32_seeded_def crc_null crc_chain)

lemma crc32_seeded_append:
  "crc32_seeded zcrc seed (a @ b) = zcrc (crc32_seeded zcrc seed a) (Some b)"
  by (simp add: crc32_seeded_prefix crc_chain)

end

text \<open>
  zlib's checksum itself, bit by bit with the reflected polynomial \<open>0xedb88320\<close>, as a
  concrete instance of the contract.
\<close>

primrec crc_bits :: "nat \<Rightarrow> u32 \<Rightarrow> u32" where
  "crc_bits 0 c = c"
| "crc_bits (Suc k) c =
    crc_bits k (if bit c 0 then drop_bit 1 c XOR 0xedb88320 else drop_bit 1 c)"

definition crc_byte :: "byte \<Rightarrow> u32 \<Rightarrow> u32" where
  "crc_byte b c = crc_bits 8 (c XOR ucast b)"

definition crc32_bitwise :: zlib where
  "crc32_bitwise c buf = (case buf of None \<Rightarrow> 0 | Some p \<Rightarrow> NOT (fold crc_byte p (NOT c)))"

interpretation bitwise: zlib_crc32 crc32_bitwise
  by unfold_locales (simp_all add: crc32_bitwise_def)

end
