(* ===== verification/HeldFrame.thy ===== *)
theory HeldFrame
  imports DualSense
begin

text \<open>
  \<^verbatim>\<open>src/src/bluetooth/HeldFrame.h\<close>: the one input report held back while the console link
  has no credit. The buffer is a fixed array of 79 bytes, \<open>hf_len\<close> says how many of them
  are the report.
\<close>

record HeldFrame =
  hf_buf :: bytes
  hf_len :: nat

definition HeldFrame_init :: HeldFrame where
  "HeldFrame_init = \<lparr>hf_buf = replicate (1 + INPUT_BT_SIZE) 0, hf_len = 0\<rparr>"

definition HeldFrame_store :: "bytes \<Rightarrow> HeldFrame \<Rightarrow> HeldFrame" where
  "HeldFrame_store r f =
    (if length (hf_buf f) < length r then f\<lparr>hf_len := 0\<rparr>
     else f\<lparr>hf_buf := overwrite 0 r (hf_buf f), hf_len := length r\<rparr>)"

definition HeldFrame_clear :: "HeldFrame \<Rightarrow> HeldFrame" where
  "HeldFrame_clear f = f\<lparr>hf_len := 0\<rparr>"

definition HeldFrame_valid :: "HeldFrame \<Rightarrow> bool" where
  "HeldFrame_valid f \<longleftrightarrow> hf_len f \<noteq> 0"

definition HeldFrame_view :: "HeldFrame \<Rightarrow> bytes" where
  "HeldFrame_view f = subspan 0 (hf_len f) (hf_buf f)"

definition HeldFrame_capacity :: "HeldFrame \<Rightarrow> nat" where
  "HeldFrame_capacity f = length (hf_buf f)"

definition held_ok :: "HeldFrame \<Rightarrow> bool" where
  "held_ok f \<longleftrightarrow> length (hf_buf f) = 1 + INPUT_BT_SIZE \<and> hf_len f \<le> length (hf_buf f)"

section \<open>The one-slot interface\<close>

text \<open>
  What the relay relies on: the slot shows the last report stored if it fits, nothing after
  an oversized one or a clear, and it is valid exactly when it shows something.
\<close>

locale one_slot =
  fixes cap :: nat
    and invar :: "'s \<Rightarrow> bool"
    and view :: "'s \<Rightarrow> bytes"
    and valid :: "'s \<Rightarrow> bool"
    and store :: "bytes \<Rightarrow> 's \<Rightarrow> 's"
    and clear :: "'s \<Rightarrow> 's"
  assumes view_store: "invar s \<Longrightarrow> view (store r s) = (if length r \<le> cap then r else [])"
    and view_clear: "invar s \<Longrightarrow> view (clear s) = []"
    and valid_view: "invar s \<Longrightarrow> valid s = (view s \<noteq> [])"
    and invar_store: "invar s \<Longrightarrow> invar (store r s)"
    and invar_clear: "invar s \<Longrightarrow> invar (clear s)"
begin

lemma invar_fold_store: "invar s \<Longrightarrow> invar (fold store rs s)"
  by (induction rs arbitrary: s) (simp_all add: invar_store)

lemma view_fold_store:
  assumes "invar s"
  shows "view (fold store (rs @ [r]) s) = (if length r \<le> cap then r else [])"
  using invar_fold_store [OF assms, of rs] by (simp add: view_store)

end

lemma held_ok_init [simp]: "held_ok HeldFrame_init"
  by (simp add: held_ok_def HeldFrame_init_def)

interpretation slot: one_slot "1 + INPUT_BT_SIZE" held_ok HeldFrame_view HeldFrame_valid
  HeldFrame_store HeldFrame_clear
proof unfold_locales
  fix s r
  assume ok: "held_ok s"
  show "HeldFrame_view (HeldFrame_store r s) = (if length r \<le> 1 + INPUT_BT_SIZE then r else [])"
    using ok by (auto simp: HeldFrame_view_def HeldFrame_store_def held_ok_def subspan_def)
  show "HeldFrame_view (HeldFrame_clear s) = []"
    by (simp add: HeldFrame_view_def HeldFrame_clear_def subspan_def)
  show "HeldFrame_valid s = (HeldFrame_view s \<noteq> [])"
    using ok by (auto simp: HeldFrame_valid_def HeldFrame_view_def held_ok_def subspan_def)
  show "held_ok (HeldFrame_store r s)"
    using ok by (auto simp: HeldFrame_store_def held_ok_def)
  show "held_ok (HeldFrame_clear s)"
    using ok by (simp add: HeldFrame_clear_def held_ok_def)
qed

lemma HeldFrame_view_length: "held_ok f \<Longrightarrow> length (HeldFrame_view f) = hf_len f"
  by (simp add: HeldFrame_view_def held_ok_def)

text \<open>
  The held report is the freshest: After any sequence of reports was stored into the
  slot, what it shows is the last one, whole and unchanged, when that fits the 79 bytes;
  an oversized last report leaves the slot empty instead of a truncated report; and the
  slot's invariant (buffer size, length within it) is kept.
\<close>

theorem held_frame_is_freshest:
  "HeldFrame_view (fold HeldFrame_store (rs @ [r]) HeldFrame_init) =
      (if length r \<le> 79 then r else []) \<and>
    held_ok (fold HeldFrame_store (rs @ [r]) HeldFrame_init) \<and>
    HeldFrame_valid (fold HeldFrame_store (rs @ [r]) HeldFrame_init) =
      (r \<noteq> [] \<and> length r \<le> 79)"
proof -
  note ok = slot.invar_fold_store [OF held_ok_init, of "rs @ [r]"]
  note v = slot.view_fold_store [OF held_ok_init, of rs r]
  show ?thesis
    using ok v slot.valid_view [OF ok] by (simp add: INPUT_BT_SIZE_def)
qed

end
