(* ===== verification/SendGaps.thy ===== *)
theory SendGaps
  imports Prelude
begin

text \<open>
  \<^verbatim>\<open>src/src/bluetooth/SendGaps.h\<close>: how long the console went without an input report, one
  bucket a second. Durations and time points are nanoseconds; the three counters are the
  32-bit unsigned integers of the source and wrap around.
\<close>

record SendGaps =
  sg_threshold :: time
  sg_bucket :: time
  sg_last :: time
  sg_bucket_start :: time
  sg_cur_max :: time
  sg_cur_count :: u32
  sg_done_max :: time
  sg_done_count :: u32
  sg_window :: u32

definition SendGaps_init :: SendGaps where
  "SendGaps_init = \<lparr>sg_threshold = ms 100, sg_bucket = seconds 1, sg_last = time_unset,
    sg_bucket_start = time_unset, sg_cur_max = 0, sg_cur_count = 0, sg_done_max = 0,
    sg_done_count = 0, sg_window = 0\<rparr>"

definition SendGaps_note_gap :: "time \<Rightarrow> SendGaps \<Rightarrow> SendGaps" where
  "SendGaps_note_gap now g =
    (if sg_last g = time_unset then g
     else let gap = now - sg_last g;
              g = (if sg_cur_max g < gap then g\<lparr>sg_cur_max := gap\<rparr> else g)
          in if sg_threshold g < gap then g\<lparr>sg_cur_count := sg_cur_count g + 1\<rparr> else g)"

definition SendGaps_on_sent :: "time \<Rightarrow> SendGaps \<Rightarrow> SendGaps" where
  "SendGaps_on_sent now g =
    (let g = (SendGaps_note_gap now g)\<lparr>sg_last := now\<rparr>
     in if sg_bucket_start g = time_unset then g\<lparr>sg_bucket_start := now\<rparr>
        else if now - sg_bucket_start g < sg_bucket g then g
        else g\<lparr>sg_done_max := sg_cur_max g, sg_done_count := sg_cur_count g,
               sg_window := sg_window g + 1, sg_cur_max := 0, sg_cur_count := 0,
               sg_bucket_start := now\<rparr>)"

text \<open>\<^verbatim>\<open>duration_cast\<close> to microseconds truncates towards zero; the result is cut to 32 bits.\<close>

definition SendGaps_max_us :: "SendGaps \<Rightarrow> u32" where
  "SendGaps_max_us g = word_of_int (sgn (sg_done_max g) * (\<bar>sg_done_max g\<bar> div 1000))"

definition SendGaps_set_threshold :: "time \<Rightarrow> SendGaps \<Rightarrow> SendGaps" where
  "SendGaps_set_threshold d g = g\<lparr>sg_threshold := d\<rparr>"

definition SendGaps_set_bucket :: "time \<Rightarrow> SendGaps \<Rightarrow> SendGaps" where
  "SendGaps_set_bucket d g = g\<lparr>sg_bucket := d\<rparr>"

section \<open>What a bucket is\<close>

text \<open>
  The abstract meter remembers the gaps themselves: those of the bucket being filled, and
  those of every completed bucket, oldest first. A completed bucket publishes its worst gap
  and how many of its gaps exceed the threshold.
\<close>

record gap_log =
  gl_last :: time
  gl_start :: time
  gl_cur :: "time list"
  gl_done :: "time list list"

definition gap_log_init :: gap_log where
  "gap_log_init = \<lparr>gl_last = time_unset, gl_start = time_unset, gl_cur = [], gl_done = []\<rparr>"

definition gap_log_sent :: "time \<Rightarrow> time \<Rightarrow> gap_log \<Rightarrow> gap_log" where
  "gap_log_sent bucket now l =
    (let cur = (if gl_last l = time_unset then gl_cur l else gl_cur l @ [now - gl_last l])
     in if gl_start l = time_unset
        then l\<lparr>gl_last := now, gl_cur := cur, gl_start := now\<rparr>
        else if now - gl_start l < bucket then l\<lparr>gl_last := now, gl_cur := cur\<rparr>
        else l\<lparr>gl_last := now, gl_cur := [], gl_done := gl_done l @ [cur], gl_start := now\<rparr>)"

definition worst_gap :: "time list \<Rightarrow> time" where
  "worst_gap gs = fold max gs 0"

definition gaps_over :: "time \<Rightarrow> time list \<Rightarrow> u32" where
  "gaps_over threshold gs = of_nat (length (filter (\<lambda>x. threshold < x) gs))"

text \<open>The concrete meter shows the abstract one.\<close>

definition gaps_show :: "SendGaps \<Rightarrow> gap_log \<Rightarrow> bool" where
  "gaps_show g l \<longleftrightarrow>
    sg_last g = gl_last l \<and> sg_bucket_start g = gl_start l \<and>
    sg_cur_max g = worst_gap (gl_cur l) \<and>
    sg_cur_count g = gaps_over (sg_threshold g) (gl_cur l) \<and>
    sg_window g = of_nat (length (gl_done l)) \<and>
    sg_done_max g = (if gl_done l = [] then 0 else worst_gap (last (gl_done l))) \<and>
    sg_done_count g = (if gl_done l = [] then 0 else gaps_over (sg_threshold g) (last (gl_done l)))"

lemma worst_gap_Nil [simp]: "worst_gap [] = 0"
  by (simp add: worst_gap_def)

lemma worst_gap_snoc [simp]: "worst_gap (gs @ [x]) = max x (worst_gap gs)"
  by (simp add: worst_gap_def)

lemma gaps_over_Nil [simp]: "gaps_over t [] = 0"
  by (simp add: gaps_over_def)

lemma gaps_over_snoc [simp]:
  "gaps_over t (gs @ [x]) = (if t < x then gaps_over t gs + 1 else gaps_over t gs)"
  by (simp add: gaps_over_def)

lemma note_gap_fields [simp]:
  "sg_threshold (SendGaps_note_gap now g) = sg_threshold g"
  "sg_bucket (SendGaps_note_gap now g) = sg_bucket g"
  "sg_last (SendGaps_note_gap now g) = sg_last g"
  "sg_bucket_start (SendGaps_note_gap now g) = sg_bucket_start g"
  "sg_done_max (SendGaps_note_gap now g) = sg_done_max g"
  "sg_done_count (SendGaps_note_gap now g) = sg_done_count g"
  "sg_window (SendGaps_note_gap now g) = sg_window g"
  by (simp_all add: SendGaps_note_gap_def Let_def)

lemma on_sent_config [simp]:
  "sg_threshold (SendGaps_on_sent now g) = sg_threshold g"
  "sg_bucket (SendGaps_on_sent now g) = sg_bucket g"
  by (simp_all add: SendGaps_on_sent_def Let_def)

lemma note_gap_cur:
  "sg_cur_max (SendGaps_note_gap now g) =
    (if sg_last g = time_unset then sg_cur_max g else max (now - sg_last g) (sg_cur_max g))"
  "sg_cur_count (SendGaps_note_gap now g) =
    (if sg_last g = time_unset \<or> now - sg_last g \<le> sg_threshold g then sg_cur_count g
     else sg_cur_count g + 1)"
  by (simp_all add: SendGaps_note_gap_def Let_def max_def)

lemma gaps_show_sent:
  assumes "gaps_show g l"
  shows "gaps_show (SendGaps_on_sent now g) (gap_log_sent (sg_bucket g) now l)"
  using assms
  by (cases "gl_last l = time_unset"; cases "gl_start l = time_unset";
      cases "now - gl_start l < sg_bucket g")
    (simp_all add: gaps_show_def SendGaps_on_sent_def gap_log_sent_def note_gap_cur Let_def
      not_le)

lemma gaps_show_fold:
  "gaps_show g l \<Longrightarrow>
    gaps_show (fold SendGaps_on_sent ts g) (fold (gap_log_sent (sg_bucket g)) ts l) \<and>
    sg_threshold (fold SendGaps_on_sent ts g) = sg_threshold g"
proof (induction ts arbitrary: g l)
  case (Cons t ts)
  from Cons.IH [OF gaps_show_sent [OF Cons.prems, of t]] show ?case by simp
qed simp

text \<open>
  The gap meter refines its specification: After any sequence of sends the published
  numbers are those of the specification that keeps every gap: the window number counts the
  completed buckets (mod $2^{32}$), the published maximum is the worst gap of the last
  completed bucket and the published count the number of its gaps over the threshold, for
  any threshold and bucket length.
\<close>

theorem send_gaps_refines_log:
  "let g = fold SendGaps_on_sent ts
             (SendGaps_set_threshold thr (SendGaps_set_bucket buck SendGaps_init));
       l = fold (gap_log_sent buck) ts gap_log_init
   in sg_window g = of_nat (length (gl_done l)) \<and>
      sg_done_max g = (if gl_done l = [] then 0 else worst_gap (last (gl_done l))) \<and>
      sg_done_count g = (if gl_done l = [] then 0 else gaps_over thr (last (gl_done l)))"
proof -
  let ?g = "SendGaps_set_threshold thr (SendGaps_set_bucket buck SendGaps_init)"
  have "gaps_show ?g gap_log_init"
    by (simp add: gaps_show_def SendGaps_init_def gap_log_init_def SendGaps_set_threshold_def
        SendGaps_set_bucket_def)
  from gaps_show_fold [OF this, of ts] show ?thesis
    by (simp add: gaps_show_def Let_def SendGaps_set_threshold_def SendGaps_set_bucket_def)
qed

end
