(* ===== verification/HciCommandQueue.thy ===== *)
theory HciCommandQueue
  imports Prelude "HOL-Library.Sublist"
begin

text \<open>
  \<^verbatim>\<open>src/src/bluetooth/HciCommandQueue.h\<close>, the queue of HCI commands with the allowance
  the controller grants, and \<^verbatim>\<open>pump_commands()\<close> of \<^verbatim>\<open>HciCommands.cpp\<close>, the loop that
  writes what the queue hands out. The kernel's answer to the \<open>i\<close>-th write is \<open>ok i\<close>, an
  arbitrary function. The text naming a command (\<^verbatim>\<open>what\<close>) and the \<^verbatim>\<open>quiet\<close> flag only
  steer log lines; the flag is kept, the text is not.
\<close>

record Command =
  cmd_ogf :: u16
  cmd_ocf :: u16
  cmd_param :: bytes
  cmd_quiet :: bool

record HciCommandQueue =
  cq_queue :: "Command list"
  cq_credits :: byte
  cq_held :: bool
  cq_awaiting :: bool
  cq_last_write :: time
  cq_timeout :: time

definition HciCommandQueue_init :: HciCommandQueue where
  "HciCommandQueue_init = \<lparr>cq_queue = [], cq_credits = 1, cq_held = False, cq_awaiting = False,
    cq_last_write = time_unset, cq_timeout = seconds 2\<rparr>"

definition HciCommandQueue_push :: "Command \<Rightarrow> HciCommandQueue \<Rightarrow> HciCommandQueue" where
  "HciCommandQueue_push c q = q\<lparr>cq_queue := cq_queue q @ [c]\<rparr>"

definition HciCommandQueue_next :: "HciCommandQueue \<Rightarrow> Command option" where
  "HciCommandQueue_next q =
    (if cq_held q \<or> cq_credits q = 0 \<or> cq_queue q = [] then None else Some (hd (cq_queue q)))"

definition HciCommandQueue_written :: "time \<Rightarrow> HciCommandQueue \<Rightarrow> HciCommandQueue" where
  "HciCommandQueue_written now q =
    (if cq_queue q = [] then q
     else q\<lparr>cq_queue := tl (cq_queue q),
            cq_credits := (if 0 < cq_credits q then cq_credits q - 1 else cq_credits q),
            cq_last_write := now, cq_awaiting := True\<rparr>)"

definition HciCommandQueue_dropped :: "HciCommandQueue \<Rightarrow> HciCommandQueue" where
  "HciCommandQueue_dropped q =
    (if cq_queue q \<noteq> [] then q\<lparr>cq_queue := tl (cq_queue q)\<rparr> else q)"

definition HciCommandQueue_answered :: "byte \<Rightarrow> HciCommandQueue \<Rightarrow> HciCommandQueue" where
  "HciCommandQueue_answered ncmd q = q\<lparr>cq_credits := ncmd, cq_awaiting := False\<rparr>"

definition HciCommandQueue_hold :: "HciCommandQueue \<Rightarrow> HciCommandQueue" where
  "HciCommandQueue_hold q = q\<lparr>cq_held := True\<rparr>"

definition HciCommandQueue_release :: "HciCommandQueue \<Rightarrow> HciCommandQueue" where
  "HciCommandQueue_release q = q\<lparr>cq_held := False\<rparr>"

definition HciCommandQueue_overdue :: "time \<Rightarrow> HciCommandQueue \<Rightarrow> bool" where
  "HciCommandQueue_overdue now q \<longleftrightarrow>
    cq_awaiting q \<and> cq_credits q = 0 \<and> cq_timeout q < now - cq_last_write q"

definition HciCommandQueue_give_up :: "HciCommandQueue \<Rightarrow> HciCommandQueue" where
  "HciCommandQueue_give_up q = q\<lparr>cq_awaiting := False, cq_credits := 1\<rparr>"

definition HciCommandQueue_set_timeout :: "time \<Rightarrow> HciCommandQueue \<Rightarrow> HciCommandQueue" where
  "HciCommandQueue_set_timeout d q = q\<lparr>cq_timeout := d\<rparr>"

section \<open>The interface of the pump\<close>

text \<open>
  A metered queue: the commands pending, first one first, and how many of them may go out
  now. A command is offered exactly when both allow it, and is always the first one.
\<close>

locale metered_queue =
  fixes pending :: "'q \<Rightarrow> 'c list"
    and allowance :: "'q \<Rightarrow> nat"
    and push :: "'c \<Rightarrow> 'q \<Rightarrow> 'q"
    and "next" :: "'q \<Rightarrow> 'c option"
    and written :: "time \<Rightarrow> 'q \<Rightarrow> 'q"
    and dropped :: "'q \<Rightarrow> 'q"
  assumes pending_push: "pending (push c q) = pending q @ [c]"
    and allowance_push: "allowance (push c q) = allowance q"
    and next_eq: "next q = (if allowance q = 0 \<or> pending q = [] then None else Some (hd (pending q)))"
    and pending_written: "pending (written t q) = tl (pending q)"
    and allowance_written: "pending q \<noteq> [] \<Longrightarrow> allowance (written t q) = allowance q - 1"
    and pending_dropped: "pending (dropped q) = tl (pending q)"
    and allowance_dropped: "allowance (dropped q) = allowance q"
begin

lemma next_Some:
  "next q = Some c \<longleftrightarrow> 0 < allowance q \<and> (\<exists>cs. pending q = c # cs)"
  by (cases "pending q") (auto simp: next_eq)

lemma next_None: "next q = None \<longleftrightarrow> allowance q = 0 \<or> pending q = []"
  by (simp add: next_eq)

lemma offered_then_gone:
  assumes "next q = Some c"
  shows "pending q = c # pending (written t q)" and "pending q = c # pending (dropped q)"
    and "allowance (written t q) = allowance q - 1" and "0 < allowance q"
  using assms by (auto simp: next_Some pending_written pending_dropped allowance_written)

end

definition cq_allowance :: "HciCommandQueue \<Rightarrow> nat" where
  "cq_allowance q = (if cq_held q then 0 else unat (cq_credits q))"

lemma unat_pred: "0 < (c :: byte) \<Longrightarrow> unat (c - 1) = unat c - 1"
  by (simp add: unat_minus_one word_gt_0)

interpretation cq: metered_queue cq_queue cq_allowance HciCommandQueue_push HciCommandQueue_next
  HciCommandQueue_written HciCommandQueue_dropped
  by unfold_locales
    (auto simp: HciCommandQueue_push_def HciCommandQueue_next_def HciCommandQueue_written_def
      HciCommandQueue_dropped_def cq_allowance_def unat_pred unat_eq_0 word_gt_0)

section \<open>The pump\<close>

function pump_queue ::
    "(nat \<Rightarrow> bool) \<Rightarrow> time \<Rightarrow> nat \<Rightarrow> HciCommandQueue \<Rightarrow> HciCommandQueue \<times> Command list \<times> nat" where
  "pump_queue ok now i q =
    (case HciCommandQueue_next q of
       None \<Rightarrow> (q, [], i)
     | Some c \<Rightarrow>
         if ok i
         then (let r = pump_queue ok now (Suc i) (HciCommandQueue_written now q)
               in (fst r, c # fst (snd r), snd (snd r)))
         else pump_queue ok now (Suc i) (HciCommandQueue_dropped q))"
  by pat_completeness auto
termination
  by (relation "measure (\<lambda>(ok, now, i, q). length (cq_queue q))")
    (auto simp: cq.next_Some cq.pending_written cq.pending_dropped)

declare pump_queue.simps [simp del]

lemma pump_queue_idle: "HciCommandQueue_next q = None \<Longrightarrow> pump_queue ok now i q = (q, [], i)"
  by (simp add: pump_queue.simps)

lemma pump_queue_exhausts: "HciCommandQueue_next (fst (pump_queue ok now i q)) = None"
proof (induction ok now i q rule: pump_queue.induct)
  case (1 ok now i q)
  show ?case
  proof (cases "HciCommandQueue_next q")
    case None
    then show ?thesis by (simp add: pump_queue_idle)
  next
    case (Some c)
    with 1 show ?thesis by (simp add: pump_queue.simps [of ok now i q] Let_def)
  qed
qed

lemma pump_queue_within_allowance:
  "length (fst (snd (pump_queue ok now i q))) \<le> cq_allowance q"
proof (induction ok now i q rule: pump_queue.induct)
  case (1 ok now i q)
  show ?case
  proof (cases "HciCommandQueue_next q")
    case None
    then show ?thesis by (simp add: pump_queue_idle)
  next
    case (Some c)
    note gone = cq.offered_then_gone(3) [OF Some, of now] cq.offered_then_gone(4) [OF Some]
    show ?thesis
    proof (cases "ok i")
      case True
      with 1(1) [OF Some True] gone show ?thesis
        by (auto simp: pump_queue.simps [of ok now i q] Some Let_def)
    next
      case False
      with 1(2) [OF Some False] show ?thesis
        by (simp add: pump_queue.simps [of ok now i q] Some cq.allowance_dropped)
    qed
  qed
qed

text \<open>What left the queue left it in order: a prefix, of which the written commands are a subsequence.\<close>

lemma pump_queue_prefix:
  "\<exists>gone. cq_queue q = gone @ cq_queue (fst (pump_queue ok now i q)) \<and>
    subseq (fst (snd (pump_queue ok now i q))) gone \<and>
    snd (snd (pump_queue ok now i q)) = i + length gone"
proof (induction ok now i q rule: pump_queue.induct)
  case (1 ok now i q)
  show ?case
  proof (cases "HciCommandQueue_next q")
    case None
    then show ?thesis by (simp add: pump_queue_idle)
  next
    case (Some c)
    note gone = cq.offered_then_gone(1) [OF Some, of now] cq.offered_then_gone(2) [OF Some]
    show ?thesis
    proof (cases "ok i")
      case True
      from 1(1) [OF Some True] obtain g where
        "cq_queue (HciCommandQueue_written now q) =
          g @ cq_queue (fst (pump_queue ok now (Suc i) (HciCommandQueue_written now q)))"
        "subseq (fst (snd (pump_queue ok now (Suc i) (HciCommandQueue_written now q)))) g"
        "snd (snd (pump_queue ok now (Suc i) (HciCommandQueue_written now q))) = Suc i + length g"
        by blast
      with gone(1) Some True show ?thesis
        by (intro exI [of _ "c # g"])
          (auto simp: pump_queue.simps [of ok now i q] Let_def)
    next
      case False
      from 1(2) [OF Some False] obtain g where
        "cq_queue (HciCommandQueue_dropped q) =
          g @ cq_queue (fst (pump_queue ok now (Suc i) (HciCommandQueue_dropped q)))"
        "subseq (fst (snd (pump_queue ok now (Suc i) (HciCommandQueue_dropped q)))) g"
        "snd (snd (pump_queue ok now (Suc i) (HciCommandQueue_dropped q))) = Suc i + length g"
        by blast
      with gone(2) Some False show ?thesis
        by (intro exI [of _ "c # g"]) (auto simp: pump_queue.simps [of ok now i q])
    qed
  qed
qed


lemma pump_queue_all_ok:
  "fst (snd (pump_queue (\<lambda>_. True) now i q)) = take (cq_allowance q) (cq_queue q) \<and>
    cq_queue (fst (pump_queue (\<lambda>_. True) now i q)) = drop (cq_allowance q) (cq_queue q)"
proof (induction "\<lambda>_ :: nat. True" now i q rule: pump_queue.induct)
  case (1 now i q)
  show ?case
  proof (cases "HciCommandQueue_next q")
    case None
    then show ?thesis by (auto simp: pump_queue_idle cq.next_None)
  next
    case (Some c)
    from Some obtain cs where q: "cq_queue q = c # cs" and pos: "0 < cq_allowance q"
      by (auto simp: cq.next_Some)
    then obtain n where n: "cq_allowance q = Suc n" by (cases "cq_allowance q") auto
    have w: "cq_queue (HciCommandQueue_written now q) = cs"
      "cq_allowance (HciCommandQueue_written now q) = n"
      using q n by (simp_all add: cq.pending_written cq.allowance_written)
    from 1(1) [OF Some TrueI] w show ?thesis
      by (simp add: pump_queue.simps [of _ now i q] Some Let_def q n)
  qed
qed

section \<open>A queue at work\<close>

text \<open>
  Everything that happens to the queue of one adapter: \<^verbatim>\<open>send_cmd\<close> pushes and pumps, a
  Command Complete or Command Status reports the allowance and pumps, the 250 ms watchdog of
  \<^verbatim>\<open>watch_commands\<close> gives an overdue command up and pumps, a reset holds the queue and
  releases it. \<open>cr_pushed\<close> and \<open>cr_written\<close> record what was ever pushed and written.
\<close>

datatype cq_event =
    CqSend Command
  | CqAnswer byte
  | CqWatch
  | CqHold
  | CqRelease

record cq_run =
  cr_queue :: HciCommandQueue
  cr_io :: nat
  cr_pushed :: "Command list"
  cr_written :: "Command list"

definition cr_pump :: "(nat \<Rightarrow> bool) \<Rightarrow> time \<Rightarrow> cq_run \<Rightarrow> cq_run" where
  "cr_pump ok now r =
    (let p = pump_queue ok now (cr_io r) (cr_queue r)
     in r\<lparr>cr_queue := fst p, cr_io := snd (snd p), cr_written := cr_written r @ fst (snd p)\<rparr>)"

primrec cr_step :: "(nat \<Rightarrow> bool) \<Rightarrow> time \<Rightarrow> cq_event \<Rightarrow> cq_run \<Rightarrow> cq_run" where
  "cr_step ok now (CqSend c) r =
    cr_pump ok now (r\<lparr>cr_queue := HciCommandQueue_push c (cr_queue r), cr_pushed := cr_pushed r @ [c]\<rparr>)"
| "cr_step ok now (CqAnswer n) r =
    cr_pump ok now (r\<lparr>cr_queue := HciCommandQueue_answered n (cr_queue r)\<rparr>)"
| "cr_step ok now CqWatch r =
    (if HciCommandQueue_overdue now (cr_queue r)
     then cr_pump ok now (r\<lparr>cr_queue := HciCommandQueue_give_up (cr_queue r)\<rparr>) else r)"
| "cr_step ok now CqHold r = r\<lparr>cr_queue := HciCommandQueue_hold (cr_queue r)\<rparr>"
| "cr_step ok now CqRelease r = cr_pump ok now (r\<lparr>cr_queue := HciCommandQueue_release (cr_queue r)\<rparr>)"

definition cr_init :: cq_run where
  "cr_init = \<lparr>cr_queue = HciCommandQueue_init, cr_io = 0, cr_pushed = [], cr_written = []\<rparr>"

fun cr_run :: "(nat \<Rightarrow> bool) \<Rightarrow> (time \<times> cq_event) list \<Rightarrow> cq_run \<Rightarrow> cq_run" where
  "cr_run ok [] r = r"
| "cr_run ok ((now, e) # es) r = cr_run ok es (cr_step ok now e r)"

text \<open>
  What was pushed splits into what left the queue and what is in it; the written commands
  are a subsequence of the former, and all of it when no write fails.
\<close>

definition cr_ok :: "cq_run \<Rightarrow> bool" where
  "cr_ok r \<longleftrightarrow> (\<exists>gone. cr_pushed r = gone @ cq_queue (cr_queue r) \<and> subseq (cr_written r) gone)"

lemma cr_pump_ok: "cr_ok r \<Longrightarrow> cr_ok (cr_pump ok now r)"
  using pump_queue_prefix [of "cr_queue r" ok now "cr_io r"]
  by (auto simp: cr_ok_def cr_pump_def Let_def intro: list_emb_append_mono)

lemma cr_ok_same_queue:
  "cr_ok r \<Longrightarrow> cq_queue q = cq_queue (cr_queue r) \<Longrightarrow> cr_ok (r\<lparr>cr_queue := q\<rparr>)"
  by (simp add: cr_ok_def)

lemma cr_step_ok: "cr_ok r \<Longrightarrow> cr_ok (cr_step ok now e r)"
proof (cases e)
  case (CqSend c)
  assume "cr_ok r"
  then have "cr_ok (r\<lparr>cr_queue := HciCommandQueue_push c (cr_queue r), cr_pushed := cr_pushed r @ [c]\<rparr>)"
    by (auto simp: cr_ok_def HciCommandQueue_push_def)
  with CqSend show ?thesis by (simp add: cr_pump_ok)
qed (auto intro!: cr_pump_ok cr_ok_same_queue simp: HciCommandQueue_answered_def
    HciCommandQueue_give_up_def HciCommandQueue_hold_def HciCommandQueue_release_def)

lemma cr_run_ok: "cr_ok r \<Longrightarrow> cr_ok (cr_run ok es r)"
  by (induction ok es r rule: cr_run.induct) (simp_all add: cr_step_ok)

lemma cr_init_ok: "cr_ok cr_init"
  by (simp add: cr_ok_def cr_init_def HciCommandQueue_init_def)

section \<open>Properties\<close>

text \<open>
  C34 (commands go out in order, at most once, never invented). In every run of the queue,
  with any pattern of failing writes, the commands written to the controller are a
  subsequence of the commands pushed, and none of those still queued is among the part
  that was let go of: the run's pushes are what has left the queue followed by what is in it.
\<close>

theorem commands_written_in_order:
  "\<exists>gone. cr_pushed (cr_run ok es cr_init) = gone @ cq_queue (cr_queue (cr_run ok es cr_init)) \<and>
    subseq (cr_written (cr_run ok es cr_init)) gone"
  using cr_run_ok [OF cr_init_ok, of ok es] by (simp add: cr_ok_def)

text \<open>
  C35 (the pump respects the controller's allowance). One pump ends, writes no more
  commands than the allowance the controller has granted and none while the queue is held
  for a reset, and stops only when the allowance or the queue is used up; when every write
  succeeds it writes exactly the first \<open>allowance\<close> commands of the queue.
\<close>

theorem pump_respects_allowance:
  "let r = pump_queue ok now i q; allowed = (if cq_held q then 0 else unat (cq_credits q))
   in length (fst (snd r)) \<le> allowed \<and>
      HciCommandQueue_next (fst r) = None \<and>
      fst (snd (pump_queue (\<lambda>_. True) now i q)) = take allowed (cq_queue q)"
  using pump_queue_within_allowance [of ok now i q] pump_queue_exhausts [of ok now i q]
    pump_queue_all_ok [of now i q]
  by (simp add: Let_def cq_allowance_def)

text \<open>
  An unanswered command does not wedge the queue: When the last command written has
  had no answer for longer than the timeout, the watchdog's next look at the queue writes
  the command at its head, unless a reset holds the queue: the pump is handed one credit
  whatever the controller did.
\<close>

theorem watchdog_unwedges_queue:
  assumes "HciCommandQueue_overdue now (cr_queue r)" and "\<not> cq_held (cr_queue r)"
    and "cq_queue (cr_queue r) = c # cs"
  shows "cr_written (cr_step (\<lambda>_. True) now CqWatch r) = cr_written r @ [c] \<and>
    cq_queue (cr_queue (cr_step (\<lambda>_. True) now CqWatch r)) = cs"
proof -
  let ?q = "HciCommandQueue_give_up (cr_queue r)"
  have "cq_allowance ?q = 1" "cq_queue ?q = c # cs"
    using assms(2,3) by (simp_all add: cq_allowance_def HciCommandQueue_give_up_def)
  then show ?thesis
    using assms(1) pump_queue_all_ok [of now "cr_io r" ?q]
    by (simp add: cr_pump_def Let_def)
qed

theorem watchdog_unwedges_queue_witness:
  "let c = \<lparr>cmd_ogf = 3, cmd_ocf = 3, cmd_param = [], cmd_quiet = False\<rparr>;
       r = cr_run (\<lambda>_. True) [(0, CqSend c), (0, CqSend c)] cr_init
   in cr_written (cr_step (\<lambda>_. True) (seconds 3) CqWatch r) = [c, c]"
proof -
  let ?c = "\<lparr>cmd_ogf = 3, cmd_ocf = 3, cmd_param = [], cmd_quiet = False\<rparr>"
  let ?r = "cr_run (\<lambda>_. True) [(0, CqSend ?c), (0, CqSend ?c)] cr_init"
  have r: "?r = \<lparr>cr_queue = \<lparr>cq_queue = [?c], cq_credits = 0, cq_held = False, cq_awaiting = True,
      cq_last_write = 0, cq_timeout = seconds 2\<rparr>, cr_io = 1, cr_pushed = [?c, ?c], cr_written = [?c]\<rparr>"
    by (simp add: cr_init_def cr_pump_def HciCommandQueue_init_def HciCommandQueue_push_def
        pump_queue.simps HciCommandQueue_next_def HciCommandQueue_written_def Let_def)
  have "cr_written (cr_step (\<lambda>_. True) (seconds 3) CqWatch ?r) = [?c, ?c]"
    using watchdog_unwedges_queue [of "seconds 3" ?r ?c "[]"]
    unfolding r by (simp add: HciCommandQueue_overdue_def seconds_def del: cr_step.simps)
  then show ?thesis by (simp only: Let_def)
qed

end
