(* ===== verification/AclFlowControl.thy ===== *)
theory AclFlowControl
  imports Prelude
begin

text \<open>
  \<^verbatim>\<open>src/src/bluetooth/AclFlowControl.h\<close>: how many ACL packets the controller still holds,
  per link and in total, and whether there is room for another. The \<^verbatim>\<open>int\<close> counters of
  the source are integers here (they count packets in a controller with a handful of
  buffers; the 31-bit bound is never in reach). \<^verbatim>\<open>steady_clock::now()\<close> is an argument;
  \<open>has_room\<close> reads the clock twice and takes both readings.
\<close>

record AclFlowControl =
  fc_max_packets :: u16
  fc_depth :: int
  fc_write_off_after :: time
  fc_in_flight :: "u16 \<rightharpoonup> int"
  fc_total :: int
  fc_last_completion :: time

definition AclFlowControl_init :: "time \<Rightarrow> AclFlowControl" where
  "AclFlowControl_init now = \<lparr>fc_max_packets = 0, fc_depth = 2, fc_write_off_after = seconds 3,
    fc_in_flight = Map.empty, fc_total = 0, fc_last_completion = now\<rparr>"

definition AclFlowControl_set_max_packets :: "u16 \<Rightarrow> AclFlowControl \<Rightarrow> AclFlowControl" where
  "AclFlowControl_set_max_packets n a = a\<lparr>fc_max_packets := n\<rparr>"

definition AclFlowControl_set_depth :: "int \<Rightarrow> AclFlowControl \<Rightarrow> AclFlowControl" where
  "AclFlowControl_set_depth d a = a\<lparr>fc_depth := d\<rparr>"

definition AclFlowControl_set_write_off_after :: "time \<Rightarrow> AclFlowControl \<Rightarrow> AclFlowControl" where
  "AclFlowControl_set_write_off_after d a = a\<lparr>fc_write_off_after := d\<rparr>"

text \<open>\<^verbatim>\<open>in_flight_[handle]++\<close> starts a missing entry at 0.\<close>

definition AclFlowControl_on_sent :: "u16 \<Rightarrow> AclFlowControl \<Rightarrow> AclFlowControl" where
  "AclFlowControl_on_sent handle a =
    a\<lparr>fc_in_flight := (fc_in_flight a)(handle \<mapsto> case_option 0 id (fc_in_flight a handle) + 1),
      fc_total := fc_total a + 1\<rparr>"

definition AclFlowControl_on_completed ::
    "u16 \<Rightarrow> int \<Rightarrow> time \<Rightarrow> AclFlowControl \<Rightarrow> AclFlowControl" where
  "AclFlowControl_on_completed handle done now a =
    (case fc_in_flight a handle of
       None \<Rightarrow> a
     | Some was \<Rightarrow>
         let left = max 0 (was - done)
         in a\<lparr>fc_in_flight := (fc_in_flight a)(handle \<mapsto> left),
              fc_total := fc_total a - (was - left),
              fc_last_completion := now\<rparr>)"

definition AclFlowControl_on_disconnect :: "u16 \<Rightarrow> AclFlowControl \<Rightarrow> AclFlowControl" where
  "AclFlowControl_on_disconnect handle a =
    (case fc_in_flight a handle of
       None \<Rightarrow> a
     | Some n \<Rightarrow> a\<lparr>fc_total := fc_total a - n, fc_in_flight := (fc_in_flight a)(handle := None)\<rparr>)"

definition AclFlowControl_budget :: "AclFlowControl \<Rightarrow> int" where
  "AclFlowControl_budget a =
    (if fc_max_packets a = 0 then fc_depth a else min (fc_depth a) (uint (fc_max_packets a) - 1))"

definition AclFlowControl_has_room ::
    "time \<Rightarrow> time \<Rightarrow> AclFlowControl \<Rightarrow> bool \<times> AclFlowControl" where
  "AclFlowControl_has_room now now' a =
    (if fc_max_packets a = 0 then (True, a)
     else if 0 < fc_total a \<and> fc_write_off_after a < now - fc_last_completion a
     then (True, a\<lparr>fc_in_flight := Map.empty, fc_total := 0, fc_last_completion := now'\<rparr>)
     else (fc_total a < AclFlowControl_budget a, a))"

section \<open>The running total is the sum\<close>

definition fc_sum :: "(u16 \<rightharpoonup> int) \<Rightarrow> int" where
  "fc_sum m = (\<Sum>h \<in> dom m. the (m h))"

definition fc_ok :: "AclFlowControl \<Rightarrow> bool" where
  "fc_ok a \<longleftrightarrow> fc_total a = fc_sum (fc_in_flight a) \<and> (\<forall>n \<in> ran (fc_in_flight a). 0 \<le> n)"

lemma fc_sum_empty [simp]: "fc_sum Map.empty = 0"
  by (simp add: fc_sum_def)

lemma fc_sum_upd:
  "fc_sum (m(h \<mapsto> n)) = fc_sum m - case_option 0 id (m h) + n"
proof -
  have "fc_sum (m(h \<mapsto> n)) = n + (\<Sum>k \<in> dom m - {h}. the (m k))"
  proof -
    have "(\<Sum>k \<in> insert h (dom m). the ((m(h \<mapsto> n)) k)) =
        the ((m(h \<mapsto> n)) h) + (\<Sum>k \<in> dom m - {h}. the ((m(h \<mapsto> n)) k))"
      by (rule sum.insert_remove) simp
    also have "(\<Sum>k \<in> dom m - {h}. the ((m(h \<mapsto> n)) k)) = (\<Sum>k \<in> dom m - {h}. the (m k))"
      by (rule sum.cong) auto
    finally show ?thesis by (simp add: fc_sum_def)
  qed
  moreover have "(\<Sum>k \<in> dom m - {h}. the (m k)) = fc_sum m - case_option 0 id (m h)"
    by (cases "m h") (auto simp: fc_sum_def sum_diff1 domIff)
  ultimately show ?thesis by simp
qed

lemma fc_sum_del: "fc_sum (m(h := None)) = fc_sum m - case_option 0 id (m h)"
proof -
  have "fc_sum (m(h := None)) = (\<Sum>k \<in> dom m - {h}. the (m k))"
    unfolding fc_sum_def by (rule sum.cong) auto
  also have "\<dots> = fc_sum m - case_option 0 id (m h)"
    by (cases "m h") (auto simp: fc_sum_def sum_diff1 domIff)
  finally show ?thesis .
qed

lemma fc_sum_nonneg: "\<forall>n \<in> ran m. 0 \<le> n \<Longrightarrow> 0 \<le> fc_sum m"
  unfolding fc_sum_def by (rule sum_nonneg) (auto simp: ran_def)

lemma ran_del_nonneg: "\<forall>n \<in> ran m. 0 \<le> (n :: int) \<Longrightarrow> \<forall>n \<in> ran (m(h := None)). 0 \<le> n"
  by (auto simp: ran_def split: if_splits)

lemma ran_updD: "x \<in> ran (m(h \<mapsto> v)) \<Longrightarrow> x = v \<or> x \<in> ran m"
  by (auto simp: ran_def split: if_splits)

lemma in_flight_nonneg: "fc_ok a \<Longrightarrow> fc_in_flight a h = Some n \<Longrightarrow> 0 \<le> n"
  by (auto simp: fc_ok_def ran_def)

lemma fc_total_nonneg: "fc_ok a \<Longrightarrow> 0 \<le> fc_total a"
  by (simp add: fc_ok_def fc_sum_nonneg)

lemma fc_ok_init: "fc_ok (AclFlowControl_init now)"
  by (simp add: fc_ok_def AclFlowControl_init_def)

lemma fc_ok_config:
  "fc_ok a \<Longrightarrow> fc_ok (AclFlowControl_set_max_packets n a)"
  "fc_ok a \<Longrightarrow> fc_ok (AclFlowControl_set_depth d a)"
  "fc_ok a \<Longrightarrow> fc_ok (AclFlowControl_set_write_off_after t a)"
  by (simp_all add: fc_ok_def AclFlowControl_set_max_packets_def AclFlowControl_set_depth_def
      AclFlowControl_set_write_off_after_def)

lemma fc_ok_on_sent: "fc_ok a \<Longrightarrow> fc_ok (AclFlowControl_on_sent h a)"
  using in_flight_nonneg [of a h]
  by (cases "fc_in_flight a h")
    (auto simp: fc_ok_def AclFlowControl_on_sent_def fc_sum_upd dest!: ran_updD)

lemma fc_ok_on_completed: "fc_ok a \<Longrightarrow> fc_ok (AclFlowControl_on_completed h done now a)"
  by (cases "fc_in_flight a h")
    (auto simp: fc_ok_def AclFlowControl_on_completed_def fc_sum_upd Let_def dest!: ran_updD)

lemma fc_ok_on_disconnect: "fc_ok a \<Longrightarrow> fc_ok (AclFlowControl_on_disconnect h a)"
  by (cases "fc_in_flight a h")
    (auto simp: fc_ok_def AclFlowControl_on_disconnect_def fc_sum_del intro!: ran_del_nonneg)

lemma fc_ok_has_room: "fc_ok a \<Longrightarrow> fc_ok (snd (AclFlowControl_has_room t t' a))"
  by (simp add: fc_ok_def AclFlowControl_has_room_def)

lemmas fc_ok_ops = fc_ok_config fc_ok_on_sent fc_ok_on_completed fc_ok_on_disconnect fc_ok_has_room

section \<open>The credit interface of the relay\<close>

text \<open>
  What the relay relies on when it meters a stream: a non-negative number of packets in
  flight that a send raises by one and that completions, disconnects and asking for room
  never raise, and a room question that is answered positively only below the budget or
  after everything was written off.
\<close>

locale credit_meter =
  fixes invar :: "'s \<Rightarrow> bool"
    and held :: "'s \<Rightarrow> int"
    and budget :: "'s \<Rightarrow> int"
    and metered :: "'s \<Rightarrow> bool"
    and sent :: "u16 \<Rightarrow> 's \<Rightarrow> 's"
    and completed :: "u16 \<Rightarrow> int \<Rightarrow> time \<Rightarrow> 's \<Rightarrow> 's"
    and gone :: "u16 \<Rightarrow> 's \<Rightarrow> 's"
    and room :: "time \<Rightarrow> time \<Rightarrow> 's \<Rightarrow> bool \<times> 's"
  assumes held_nonneg: "invar s \<Longrightarrow> 0 \<le> held s"
    and held_sent: "held (sent h s) = held s + 1"
    and held_completed: "invar s \<Longrightarrow> 0 \<le> n \<Longrightarrow> held (completed h n t s) \<le> held s"
    and held_gone: "invar s \<Longrightarrow> held (gone h s) \<le> held s"
    and held_room: "invar s \<Longrightarrow> held (snd (room t t' s)) \<le> held s"
    and room_below: "metered s \<Longrightarrow> fst (room t t' s) \<Longrightarrow>
      held (snd (room t t' s)) < budget s \<or> held (snd (room t t' s)) = 0"
    and budget_ops: "budget (sent h s) = budget s" "budget (completed h n t s) = budget s"
      "budget (gone h s) = budget s" "budget (snd (room t t' s)) = budget s"
    and metered_ops: "metered (sent h s) = metered s" "metered (completed h n t s) = metered s"
      "metered (gone h s) = metered s" "metered (snd (room t t' s)) = metered s"
    and invar_ops: "invar s \<Longrightarrow> invar (sent h s)" "invar s \<Longrightarrow> invar (completed h n t s)"
      "invar s \<Longrightarrow> invar (gone h s)" "invar s \<Longrightarrow> invar (snd (room t t' s))"
begin

text \<open>A stream that asks for room before every send stays within the budget.\<close>

definition gated :: "u16 \<Rightarrow> time \<Rightarrow> time \<Rightarrow> 's \<Rightarrow> 's" where
  "gated h t t' s = (if fst (room t t' s) then sent h (snd (room t t' s)) else snd (room t t' s))"

definition within :: "'s \<Rightarrow> bool" where
  "within s \<longleftrightarrow> invar s \<and> metered s \<and> 1 \<le> budget s \<and> held s \<le> budget s"

lemma within_gated: "within s \<Longrightarrow> within (gated h t t' s) \<and> budget (gated h t t' s) = budget s"
  using room_below [of s t t'] held_room [of s t t']
  by (auto simp: within_def gated_def budget_ops metered_ops invar_ops held_sent)

lemma within_completed:
  "within s \<Longrightarrow> 0 \<le> n \<Longrightarrow> within (completed h n t s) \<and> budget (completed h n t s) = budget s"
  using held_completed [of s n h t] by (auto simp: within_def budget_ops metered_ops invar_ops)

lemma within_gone: "within s \<Longrightarrow> within (gone h s) \<and> budget (gone h s) = budget s"
  using held_gone [of s h] by (auto simp: within_def budget_ops metered_ops invar_ops)

end

lemma on_completed_le: "fc_ok a \<Longrightarrow> 0 \<le> n \<Longrightarrow> fc_total (AclFlowControl_on_completed h n t a) \<le> fc_total a"
  using in_flight_nonneg [of a h]
  by (auto simp: AclFlowControl_on_completed_def Let_def split: option.splits)

lemma on_disconnect_le: "fc_ok a \<Longrightarrow> fc_total (AclFlowControl_on_disconnect h a) \<le> fc_total a"
  using in_flight_nonneg [of a h]
  by (auto simp: AclFlowControl_on_disconnect_def split: option.splits)

lemma fc_config_ops:
  "fc_max_packets (AclFlowControl_on_sent h a) = fc_max_packets a"
  "fc_depth (AclFlowControl_on_sent h a) = fc_depth a"
  "fc_max_packets (AclFlowControl_on_completed h n t a) = fc_max_packets a"
  "fc_depth (AclFlowControl_on_completed h n t a) = fc_depth a"
  "fc_max_packets (AclFlowControl_on_disconnect h a) = fc_max_packets a"
  "fc_depth (AclFlowControl_on_disconnect h a) = fc_depth a"
  "fc_max_packets (snd (AclFlowControl_has_room t t' a)) = fc_max_packets a"
  "fc_depth (snd (AclFlowControl_has_room t t' a)) = fc_depth a"
  by (simp_all add: AclFlowControl_on_sent_def AclFlowControl_on_completed_def
      AclFlowControl_on_disconnect_def AclFlowControl_has_room_def Let_def split: option.split)

interpretation fc: credit_meter fc_ok fc_total AclFlowControl_budget "\<lambda>a. fc_max_packets a \<noteq> 0"
  AclFlowControl_on_sent AclFlowControl_on_completed AclFlowControl_on_disconnect
  AclFlowControl_has_room
proof unfold_locales
  show "fc_total (snd (AclFlowControl_has_room t t' s)) \<le> fc_total s" if "fc_ok s" for s t t'
    using fc_total_nonneg [OF that] by (simp add: AclFlowControl_has_room_def)
  show "fc_total (snd (AclFlowControl_has_room t t' s)) < AclFlowControl_budget s \<or>
      fc_total (snd (AclFlowControl_has_room t t' s)) = 0"
    if "fc_max_packets s \<noteq> 0" "fst (AclFlowControl_has_room t t' s)" for s t t'
    using that by (auto simp: AclFlowControl_has_room_def split: if_splits)
  show "fc_total (AclFlowControl_on_sent h s) = fc_total s + 1" for h s
    by (simp add: AclFlowControl_on_sent_def)
qed (simp_all add: fc_total_nonneg on_completed_le on_disconnect_le fc_config_ops fc_ok_ops
    AclFlowControl_budget_def)

section \<open>Properties\<close>

text \<open>
  What happens to the meter of a link that carries one metered stream: the relay asks for
  room and sends when there is some (\<open>FcReport\<close>), the controller returns buffers, a link
  goes away.
\<close>

datatype fc_event =
    FcReport u16 time
  | FcCompleted u16 u16 time
  | FcDisconnected u16

primrec fc_step :: "fc_event \<Rightarrow> AclFlowControl \<Rightarrow> AclFlowControl" where
  "fc_step (FcReport h t) a =
    (case AclFlowControl_has_room t t a of
       (room, a') \<Rightarrow> if room then AclFlowControl_on_sent h a' else a')"
| "fc_step (FcCompleted h n t) a = AclFlowControl_on_completed h (uint n) t a"
| "fc_step (FcDisconnected h) a = AclFlowControl_on_disconnect h a"

lemma fc_step_gated: "fc_step (FcReport h t) a = fc.gated h t t a"
  by (simp add: fc.gated_def split: prod.split)

lemma fc_ok_step: "fc_ok a \<Longrightarrow> fc_ok (fc_step e a)"
proof (cases e)
  case (FcReport h t)
  assume "fc_ok a"
  then show ?thesis unfolding FcReport fc_step_gated by (simp add: fc.gated_def fc_ok_ops)
qed (simp_all add: fc_ok_ops)

lemma fc_ok_run: "fc_ok a \<Longrightarrow> fc_ok (fold fc_step es a)"
  by (induction es arbitrary: a) (simp_all add: fc_ok_step)

text \<open>The meter of a link as the relay sets it up.\<close>

definition fc_start :: "u16 \<Rightarrow> int \<Rightarrow> time \<Rightarrow> AclFlowControl" where
  "fc_start n d t0 =
    AclFlowControl_set_depth d (AclFlowControl_set_max_packets n (AclFlowControl_init t0))"

lemma fc_ok_start: "fc_ok (fc_start n d t0)"
  by (simp add: fc_start_def fc_ok_config fc_ok_init)

lemma fc_within_start:
  assumes "2 \<le> n" and "1 \<le> d"
  shows "fc.within (fc_start n d t0) \<and> AclFlowControl_budget (fc_start n d t0) = min d (uint n - 1)"
proof -
  have "n \<noteq> 0" "2 \<le> uint n"
    using assms(1) by (auto simp: word_le_def)
  then show ?thesis
    using assms(2) fc_ok_start [of n d t0]
    by (auto simp: fc.within_def AclFlowControl_budget_def fc_start_def
        AclFlowControl_set_depth_def AclFlowControl_set_max_packets_def AclFlowControl_init_def)
qed

lemma fc_step_within:
  "fc.within a \<Longrightarrow> fc.within (fc_step e a) \<and>
    AclFlowControl_budget (fc_step e a) = AclFlowControl_budget a"
proof (cases e)
  case (FcReport h t)
  assume "fc.within a"
  then show ?thesis unfolding FcReport fc_step_gated by (rule fc.within_gated)
qed (simp_all add: fc.within_completed fc.within_gone)

lemma fold_fc_step_within:
  "fc.within a \<Longrightarrow> fc.within (fold fc_step es a) \<and>
    AclFlowControl_budget (fold fc_step es a) = AclFlowControl_budget a"
proof (induction es arbitrary: a)
  case (Cons e es)
  from fc_step_within [OF Cons.prems, of e] Cons.IH [of "fc_step e a"] show ?case by simp
qed simp

lemma fc_run_within:
  assumes "2 \<le> n" and "1 \<le> d"
  shows "fc.within (fold fc_step es (fc_start n d t0))"
    and "AclFlowControl_budget (fold fc_step es (fc_start n d t0)) = min d (uint n - 1)"
  using fc_within_start [OF assms, of t0] fold_fc_step_within [of "fc_start n d t0" es] by simp_all

text \<open>
  Credit accounting: Whatever sequence of sends, completions (for known or unknown
  links, of any number of packets), disconnects and room questions the meter sees, the
  running total equals the sum of the per-link counts and no count is negative.
\<close>

theorem acl_total_is_sum:
  "let a = fold fc_step es (fc_start n d t0)
   in fc_total a = (\<Sum>h \<in> dom (fc_in_flight a). the (fc_in_flight a h)) \<and>
      0 \<le> fc_total a \<and> (\<forall>h. case fc_in_flight a h of None \<Rightarrow> True | Some k \<Rightarrow> 0 \<le> k)"
proof -
  have "fc_ok (fold fc_step es (fc_start n d t0))"
    by (rule fc_ok_run) (rule fc_ok_start)
  then show ?thesis
    using fc_total_nonneg in_flight_nonneg
    by (auto simp: fc_ok_def fc_sum_def Let_def split: option.split)
qed

text \<open>
  C30 (the input stream stays shallow). On a controller with at least two buffers and a
  positive depth, a stream that is sent only when \<^verbatim>\<open>has_room\<close> says so never has more
  packets counted in flight than \<^verbatim>\<open>budget()\<close>, which leaves one controller buffer free
  and never exceeds the configured depth.
\<close>

theorem acl_stream_within_budget:
  assumes "2 \<le> n" and "1 \<le> d"
  shows "let a = fold fc_step es (fc_start n d t0)
   in fc_total a \<le> AclFlowControl_budget a \<and> fc_total a \<le> d \<and> fc_total a \<le> uint n - 1"
proof -
  have "fc_total (fold fc_step es (fc_start n d t0)) \<le> min d (uint n - 1)"
    using fc_run_within [OF assms, of es t0] by (simp add: fc.within_def)
  then show ?thesis
    using fc_run_within(2) [OF assms, of es t0] by (simp add: Let_def)
qed

theorem acl_stream_within_budget_witness:
  "let a = fold fc_step [FcReport 11 5, FcReport 11 6, FcReport 11 7, FcCompleted 11 1 8]
             (fc_start 8 2 0)
   in fc_total a \<le> AclFlowControl_budget a \<and> fc_total a \<le> 2 \<and> fc_total a \<le> uint (8 :: u16) - 1"
  by (rule acl_stream_within_budget) simp_all

text \<open>
  C31 (no permanent block). On such a controller, after any sequence of events, once more
  time than the write-off threshold has passed since the last completion \<^verbatim>\<open>has_room\<close>
  answers yes, whether or not the controller ever returned a buffer; and a controller that
  has returned everything is never refused.
\<close>

theorem acl_never_wedged:
  assumes "2 \<le> n" and "1 \<le> d"
  shows "let a = fold fc_step es (fc_start n d t0)
   in fc_total a = 0 \<or> fc_write_off_after a < now - fc_last_completion a \<longrightarrow>
      fst (AclFlowControl_has_room now now' a)"
proof -
  let ?a = "fold fc_step es (fc_start n d t0)"
  have "fc.within ?a"
    by (rule fc_run_within [OF assms])
  then show ?thesis
    using fc_total_nonneg [of ?a]
    by (auto simp: fc.within_def AclFlowControl_has_room_def Let_def)
qed

theorem acl_never_wedged_witness:
  "let a = fold fc_step [FcReport 11 5, FcReport 11 6, FcReport 11 7] (fc_start 8 2 0)
   in (fc_total a = 0 \<or> fc_write_off_after a < seconds 4 - fc_last_completion a \<longrightarrow>
      fst (AclFlowControl_has_room (seconds 4) (seconds 4) a)) \<and>
      fc_total a = 2 \<and> fc_write_off_after a < seconds 4 - fc_last_completion a"
  using acl_never_wedged [of 8 2 "[FcReport 11 5, FcReport 11 6, FcReport 11 7]" 0 "seconds 4" "seconds 4"]
  by (simp add: Let_def fc_start_def AclFlowControl_set_depth_def AclFlowControl_init_def
      AclFlowControl_set_max_packets_def AclFlowControl_has_room_def AclFlowControl_on_sent_def
      AclFlowControl_budget_def seconds_def)

text \<open>
  A packet sent after a quiet spell is written off at once: The idle time is measured
  from the last completion and not from the send: on a meter with nothing outstanding and
  no completion for longer than the threshold, the very packet just sent is treated as
  never returned by the next \<^verbatim>\<open>has_room\<close>, at the same instant, although it was handed to
  the controller no time ago. A controller that has reported all its buffers free thus has
  its budget exceeded by one packet after every pause.
\<close>

theorem acl_writes_off_fresh_packet:
  assumes "fc_max_packets a \<noteq> 0" and "fc_total a = 0" and "0 < fc_write_off_after a"
    and "fc_write_off_after a < now - fc_last_completion a"
  shows "fst (AclFlowControl_has_room now now (AclFlowControl_on_sent h a)) \<and>
    fc_total (snd (AclFlowControl_has_room now now (AclFlowControl_on_sent h a))) = 0"
  using assms by (simp add: AclFlowControl_has_room_def AclFlowControl_on_sent_def)

theorem acl_writes_off_fresh_packet_witness:
  "fst (AclFlowControl_has_room (seconds 9) (seconds 9) (AclFlowControl_on_sent 11
      (AclFlowControl_set_max_packets 2 (AclFlowControl_init (seconds 1))))) \<and>
    fc_total (snd (AclFlowControl_has_room (seconds 9) (seconds 9) (AclFlowControl_on_sent 11
      (AclFlowControl_set_max_packets 2 (AclFlowControl_init (seconds 1)))))) = 0"
  by (rule acl_writes_off_fresh_packet)
    (simp_all add: AclFlowControl_set_max_packets_def AclFlowControl_init_def seconds_def)

end
