(* ===== verification/Transforms.thy ===== *)
theory Transforms
  imports DualSense
begin

unbundle bit_operations_syntax

text \<open>
  \<^verbatim>\<open>src/src/dualsense/Transforms.h\<close>: the pure byte transformations of the relay. A
  Bluetooth payload is \<open>[0xa1][0x31][flags][body 63][pad 9][crc32]\<close>, a USB report
  \<open>[0x01][body 63]\<close>. The source indexes the payload it is given without a check of its
  own; a definition is \<open>None\<close> when such an index lies outside the payload.
\<close>

section \<open>HCI framing\<close>

definition acl_header_handle :: "u16 \<Rightarrow> u16 \<Rightarrow> u16" where
  "acl_header_handle handle boundary_flag =
    (handle AND 0x0fff) OR push_bit 12 (boundary_flag AND 0x3)"

text \<open>The receiving side, \<^verbatim>\<open>acl_handle_pack_handle\<close> and the flag bits of \<^verbatim>\<open>L2cap.cpp\<close>.\<close>

definition acl_handle_pack_handle :: "u16 \<Rightarrow> u16" where
  "acl_handle_pack_handle packed = packed AND 0x0fff"

definition acl_boundary_flag :: "u16 \<Rightarrow> byte" where
  "acl_boundary_flag packed = ucast (drop_bit 12 packed AND 0x3)"

lemma fff_is_mask: "(0x0fff :: 'a::len word) = mask 12"
  by (simp add: mask_numeral)

lemma three_is_mask: "(3 :: 'a::len word) = mask 2"
  by (simp add: mask_numeral)

lemma pack_handle_of_header:
  "acl_handle_pack_handle (acl_header_handle h f) = h AND 0x0fff"
  by (rule bit_word_eqI)
    (auto simp: acl_handle_pack_handle_def acl_header_handle_def fff_is_mask three_is_mask
      bit_simps)

lemma boundary_of_header: "acl_boundary_flag (acl_header_handle h f) = ucast (f AND 3)"
  by (rule bit_word_eqI)
    (auto simp: acl_boundary_flag_def acl_header_handle_def fff_is_mask three_is_mask bit_simps)

section \<open>Input reports\<close>

definition BT_BODY_OFF :: nat where [consts_def]: "BT_BODY_OFF = 1 + INPUT_BODY_OFF_BT"
definition FACE_BUTTON_OFF :: nat where [consts_def]: "FACE_BUTTON_OFF = 7"
definition BUTTON_PS_OFF :: nat where [consts_def]: "BUTTON_PS_OFF = 9"
definition BUTTON_PS :: byte where [consts_def]: "BUTTON_PS = 0x01"
definition BT_FLAGS_OFF :: nat where [consts_def]: "BT_FLAGS_OFF = 2"
definition FLAG_HAS_HID :: byte where [consts_def]: "FLAG_HAS_HID = 0x01"

definition carries_controller_state :: "bytes \<Rightarrow> bool" where
  "carries_controller_state payload \<longleftrightarrow>
    length payload = 1 + INPUT_BT_SIZE \<and> payload ! BT_FLAGS_OFF AND FLAG_HAS_HID \<noteq> 0"

definition input_crc_is_valid :: "zlib \<Rightarrow> bytes \<Rightarrow> bool" where
  "input_crc_is_valid zcrc payload =
    (if length payload \<noteq> 1 + INPUT_BT_SIZE then False
     else let n = length payload;
              theirs = le32 (payload ! (n - 4)) (payload ! (n - 3)) (payload ! (n - 2)) (payload ! (n - 1))
          in theirs = crc32_seeded zcrc CRC_SEED_INPUT (subspan 1 (INPUT_BT_SIZE - 4) payload))"

text \<open>
  The cut-down report: ten bytes out of the body at \<open>BT_BODY_OFF\<close>, the highest of them
  \<open>b[9]\<close>.
\<close>

definition make_cut_down_report :: "bytes \<Rightarrow> bytes option" where
  "make_cut_down_report payload =
    (if length payload \<le> BT_BODY_OFF + 9 then None
     else let b = (\<lambda>i. payload ! (BT_BODY_OFF + i));
              buttons2 = (b 9 AND 0x03) OR push_bit 2 (b 6 AND 0x3f);
              buttons0 = b FACE_BUTTON_OFF
          in Some [REPORT_INPUT_BT_BASIC, b 0, b 1, b 2, b 3, buttons0, b 8, buttons2, b 4, b 5])"

definition usb_status :: "byte \<Rightarrow> byte" where
  "usb_status status =
    (let capacity = status AND 0x0f;
         charging = (if 10 \<le> capacity then STATUS_CHARGING_FULL else STATUS_CHARGING_CHARGING)
     in push_bit 4 charging OR capacity)"

definition make_usb_report :: "bytes \<Rightarrow> bytes option" where
  "make_usb_report payload =
    (if length payload < BT_BODY_OFF + INPUT_BODY_LEN then None
     else let usb = overwrite INPUT_BODY_OFF_USB (subspan BT_BODY_OFF INPUT_BODY_LEN payload)
                      (REPORT_INPUT_USB # replicate (INPUT_USB_SIZE - 1) 0);
              at = INPUT_BODY_OFF_USB + STATUS_OFF
          in Some (usb[at := usb_status (usb ! at)]))"

definition set_ps_on_usb_report :: "bytes \<Rightarrow> bytes" where
  "set_ps_on_usb_report usb =
    (if length usb \<noteq> INPUT_USB_SIZE then usb
     else let at = INPUT_BODY_OFF_USB + BUTTON_PS_OFF in usb[at := usb ! at OR BUTTON_PS])"

lemma BT_BODY_OFF_eq: "BT_BODY_OFF = 3"
  by (simp add: BT_BODY_OFF_def INPUT_BODY_OFF_BT_def)

lemmas transform_consts = INPUT_BT_SIZE_def INPUT_USB_SIZE_def INPUT_BODY_OFF_BT_def
  INPUT_BODY_OFF_USB_def INPUT_BODY_LEN_def STATUS_OFF_def BT_BODY_OFF_eq FACE_BUTTON_OFF_def
  BUTTON_PS_OFF_def BT_FLAGS_OFF_def

lemma make_usb_report_length:
  "make_usb_report payload = Some usb \<Longrightarrow> length usb = 64"
  by (auto simp: make_usb_report_def transform_consts Let_def split: if_splits)

lemma length_set_ps [simp]: "length (set_ps_on_usb_report usb) = length usb"
  by (simp add: set_ps_on_usb_report_def Let_def)

lemma make_usb_report_nth:
  assumes "make_usb_report payload = Some usb" and "i < 63"
  shows "usb ! (1 + i) =
    (if i = STATUS_OFF then usb_status (payload ! (3 + STATUS_OFF)) else payload ! (3 + i))"
proof -
  let ?body = "take 63 (drop 3 payload)"
  from assms have len: "66 \<le> length payload"
    by (auto simp: make_usb_report_def transform_consts split: if_splits)
  then have lb: "length ?body = 63" by simp
  from assms len have usb: "usb = (1 # ?body)[53 := usb_status ((1 # ?body) ! 53)]"
    by (auto simp: make_usb_report_def transform_consts Let_def overwrite_def subspan_def
        REPORT_INPUT_USB_def split: if_splits)
  have nth: "(1 # ?body) ! Suc i = payload ! (3 + i)" if "i < 63" for i
    using that len by simp
  have n53: "(1 # ?body) ! 53 = payload ! 55"
    using nth [of 52] by simp
  show ?thesis
  proof (cases "i = 52")
    case True
    with usb n53 lb show ?thesis by (simp add: STATUS_OFF_def)
  next
    case False
    with usb nth [OF assms(2)] lb show ?thesis by (simp add: STATUS_OFF_def nth_list_update)
  qed
qed

lemma make_usb_report_head:
  "make_usb_report payload = Some usb \<Longrightarrow> usb ! 0 = REPORT_INPUT_USB"
  by (auto simp: make_usb_report_def transform_consts Let_def overwrite_def split: if_splits)

lemma usb_status_capacity: "usb_status s AND 0x0f = s AND 0x0f"
proof -
  have "(push_bit 4 c OR (s AND mask 4)) AND mask 4 = s AND mask 4" for c :: byte
    by (rule bit_word_eqI) (auto simp: bit_simps)
  then show ?thesis
    by (simp add: usb_status_def Let_def mask_numeral)
qed

lemma usb_status_charging:
  "drop_bit 4 (usb_status s) =
    (if 10 \<le> s AND 0x0f then STATUS_CHARGING_FULL else STATUS_CHARGING_CHARGING)"
proof -
  have "drop_bit 4 (push_bit 4 c OR (s AND mask 4)) = c" if "c = 1 \<or> c = 2" for c :: byte
    using that
    by (auto intro!: bit_word_eqI simp: bit_simps bit_1_iff bit_2_iff dest: bit_imp_le_length)
  then show ?thesis
    by (simp add: usb_status_def Let_def mask_numeral STATUS_CHARGING_FULL_def
        STATUS_CHARGING_CHARGING_def)
qed

section \<open>Properties\<close>

text \<open>
  Acl handle round trip: The handle field the relay puts on an outgoing ACL packet is
  read back by its own receive path: the low twelve bits are the connection handle and the
  boundary flag is the one given, whatever the two values are; the flag never reaches the
  handle bits.
\<close>

theorem acl_header_roundtrip:
  "acl_handle_pack_handle (acl_header_handle handle flag) = handle AND 0x0fff \<and>
   acl_boundary_flag (acl_header_handle handle flag) = ucast (flag AND 0x3)"
  by (simp add: pack_handle_of_header boundary_of_header)

text \<open>
  Checksum round trip: A 78-byte report closed with \<^verbatim>\<open>append_crc32\<close> under the input
  seed and sent behind its HIDP header is exactly what \<^verbatim>\<open>input_crc_is_valid\<close> accepts:
  a payload is valid if and only if its last four bytes are the ones \<^verbatim>\<open>append_crc32\<close>
  writes. This holds for every checksum function.
\<close>

theorem input_crc_iff_append:
  assumes "length payload = 1 + INPUT_BT_SIZE"
  shows "input_crc_is_valid zcrc payload \<longleftrightarrow>
    append_crc32 zcrc CRC_SEED_INPUT (tl payload) INPUT_BT_SIZE = Some (tl payload)"
proof -
  let ?r = "tl payload"
  let ?c = "crc32_seeded zcrc CRC_SEED_INPUT (take 74 ?r)"
  have len: "length ?r = 78" using assms by (simp add: INPUT_BT_SIZE_def)
  have sub: "subspan 1 (INPUT_BT_SIZE - 4) payload = take 74 ?r"
    by (simp add: subspan_def INPUT_BT_SIZE_def drop_Suc)
  have split: "?r = take 74 ?r @ drop 74 ?r" by simp
  have "drop 74 ?r = [?r ! 74, ?r ! 75, ?r ! 76, ?r ! 77]"
    using len by (simp add: Cons_nth_drop_Suc [symmetric])
  moreover have nth: "?r ! i = payload ! Suc i" if "i < 78" for i
    using assms that by (simp add: INPUT_BT_SIZE_def nth_tl)
  ultimately have tail: "drop 74 ?r = [payload ! 75, payload ! 76, payload ! 77, payload ! 78]"
    by simp
  have "append_crc32 zcrc CRC_SEED_INPUT ?r INPUT_BT_SIZE = Some (take 74 ?r @ put_le32 ?c)"
    using append_crc32_full [of ?r zcrc CRC_SEED_INPUT] unfolding len INPUT_BT_SIZE_def by simp
  moreover have "take 74 ?r @ put_le32 ?c = ?r \<longleftrightarrow> put_le32 ?c = drop 74 ?r"
    using split by (metis append_eq_append_conv)
  moreover have "put_le32 ?c = drop 74 ?r \<longleftrightarrow>
      le32 (payload ! 75) (payload ! 76) (payload ! 77) (payload ! 78) = ?c"
    unfolding tail by (rule put_le32_iff)
  ultimately show ?thesis
    using assms sub by (simp add: input_crc_is_valid_def Let_def INPUT_BT_SIZE_def)
qed

theorem input_crc_iff_append_witness:
  "input_crc_is_valid (\<lambda>_ _. 0) (0xa1 # replicate 78 0) \<and>
    append_crc32 (\<lambda>_ _. 0) CRC_SEED_INPUT (replicate 78 0) INPUT_BT_SIZE = Some (replicate 78 0)"
proof -
  have "input_crc_is_valid (\<lambda>_ _. 0) (0xa1 # replicate 78 0)"
    by (simp add: input_crc_is_valid_def INPUT_BT_SIZE_def crc32_seeded_def Let_def le32_def
        nth_Cons' numeral_nat)
  then show ?thesis
    using input_crc_iff_append [of "0xa1 # replicate 78 0" "\<lambda>_ _. 0"]
    by (simp add: INPUT_BT_SIZE_def)
qed

end
