(* ===== verification/InputFeed.thy ===== *)
theory InputFeed
  imports Transforms
begin

unbundle bit_operations_syntax

text \<open>
  \<^verbatim>\<open>src/src/input/InputFeed.h\<close>: the pad's input, published in shared memory for a viewer.
  The decoding of a report body, the writer's and the reader's operations on the shared page,
  and the sequence lock between them as an interleaving of single loads and stores. The two
  clocks a publish reads are arguments.
\<close>

section \<open>The report body\<close>

definition BODY_LEN :: nat where [consts_def]: "BODY_LEN = 63"
definition EVENTS :: nat where [consts_def]: "EVENTS = 256"
definition DPAD_OFF :: nat where [consts_def]: "DPAD_OFF = 7"
definition BUTTONS2_OFF :: nat where [consts_def]: "BUTTONS2_OFF = 8"
definition BUTTONS3_OFF :: nat where [consts_def]: "BUTTONS3_OFF = 9"
definition TOUCH_OFF :: nat where [consts_def]: "TOUCH_OFF = 32"
definition BATTERY_OFF :: nat where [consts_def]: "BATTERY_OFF = 52"

text \<open>The bits \<open>UP\<close>, \<open>RIGHT\<close>, \<open>DOWN\<close>, \<open>LEFT\<close> of the enumeration \<^verbatim>\<open>Button\<close>, and \<open>PS\<close>.\<close>

definition UP :: u32 where [consts_def]: "UP = 1"
definition RIGHT :: u32 where [consts_def]: "RIGHT = 2"
definition DOWN :: u32 where [consts_def]: "DOWN = 4"
definition LEFT :: u32 where [consts_def]: "LEFT = 8"
definition PS :: u32 where [consts_def]: "PS = 0x10000"

definition hat :: "u32 list" where
  "hat = [UP, UP OR RIGHT, RIGHT, DOWN OR RIGHT, DOWN, DOWN OR LEFT, LEFT, UP OR LEFT]"

definition pack_buttons :: "bytes \<Rightarrow> u32" where
  "pack_buttons body =
    (let dpad = unat (body ! DPAD_OFF AND 0x0f)
     in (if dpad < length hat then hat ! dpad else 0)
        OR ucast (body ! DPAD_OFF AND 0xf0)
        OR push_bit 8 (ucast (body ! BUTTONS2_OFF))
        OR push_bit 16 (ucast (body ! BUTTONS3_OFF AND 0x07)))"

record Touch =
  t_active :: bool
  t_x :: u16
  t_y :: u16

record PadState =
  ps_buttons :: u32
  ps_lx :: byte
  ps_ly :: byte
  ps_rx :: byte
  ps_ry :: byte
  ps_l2 :: byte
  ps_r2 :: byte
  ps_touch :: "Touch list"
  ps_battery :: byte

definition decode_touch :: "bytes \<Rightarrow> Touch" where
  "decode_touch p = \<lparr>t_active = (p ! 0 AND 0x80 = 0),
    t_x = ucast (p ! 1) OR push_bit 8 (ucast (p ! 2 AND 0x0f)),
    t_y = ucast (drop_bit 4 (p ! 2)) OR push_bit 4 (ucast (p ! 3))\<rparr>"

definition decode :: "bytes \<Rightarrow> PadState" where
  "decode body = \<lparr>ps_buttons = pack_buttons body, ps_lx = body ! 0, ps_ly = body ! 1,
    ps_rx = body ! 2, ps_ry = body ! 3, ps_l2 = body ! 4, ps_r2 = body ! 5,
    ps_touch = map (\<lambda>i. decode_touch (subspan (TOUCH_OFF + 4 * i) 4 body)) [0, 1],
    ps_battery = body ! BATTERY_OFF\<rparr>"

section \<open>The shared page\<close>

datatype Stage =
    STAGE_PAD_SEARCH
  | STAGE_PAD_CONNECT
  | STAGE_USB_WAIT
  | STAGE_USB_READ
  | STAGE_USB_PRESS
  | STAGE_CALLING
  | STAGE_CONSOLE_CONNECT
  | STAGE_RELAYING

text \<open>The value each stage has on the wire; stages are ordered by it.\<close>

primrec stage_code :: "Stage \<Rightarrow> nat" where
  "stage_code STAGE_PAD_SEARCH = 0"
| "stage_code STAGE_PAD_CONNECT = 1"
| "stage_code STAGE_USB_WAIT = 2"
| "stage_code STAGE_USB_READ = 3"
| "stage_code STAGE_USB_PRESS = 4"
| "stage_code STAGE_CALLING = 5"
| "stage_code STAGE_CONSOLE_CONNECT = 6"
| "stage_code STAGE_RELAYING = 7"

lemma stage_code_inj: "stage_code a = stage_code b \<longleftrightarrow> a = b"
  by (cases a; cases b) simp_all

instantiation Stage :: linorder
begin

definition less_eq_Stage :: "Stage \<Rightarrow> Stage \<Rightarrow> bool" where
  "less_eq_Stage a b \<longleftrightarrow> stage_code a \<le> stage_code b"

definition less_Stage :: "Stage \<Rightarrow> Stage \<Rightarrow> bool" where
  "less_Stage a b \<longleftrightarrow> stage_code a < stage_code b"

instance
  by standard (auto simp: less_eq_Stage_def less_Stage_def stage_code_inj)

end

record Event =
  ev_realtime_ns :: u64
  ev_buttons :: u32

record Link =
  l_stage :: Stage
  l_call_attempt :: byte
  l_console_sent :: u64
  l_output_sent :: u64
  l_output_dropped :: u64
  l_gap_window :: u32
  l_gap_count :: u32
  l_gap_max_us :: u32
  l_console_live :: bool
  l_link_quality :: byte
  l_link_rssi :: byte
  l_afh_channels :: byte
  l_radio_read :: bool

definition Link_init :: Link where
  "Link_init = \<lparr>l_stage = STAGE_PAD_SEARCH, l_call_attempt = 0, l_console_sent = 0,
    l_output_sent = 0, l_output_dropped = 0, l_gap_window = 0, l_gap_count = 0, l_gap_max_us = 0,
    l_console_live = False, l_link_quality = 0, l_link_rssi = 0, l_afh_channels = 0,
    l_radio_read = False\<rparr>"

definition MAGIC :: u32 where [consts_def]: "MAGIC = 0x46495344"
definition VERSION :: u32 where [consts_def]: "VERSION = 3"

record Shared =
  sh_magic :: u32
  sh_version :: u32
  sh_seq :: u64
  sh_monotonic_ns :: u64
  sh_reports :: u64
  sh_body :: bytes
  sh_link :: Link
  sh_event_head :: u64
  sh_events :: "Event list"

definition Shared_init :: Shared where
  "Shared_init = \<lparr>sh_magic = 0, sh_version = 0, sh_seq = 0, sh_monotonic_ns = 0, sh_reports = 0,
    sh_body = replicate BODY_LEN 0, sh_link = Link_init, sh_event_head = 0,
    sh_events = replicate EVENTS \<lparr>ev_realtime_ns = 0, ev_buttons = 0\<rparr>\<rparr>"

record Writer =
  w_s :: "Shared option"
  w_last_buttons :: u32

definition Writer_init :: Writer where
  "Writer_init = \<lparr>w_s = None, w_last_buttons = 0\<rparr>"

text \<open>\<open>mapped\<close>: whether the file could be created, sized and mapped.\<close>

definition Writer_open :: "bool \<Rightarrow> Writer \<Rightarrow> bool \<times> Writer" where
  "Writer_open mapped w =
    (if \<not> mapped then (False, w)
     else (True, w\<lparr>w_s := Some (Shared_init\<lparr>sh_magic := MAGIC, sh_version := VERSION\<rparr>)\<rparr>))"

definition publish_link :: "Link \<Rightarrow> Writer \<Rightarrow> Writer" where
  "publish_link link w =
    (case w_s w of
       None \<Rightarrow> w
     | Some s \<Rightarrow>
         let seq = sh_seq s;
             s = s\<lparr>sh_seq := seq + 1\<rparr>;
             s = s\<lparr>sh_link := link\<rparr>;
             s = s\<lparr>sh_seq := seq + 2\<rparr>
         in w\<lparr>w_s := Some s\<rparr>)"

definition publish :: "u64 \<Rightarrow> u64 \<Rightarrow> bytes \<Rightarrow> Link \<Rightarrow> Writer \<Rightarrow> Writer" where
  "publish mono_ns real_ns body link w =
    (case w_s w of
       None \<Rightarrow> w
     | Some s \<Rightarrow>
         let seq = sh_seq s;
             s = s\<lparr>sh_seq := seq + 1\<rparr>;
             s = s\<lparr>sh_body := body\<rparr>;
             s = s\<lparr>sh_monotonic_ns := mono_ns\<rparr>;
             s = s\<lparr>sh_reports := sh_reports s + 1\<rparr>;
             s = s\<lparr>sh_link := link\<rparr>;
             s = s\<lparr>sh_seq := seq + 2\<rparr>;
             buttons = pack_buttons body
         in if buttons = w_last_buttons w then w\<lparr>w_s := Some s\<rparr>
            else let w = w\<lparr>w_last_buttons := buttons\<rparr>;
                     head = sh_event_head s;
                     s = s\<lparr>sh_events := (sh_events s)[unat (head mod 256) :=
                            \<lparr>ev_realtime_ns = real_ns, ev_buttons = buttons\<rparr>]\<rparr>;
                     s = s\<lparr>sh_event_head := head + 1\<rparr>
                 in w\<lparr>w_s := Some s\<rparr>)"

record Snapshot =
  sn_monotonic_ns :: u64
  sn_reports :: u64
  sn_link :: Link
  sn_body :: bytes

definition Reader_valid :: "Shared \<Rightarrow> bool" where
  "Reader_valid s \<longleftrightarrow> sh_magic s = MAGIC \<and> sh_version s = VERSION"

definition Reader_event_head :: "Shared \<Rightarrow> u64" where
  "Reader_event_head s = (if Reader_valid s then sh_event_head s else 0)"

text \<open>
  \<^verbatim>\<open>drain\<close>: the loop over the cursor, and the number of events lost, the events handed to
  the callback, and the new cursor.
\<close>

function drain_loop :: "Event list \<Rightarrow> u64 \<Rightarrow> u64 \<Rightarrow> Event list" where
  "drain_loop events cursor head =
    (if cursor < head then events ! unat (cursor mod 256) # drain_loop events (cursor + 1) head
     else [])"
  by pat_completeness auto
termination
proof (relation "measure (\<lambda>(events, cursor, head). unat head - unat cursor)")
  fix events :: "Event list" and cursor head :: u64
  assume "cursor < head"
  then have "unat (cursor + 1) = Suc (unat cursor)" and "unat cursor < unat head"
    by (auto simp: unat_Suc_less word_less_nat_alt)
  then show "((events, cursor + 1, head), (events, cursor, head))
      \<in> measure (\<lambda>(events, cursor, head). unat head - unat cursor)" by simp
qed simp

declare drain_loop.simps [simp del]

definition Reader_drain :: "u64 \<Rightarrow> Shared \<Rightarrow> u64 \<times> Event list \<times> u64" where
  "Reader_drain cursor s =
    (let head = Reader_event_head s;
         cursor = (if head < cursor then 0 else cursor);
         lost = (if of_nat EVENTS < head - cursor then head - cursor - of_nat EVENTS else 0);
         cursor = (if of_nat EVENTS < head - cursor then head - of_nat EVENTS else cursor)
     in (lost, drain_loop (sh_events s) cursor head, max cursor head))"

section \<open>Buttons bit by bit\<close>

lemma hat_at:
  assumes "d < 8"
  shows "take_bit 4 (hat ! d) = hat ! d" and "\<not> (bit (hat ! d) 0 \<and> bit (hat ! d) 2)"
    and "\<not> (bit (hat ! d) 1 \<and> bit (hat ! d) 3)"
proof -
  from assms have "d \<in> {0, 1, 2, 3, 4, 5, 6, 7}" by auto
  then show "take_bit 4 (hat ! d) = hat ! d" "\<not> (bit (hat ! d) 0 \<and> bit (hat ! d) 2)"
    "\<not> (bit (hat ! d) 1 \<and> bit (hat ! d) 3)"
    by (auto simp: hat_def consts_def)
qed

lemma button_masks: "(0xf0 :: byte) = push_bit 4 (mask 4)" "(7 :: byte) = mask 3"
  by code_simp+

lemma bit_pack_buttons:
  "bit (pack_buttons b) n \<longleftrightarrow>
    (if n < 4 then unat (b ! 7 AND 15) < 8 \<and> bit (hat ! unat (b ! 7 AND 15)) n
     else if n < 8 then bit (b ! 7) n
     else if n < 16 then bit (b ! 8) (n - 8)
     else n < 19 \<and> bit (b ! 9) (n - 16))"
proof -
  have len: "length hat = 8" by (simp add: hat_def)
  have hat: "n < 4" if "bit (hat ! d) n" "d < 8" for d
    using that hat_at(1) [of d] by (metis bit_take_bit_iff)
  show ?thesis
    by (auto simp: pack_buttons_def Let_def bit_or_iff bit_push_bit_iff bit_unsigned_iff bit_and_iff
        len DPAD_OFF_def BUTTONS2_OFF_def BUTTONS3_OFF_def button_masks bit_mask_iff
        dest: hat bit_imp_le_length)
qed

lemma pack_buttons_set_ps:
  assumes "9 < length b"
  shows "pack_buttons (b[9 := b ! 9 OR BUTTON_PS]) = pack_buttons b OR PS"
proof (rule bit_word_eqI)
  fix n assume "n < LENGTH(32)"
  have one: "bit (BUTTON_PS :: byte) m \<longleftrightarrow> m = 0" for m
    by (simp add: BUTTON_PS_def bit_1_iff)
  have "bit ((2 :: u32) ^ 16) n \<longleftrightarrow> n = 16" by (auto simp only: bit_exp_iff possible_bit_word) simp
  moreover have "PS = 2 ^ 16" by (simp add: PS_def)
  ultimately have ps: "bit PS n \<longleftrightarrow> n = 16" by (simp only:)
  show "bit (pack_buttons (b[9 := b ! 9 OR BUTTON_PS])) n \<longleftrightarrow> bit (pack_buttons b OR PS) n"
    using assms by (auto simp: bit_pack_buttons bit_or_iff ps one)
qed

section \<open>The ring of button events\<close>

lemma unat_mod_256: "c < 2 ^ 64 \<Longrightarrow> unat (of_nat c mod 256 :: u64) = c mod 256"
  by (simp add: unat_mod unat_of_nat)

lemma drain_loop_log:
  assumes "c \<le> length log" and "length log < 2 ^ 64"
    and "\<And>i. c \<le> i \<Longrightarrow> i < length log \<Longrightarrow> events ! (i mod 256) = log ! i"
  shows "drain_loop events (of_nat c) (of_nat (length log)) = drop c log"
  using assms
proof (induction "length log - c" arbitrary: c)
  case 0
  then show ?case by (simp add: drain_loop.simps)
next
  case (Suc k)
  then have lt: "c < length log" by simp
  have "(of_nat c :: u64) < of_nat (length log)"
    using lt Suc.prems(2) by (simp add: word_less_nat_alt unat_of_nat)
  moreover have "drain_loop events (of_nat (Suc c)) (of_nat (length log)) = drop (Suc c) log"
    using Suc lt by (intro Suc.hyps(1)) auto
  ultimately show ?case
    using lt Suc.prems
    by (simp add: drain_loop.simps [of _ "of_nat c"] unat_mod_256 Cons_nth_drop_Suc [symmetric]
        add.commute)
qed

text \<open>
  What a complete log of the buttons would hold: one event for every published report whose
  buttons differ from those of the report before it.
\<close>

type_synonym publication = "u64 \<times> u64 \<times> bytes \<times> Link"

fun button_changes :: "u32 \<Rightarrow> publication list \<Rightarrow> Event list" where
  "button_changes held [] = []"
| "button_changes held ((_, real_ns, body, _) # ps) =
    (if pack_buttons body = held then button_changes held ps
     else \<lparr>ev_realtime_ns = real_ns, ev_buttons = pack_buttons body\<rparr>
       # button_changes (pack_buttons body) ps)"

definition publish_all :: "publication list \<Rightarrow> Writer \<Rightarrow> Writer" where
  "publish_all = fold (\<lambda>(mono_ns, real_ns, body, link). publish mono_ns real_ns body link)"

definition ring_ok :: "Event list \<Rightarrow> Shared \<Rightarrow> bool" where
  "ring_ok log s \<longleftrightarrow> Reader_valid s \<and> length (sh_events s) = 256 \<and>
    sh_event_head s = of_nat (length log) \<and>
    (\<forall>i < length log. length log \<le> i + 256 \<longrightarrow> sh_events s ! (i mod 256) = log ! i)"

lemma mod_256_eq:
  assumes "(i :: nat) < n" and "n < i + 256"
  shows "i mod 256 \<noteq> n mod 256"
proof
  assume "i mod 256 = n mod 256"
  then have "256 dvd n - i" using assms(1) mod_eq_dvd_iff_nat [of i n 256] by simp
  then have "256 \<le> n - i" using assms(1) by (simp add: dvd_imp_le)
  with assms show False by simp
qed

lemma ring_ok_push:
  assumes "ring_ok log s" and "length log < 2 ^ 64"
  shows "ring_ok (log @ [e]) (s\<lparr>sh_events := (sh_events s)[unat (sh_event_head s mod 256) := e],
    sh_event_head := sh_event_head s + 1\<rparr>)"
proof -
  have other: "i mod 256 \<noteq> length log mod 256" if "i < length log" "length log < i + 256" for i
    by (rule mod_256_eq [OF that])
  show ?thesis
    using assms other
    by (fastforce simp: ring_ok_def Reader_valid_def unat_mod_256 nth_append less_Suc_eq
        nth_list_update add.commute)
qed

lemma publish_ring:
  assumes "w_s w = Some s" and "ring_ok log s" and "length log < 2 ^ 64"
  shows "\<exists>s'. w_s (publish m r b l w) = Some s' \<and>
    ring_ok (log @ button_changes (w_last_buttons w) [(m, r, b, l)]) s' \<and>
    w_last_buttons (publish m r b l w) = pack_buttons b"
proof -
  let ?s = "s\<lparr>sh_body := b, sh_monotonic_ns := m, sh_reports := sh_reports s + 1, sh_link := l,
    sh_seq := sh_seq s + 2\<rparr>"
  have ok: "ring_ok log ?s" using assms(2) by (simp add: ring_ok_def Reader_valid_def)
  show ?thesis
  proof (cases "pack_buttons b = w_last_buttons w")
    case True
    then show ?thesis using assms(1) ok by (simp add: publish_def Let_def)
  next
    case False
    then show ?thesis
      using assms(1) ring_ok_push [OF ok assms(3), of "\<lparr>ev_realtime_ns = r, ev_buttons = pack_buttons b\<rparr>"]
      by (simp add: publish_def Let_def)
  qed
qed

lemma button_changes_append:
  "button_changes held (ps @ [p]) = button_changes held ps @
    button_changes (fold (\<lambda>(_, _, body, _) _. pack_buttons body) ps held) [p]"
  by (induction held ps rule: button_changes.induct) auto

lemma length_button_changes: "length (button_changes held ps) \<le> length ps"
  by (induction held ps rule: button_changes.induct) auto

lemma publish_all_ring:
  assumes "length ps < 2 ^ 64"
  shows "\<exists>s. w_s (publish_all ps (snd (Writer_open True Writer_init))) = Some s \<and>
    ring_ok (button_changes 0 ps) s \<and>
    w_last_buttons (publish_all ps (snd (Writer_open True Writer_init))) =
      fold (\<lambda>(_, _, body, _) _. pack_buttons body) ps 0"
  using assms
proof (induction ps rule: rev_induct)
  case Nil
  show ?case
    by (simp add: publish_all_def Writer_open_def Writer_init_def ring_ok_def Reader_valid_def
        Shared_init_def EVENTS_def)
next
  case (snoc p ps)
  obtain m r b l where p: "p = (m, r, b, l)" by (cases p) auto
  let ?w = "publish_all ps (snd (Writer_open True Writer_init))"
  obtain s where s: "w_s ?w = Some s" "ring_ok (button_changes 0 ps) s"
    "w_last_buttons ?w = fold (\<lambda>(_, _, body, _) _. pack_buttons body) ps 0"
    using snoc by auto
  have "length (button_changes 0 ps) < 2 ^ 64"
    using length_button_changes [of 0 ps] snoc.prems by simp
  from publish_ring [OF s(1,2) this, of m r b l] s(3) show ?case
    by (simp add: publish_all_def p button_changes_append del: button_changes.simps)
qed

section \<open>Properties of the decoding and of the ring\<close>

text \<open>
  One bit per button: The packed buttons use bits 0 to 18 only; opposite directions of
  the d-pad are never set together; bits 4 to 18 are the button bits of the report body, one
  for one, so two reports that hold different face, shoulder or system buttons pack to
  different numbers.
\<close>

theorem pack_buttons_bits:
  "(\<forall>n. bit (pack_buttons b) n \<longrightarrow> n < 19) \<and>
   \<not> (bit (pack_buttons b) 0 \<and> bit (pack_buttons b) 2) \<and>
   \<not> (bit (pack_buttons b) 1 \<and> bit (pack_buttons b) 3) \<and>
   (\<forall>n. 4 \<le> n \<and> n < 8 \<longrightarrow> bit (pack_buttons b) n = bit (b ! DPAD_OFF) n) \<and>
   (\<forall>n < 8. bit (pack_buttons b) (8 + n) = bit (b ! BUTTONS2_OFF) n) \<and>
   (\<forall>n < 3. bit (pack_buttons b) (16 + n) = bit (b ! BUTTONS3_OFF) n)"
  using hat_at [of "unat (b ! 7 AND 15)"]
  by (auto simp: bit_pack_buttons DPAD_OFF_def BUTTONS2_OFF_def BUTTONS3_OFF_def)

theorem pack_buttons_bits_witness:
  "bit (pack_buttons ([0, 0, 0, 0, 0, 0, 0, 0x28, 0, 1] @ replicate 53 0)) 16 \<and>
   bit (pack_buttons ([0, 0, 0, 0, 0, 0, 0, 0x28, 0, 1] @ replicate 53 0)) 5"
  using pack_buttons_bits [of "[0, 0, 0, 0, 0, 0, 0, 0x28, 0, 1] @ replicate 53 0"]
  by (auto simp: DPAD_OFF_def BUTTONS3_OFF_def bit_numeral_rec dest!: spec [of _ 5] spec [of _ 0])

lemma tl_usb_report:
  assumes "make_usb_report payload = Some usb"
  shows "tl usb = (subspan BT_BODY_OFF BODY_LEN payload)
    [52 := usb_status (subspan BT_BODY_OFF BODY_LEN payload ! 52)]"
proof (rule nth_equalityI)
  have len: "length usb = 64" and lp: "66 \<le> length payload"
    using make_usb_report_length [OF assms] assms
    by (auto simp: make_usb_report_def transform_consts split: if_splits)
  then show "length (tl usb) = length ((subspan BT_BODY_OFF BODY_LEN payload)
      [52 := usb_status (subspan BT_BODY_OFF BODY_LEN payload ! 52)])"
    by (simp add: BT_BODY_OFF_eq BODY_LEN_def)
  fix i assume "i < length (tl usb)"
  then have i: "i < 63" using len by simp
  have "tl usb ! i = usb ! (1 + i)" using i len by (simp add: nth_tl)
  with make_usb_report_nth [OF assms i] i lp show "tl usb ! i = (subspan BT_BODY_OFF BODY_LEN payload)
      [52 := usb_status (subspan BT_BODY_OFF BODY_LEN payload ! 52)] ! i"
    by (simp add: nth_list_update nth_subspan BT_BODY_OFF_eq BODY_LEN_def STATUS_OFF_def)
qed

lemma tl_set_ps:
  "length usb = 64 \<Longrightarrow> tl (set_ps_on_usb_report usb) = (tl usb)[9 := tl usb ! 9 OR BUTTON_PS]"
  by (cases usb) (simp_all add: set_ps_on_usb_report_def transform_consts Let_def)

lemma subspan_update_outside:
  "k < off \<or> off + n \<le> k \<Longrightarrow> subspan off n (xs[k := v]) = subspan off n xs"
  by (auto simp: subspan_def drop_update_cancel drop_update_swap take_update_cancel)

lemma decode_update_battery:
  "52 < length b \<Longrightarrow> decode (b[52 := v]) = (decode b)\<lparr>ps_battery := v\<rparr>"
  by (simp add: decode_def pack_buttons_def subspan_update_outside consts_def)

lemma decode_set_ps:
  "9 < length b \<Longrightarrow>
    decode (b[9 := b ! 9 OR BUTTON_PS]) = (decode b)\<lparr>ps_buttons := ps_buttons (decode b) OR PS\<rparr>"
  by (simp add: decode_def pack_buttons_set_ps subspan_update_outside TOUCH_OFF_def BATTERY_OFF_def)

text \<open>
  The console over USB sees the controller the pad is: The report built for the gadget
  decodes to exactly the controller state of the Bluetooth report it was built from, buttons,
  sticks, triggers and touch points alike; only the battery byte is the wired one, with the
  same capacity. Pressing PS in it adds that one button and nothing else.
\<close>

theorem usb_report_same_state:
  assumes "make_usb_report payload = Some usb"
  shows "let bt = decode (subspan BT_BODY_OFF BODY_LEN payload); wired = decode (tl usb)
    in wired = bt\<lparr>ps_battery := usb_status (ps_battery bt)\<rparr> \<and>
       ps_battery wired AND 0x0f = ps_battery bt AND 0x0f \<and>
       decode (tl (set_ps_on_usb_report usb)) = wired\<lparr>ps_buttons := ps_buttons wired OR PS\<rparr>"
proof -
  have len: "length usb = 64" by (rule make_usb_report_length [OF assms])
  have "52 < length (subspan BT_BODY_OFF BODY_LEN payload)"
    using assms by (auto simp: make_usb_report_def transform_consts BODY_LEN_def split: if_splits)
  then have "decode (tl usb) = (decode (subspan BT_BODY_OFF BODY_LEN payload))
      \<lparr>ps_battery := usb_status (ps_battery (decode (subspan BT_BODY_OFF BODY_LEN payload)))\<rparr>"
    by (simp add: tl_usb_report [OF assms] decode_update_battery) (simp add: decode_def BATTERY_OFF_def)
  moreover have "9 < length (tl usb)" using len by simp
  ultimately show ?thesis
    by (simp add: Let_def usb_status_capacity tl_set_ps [OF len] decode_set_ps)
qed

theorem usb_report_same_state_witness:
  "\<exists>usb. make_usb_report (replicate 79 8) = Some usb \<and>
    ps_buttons (decode (tl (set_ps_on_usb_report usb))) = ps_buttons (decode (tl usb)) OR PS"
proof -
  obtain usb where "make_usb_report (replicate 79 8) = Some usb"
    by (auto simp: make_usb_report_def transform_consts Let_def)
  with usb_report_same_state [OF this] show ?thesis by (simp add: Let_def)
qed

lemma drain_ring:
  assumes "ring_ok log s" and "cursor \<le> length log" and lt: "length log < 2 ^ 64"
  shows "Reader_drain (of_nat cursor) s =
    (of_nat (length log - cursor - EVENTS), drop (max cursor (length log - EVENTS)) log, of_nat (length log))"
proof -
  note ok = assms(1)
  have u: "unat (of_nat (length log) :: u64) = length log" "unat (of_nat cursor :: u64) = cursor"
    using assms(2) lt by (simp_all add: unat_of_nat)
  have head: "Reader_event_head s = of_nat (length log)"
    using ok by (simp add: ring_ok_def Reader_event_head_def)
  have le: "(of_nat cursor :: u64) \<le> of_nat (length log)"
    using assms(2) u by (simp add: word_le_nat_alt)
  have sub: "unat (of_nat (length log) - of_nat cursor :: u64) = length log - cursor"
    using le u by (simp add: unat_sub)
  have over: "(of_nat EVENTS :: u64) < of_nat (length log) - of_nat cursor \<longleftrightarrow> 256 < length log - cursor"
    by (simp add: word_less_nat_alt sub EVENTS_def)
  have loop: "drain_loop (sh_events s) (of_nat c) (of_nat (length log)) = drop c log"
    if "c \<le> length log" "length log \<le> c + 256" for c
    using ok that lt by (intro drain_loop_log) (auto simp: ring_ok_def)
  have diff: "(of_nat (length log) - of_nat cursor - of_nat EVENTS :: u64) =
      of_nat (length log - cursor - 256)" "(of_nat (length log) - of_nat EVENTS :: u64) =
      of_nat (length log - 256)" if "256 < length log - cursor"
    using that by (simp_all add: EVENTS_def of_nat_diff)
  show ?thesis
  proof (cases "256 < length log - cursor")
    case True
    have "max (of_nat (length log - 256)) (of_nat (length log)) = (of_nat (length log) :: u64)"
      using lt by (simp only: max_def word_le_nat_alt unat_of_nat) simp
    moreover have "max cursor (length log - EVENTS) = length log - 256"
      "length log - cursor - EVENTS = length log - cursor - 256"
      using True by (simp_all add: EVENTS_def)
    ultimately show ?thesis
      using True le loop [of "length log - 256"]
      by (simp only: Reader_drain_def head Let_def not_less [symmetric] if_False over if_True
          diff [OF True])
  next
    case False
    have "max cursor (length log - EVENTS) = cursor" "length log - cursor - EVENTS = 0"
      using False assms(2) by (simp_all add: EVENTS_def)
    then show ?thesis
      using False le loop [of cursor] assms(2)
      by (simp only: Reader_drain_def head Let_def not_less [symmetric] if_False over
          max_absorb2 of_nat_0) (simp add: max_absorb2)
  qed
qed

text \<open>
  The event log is complete up to a ring's worth: After any sequence of published
  reports, a reader that was last at event \<open>cursor\<close> is handed, oldest first, exactly the
  changes of the buttons since then, or the newest 256 of them with the number of older ones
  reported as lost; its cursor ends at the head.
\<close>

theorem drain_returns_changes:
  assumes "length ps < 2 ^ 64" and "cursor \<le> length (button_changes 0 ps)"
  shows "let log = button_changes 0 ps
    in \<exists>s. w_s (publish_all ps (snd (Writer_open True Writer_init))) = Some s \<and>
      Reader_drain (of_nat cursor) s =
        (of_nat (length log - cursor - EVENTS), drop (max cursor (length log - EVENTS)) log,
         of_nat (length log))"
proof -
  have "length (button_changes 0 ps) < 2 ^ 64"
    using length_button_changes [of 0 ps] assms(1) by simp
  with publish_all_ring [OF assms(1)] drain_ring [OF _ assms(2)] show ?thesis
    by (auto simp: Let_def)
qed

theorem drain_returns_changes_witness:
  "\<exists>s. w_s (publish_all [(0, 5, replicate 63 0x10, Link_init)] (snd (Writer_open True Writer_init)))
        = Some s \<and>
    length (fst (snd (Reader_drain 0 s))) = 1"
proof -
  let ?ps = "[(0, 5, replicate 63 0x10, Link_init)]"
  have "pack_buttons (replicate 63 0x10) \<noteq> 0"
    by (simp add: pack_buttons_def Let_def consts_def hat_def)
  then have "length (button_changes 0 ?ps) = 1" by simp
  with drain_returns_changes [of ?ps 0] show ?thesis
    by (auto simp: Let_def EVENTS_def)
qed

end
