(* ===== verification/HidGadget.thy ===== *)
theory HidGadget
  imports DualSense
begin

unbundle bit_operations_syntax

text \<open>
  \<^verbatim>\<open>src/src/usb/HidGadget.h\<close>: the HID interface of the gadget as bytes. What FunctionFS is
  given (report descriptor, HID descriptor, the two framed blobs written to ep0), how a SETUP
  packet is read, and the data stage of a GET_REPORT. The numbers of the kernel's USB and
  FunctionFS headers (\<^verbatim>\<open>USB_DIR_IN\<close>, \<^verbatim>\<open>FUNCTIONFS_STRINGS_MAGIC\<close>, ...) are the
  constants of that interface, written out with their names.
\<close>

section \<open>Constants\<close>

definition USB_DIR_IN :: byte where [consts_def]: "USB_DIR_IN = 0x80"
definition USB_DIR_OUT :: byte where [consts_def]: "USB_DIR_OUT = 0"
definition USB_TYPE_STANDARD :: byte where [consts_def]: "USB_TYPE_STANDARD = 0"
definition USB_TYPE_CLASS :: byte where [consts_def]: "USB_TYPE_CLASS = 0x20"
definition USB_RECIP_INTERFACE :: byte where [consts_def]: "USB_RECIP_INTERFACE = 0x01"
definition USB_REQ_GET_DESCRIPTOR :: byte where [consts_def]: "USB_REQ_GET_DESCRIPTOR = 0x06"
definition USB_DT_INTERFACE :: byte where [consts_def]: "USB_DT_INTERFACE = 0x04"
definition USB_DT_ENDPOINT :: byte where [consts_def]: "USB_DT_ENDPOINT = 0x05"
definition USB_CLASS_HID :: byte where [consts_def]: "USB_CLASS_HID = 3"
definition USB_ENDPOINT_XFER_INT :: byte where [consts_def]: "USB_ENDPOINT_XFER_INT = 3"
definition FUNCTIONFS_STRINGS_MAGIC :: u32 where [consts_def]: "FUNCTIONFS_STRINGS_MAGIC = 2"
definition FUNCTIONFS_DESCRIPTORS_MAGIC_V2 :: u32 where
  [consts_def]: "FUNCTIONFS_DESCRIPTORS_MAGIC_V2 = 3"
definition FUNCTIONFS_HAS_FS_DESC :: u32 where [consts_def]: "FUNCTIONFS_HAS_FS_DESC = 1"
definition FUNCTIONFS_HAS_HS_DESC :: u32 where [consts_def]: "FUNCTIONFS_HAS_HS_DESC = 2"

definition REQ_GET_REPORT :: byte where [consts_def]: "REQ_GET_REPORT = 0x01"
definition REQ_GET_IDLE :: byte where [consts_def]: "REQ_GET_IDLE = 0x02"
definition REQ_GET_PROTOCOL :: byte where [consts_def]: "REQ_GET_PROTOCOL = 0x03"
definition REQ_SET_REPORT :: byte where [consts_def]: "REQ_SET_REPORT = 0x09"
definition REQ_SET_IDLE :: byte where [consts_def]: "REQ_SET_IDLE = 0x0a"
definition REQ_SET_PROTOCOL :: byte where [consts_def]: "REQ_SET_PROTOCOL = 0x0b"
definition DT_HID :: byte where [consts_def]: "DT_HID = 0x21"
definition DT_REPORT :: byte where [consts_def]: "DT_REPORT = 0x22"
definition REPORT_TYPE_OUTPUT :: byte where [consts_def]: "REPORT_TYPE_OUTPUT = 2"
definition REPORT_LENGTH :: nat where [consts_def]: "REPORT_LENGTH = 64"
definition INTERVAL_FULL_SPEED :: byte where [consts_def]: "INTERVAL_FULL_SPEED = 10"
definition INTERVAL_HIGH_SPEED :: byte where [consts_def]: "INTERVAL_HIGH_SPEED = 4"
definition DESCRIPTORS_PER_SPEED :: u32 where [consts_def]: "DESCRIPTORS_PER_SPEED = 4"

definition INTERFACE_NAME :: bytes where
  "INTERFACE_NAME = map of_char ''HID Interface''"

section \<open>Descriptors\<close>

definition REPORT_DESCRIPTOR :: bytes where
  "REPORT_DESCRIPTOR =
    [0x05, 0x01, 0x09, 0x05, 0xa1, 0x01, 0x85, 0x01, 0x09, 0x30, 0x09, 0x31, 0x09, 0x32,
     0x09, 0x35, 0x09, 0x33, 0x09, 0x34, 0x15, 0x00, 0x26, 0xff, 0x00, 0x75, 0x08, 0x95,
     0x06, 0x81, 0x02, 0x06, 0x00, 0xff, 0x09, 0x20, 0x95, 0x01, 0x81, 0x02, 0x05, 0x01,
     0x09, 0x39, 0x15, 0x00, 0x25, 0x07, 0x35, 0x00, 0x46, 0x3b, 0x01, 0x65, 0x14, 0x75,
     0x04, 0x95, 0x01, 0x81, 0x42, 0x65, 0x00, 0x05, 0x09, 0x19, 0x01, 0x29, 0x0f, 0x15,
     0x00, 0x25, 0x01, 0x75, 0x01, 0x95, 0x0f, 0x81, 0x02, 0x06, 0x00, 0xff, 0x09, 0x21,
     0x95, 0x0d, 0x81, 0x02, 0x06, 0x00, 0xff, 0x09, 0x22, 0x15, 0x00, 0x26, 0xff, 0x00,
     0x75, 0x08, 0x95, 0x34, 0x81, 0x02, 0x85, 0x02, 0x09, 0x23, 0x95, 0x2f, 0x91, 0x02,
     0x85, 0x05, 0x09, 0x33, 0x95, 0x28, 0xb1, 0x02, 0x85, 0x08, 0x09, 0x34, 0x95, 0x2f,
     0xb1, 0x02, 0x85, 0x09, 0x09, 0x24, 0x95, 0x13, 0xb1, 0x02, 0x85, 0x0a, 0x09, 0x25,
     0x95, 0x1a, 0xb1, 0x02, 0x85, 0x0b, 0x09, 0x41, 0x95, 0x29, 0xb1, 0x02, 0x85, 0x0c,
     0x09, 0x42, 0x95, 0x29, 0xb1, 0x02, 0x85, 0x20, 0x09, 0x26, 0x95, 0x3f, 0xb1, 0x02,
     0x85, 0x21, 0x09, 0x27, 0x95, 0x04, 0xb1, 0x02, 0x85, 0x22, 0x09, 0x40, 0x95, 0x3f,
     0xb1, 0x02, 0x85, 0x80, 0x09, 0x28, 0x95, 0x3f, 0xb1, 0x02, 0x85, 0x81, 0x09, 0x29,
     0x95, 0x3f, 0xb1, 0x02, 0x85, 0x82, 0x09, 0x2a, 0x95, 0x09, 0xb1, 0x02, 0x85, 0x83,
     0x09, 0x2b, 0x95, 0x3f, 0xb1, 0x02, 0x85, 0x84, 0x09, 0x2c, 0x95, 0x3f, 0xb1, 0x02,
     0x85, 0x85, 0x09, 0x2d, 0x95, 0x02, 0xb1, 0x02, 0x85, 0xa0, 0x09, 0x2e, 0x95, 0x01,
     0xb1, 0x02, 0x85, 0xe0, 0x09, 0x2f, 0x95, 0x3f, 0xb1, 0x02, 0x85, 0xf0, 0x09, 0x30,
     0x95, 0x3f, 0xb1, 0x02, 0x85, 0xf1, 0x09, 0x31, 0x95, 0x3f, 0xb1, 0x02, 0x85, 0xf2,
     0x09, 0x32, 0x95, 0x0f, 0xb1, 0x02, 0x85, 0xf4, 0x09, 0x35, 0x95, 0x3f, 0xb1, 0x02,
     0x85, 0xf5, 0x09, 0x36, 0x95, 0x03, 0xb1, 0x02, 0xc0]"

definition HID_DESCRIPTOR :: bytes where
  "HID_DESCRIPTOR =
    [9, DT_HID, 0x01, 0x01, 0x00, 1, DT_REPORT,
     of_nat (length REPORT_DESCRIPTOR mod 256), of_nat (length REPORT_DESCRIPTOR div 256)]"

definition set_le32 :: "bytes \<Rightarrow> nat \<Rightarrow> u32 \<Rightarrow> bytes" where
  "set_le32 v at x = overwrite at (put_le32 x) v"

definition put_speed :: "bytes \<Rightarrow> byte \<Rightarrow> bytes" where
  "put_speed v interval = v @
    [9, USB_DT_INTERFACE, 0, 0, 2, USB_CLASS_HID, 0, 0, 1] @
    HID_DESCRIPTOR @
    [7, USB_DT_ENDPOINT, USB_DIR_IN OR 1, USB_ENDPOINT_XFER_INT,
     of_nat REPORT_LENGTH, of_nat (REPORT_LENGTH div 256), interval] @
    [7, USB_DT_ENDPOINT, USB_DIR_OUT OR 2, USB_ENDPOINT_XFER_INT,
     of_nat REPORT_LENGTH, of_nat (REPORT_LENGTH div 256), interval]"

definition ffs_descriptors :: bytes where
  "ffs_descriptors =
    (let v = put_le32 FUNCTIONFS_DESCRIPTORS_MAGIC_V2;
         v = v @ put_le32 0;
         v = v @ put_le32 (FUNCTIONFS_HAS_FS_DESC OR FUNCTIONFS_HAS_HS_DESC);
         v = v @ put_le32 DESCRIPTORS_PER_SPEED;
         v = v @ put_le32 DESCRIPTORS_PER_SPEED;
         v = put_speed v INTERVAL_FULL_SPEED;
         v = put_speed v INTERVAL_HIGH_SPEED
     in set_le32 v 4 (of_nat (length v)))"

definition ffs_strings :: bytes where
  "ffs_strings =
    (let v = put_le32 FUNCTIONFS_STRINGS_MAGIC;
         v = v @ put_le32 0;
         v = v @ put_le32 1;
         v = v @ put_le32 1;
         v = v @ [0x09, 0x04];
         v = v @ INTERFACE_NAME;
         v = v @ [0]
     in set_le32 v 4 (of_nat (length v)))"

section \<open>Control requests\<close>

datatype Request =
    get_report
  | set_report
  | get_idle
  | set_idle
  | get_protocol
  | set_protocol
  | get_hid_descriptor
  | get_report_descriptor
  | unsupported

definition classify :: "byte \<Rightarrow> byte \<Rightarrow> u16 \<Rightarrow> Request" where
  "classify request_type request value =
    (let class_in = USB_DIR_IN OR USB_TYPE_CLASS OR USB_RECIP_INTERFACE;
         class_out = USB_DIR_OUT OR USB_TYPE_CLASS OR USB_RECIP_INTERFACE;
         std_in = USB_DIR_IN OR USB_TYPE_STANDARD OR USB_RECIP_INTERFACE
     in if request_type = class_in then
          (if request = REQ_GET_REPORT then get_report
           else if request = REQ_GET_IDLE then get_idle
           else if request = REQ_GET_PROTOCOL then get_protocol
           else unsupported)
        else if request_type = class_out then
          (if request = REQ_SET_REPORT then set_report
           else if request = REQ_SET_IDLE then set_idle
           else if request = REQ_SET_PROTOCOL then set_protocol
           else unsupported)
        else if request_type = std_in \<and> request = USB_REQ_GET_DESCRIPTOR then
          (if drop_bit 8 value = ucast DT_HID then get_hid_descriptor
           else if drop_bit 8 value = ucast DT_REPORT then get_report_descriptor
           else unsupported)
        else unsupported)"

text \<open>\<open>bytes()\<close> of the \<^verbatim>\<open>ReportAnswer\<close>: the first \<open>length\<close> bytes of its zeroed buffer.\<close>

definition get_report_answer :: "bytes \<Rightarrow> u16 \<Rightarrow> bytes" where
  "get_report_answer report w_length =
    take (min (unat w_length) REPORT_LENGTH)
      (overwrite 0 (take (min (length report) REPORT_LENGTH) report) (replicate REPORT_LENGTH 0))"

lemma get_report_answer_eq:
  "get_report_answer report w =
    take (min (unat w) 64) (take 64 report @ replicate (64 - length report) 0)"
  by (auto simp: get_report_answer_def overwrite_def REPORT_LENGTH_def min_def)

lemma length_get_report_answer: "length (get_report_answer report w) = min (unat w) 64"
  by (simp add: get_report_answer_eq)

lemma get_report_answer_head:
  assumes "report \<noteq> []" and "0 < w"
  shows "hd (get_report_answer report w) = hd report"
proof -
  have "0 < unat w" using assms(2) by (simp add: unat_gt_0 word_gt_0)
  moreover obtain b bs where "report = b # bs" using assms(1) by (cases report) auto
  ultimately show ?thesis
    by (cases "min (unat w) 64") (auto simp: get_report_answer_eq split: if_splits)
qed

text \<open>Which requests bring data from the device; the host's direction bit says the same.\<close>

definition from_device :: "Request \<Rightarrow> bool" where
  "from_device r \<longleftrightarrow>
    r \<in> {get_report, get_idle, get_protocol, get_hid_descriptor, get_report_descriptor}"

lemma classify_from_device:
  "from_device (classify t r v) \<Longrightarrow> t AND USB_DIR_IN \<noteq> 0"
  by (auto simp: classify_def from_device_def Let_def consts_def split: if_splits)

lemma classify_to_device:
  "classify t r v \<in> {set_report, set_idle, set_protocol} \<Longrightarrow> t AND USB_DIR_IN = 0"
  by (auto simp: classify_def Let_def consts_def split: if_splits)

section \<open>Reading the descriptors the way a host does\<close>

text \<open>
  A report descriptor is a sequence of short items: a prefix byte whose two low bits give
  the number of data bytes (3 for four) and whose other six the tag, then the data, little
  endian. The walk keeps the report size (in bits), the report count and the report id and
  notes for every Input, Output and Feature item which report it adds how many bits to.
\<close>

datatype report_kind = Input | Output | Feature

record hid_walk =
  w_size :: nat
  w_count :: nat
  w_id :: byte
  w_fields :: "(report_kind \<times> byte \<times> nat) list"

definition item_length :: "byte \<Rightarrow> nat" where
  "item_length p = (let n = unat (p AND 3) in if n = 3 then 4 else n)"

definition item_value :: "bytes \<Rightarrow> nat" where
  "item_value ds = foldr (\<lambda>b n. unat b + 256 * n) ds 0"

definition add_field :: "report_kind \<Rightarrow> hid_walk \<Rightarrow> hid_walk" where
  "add_field k w = w\<lparr>w_fields := w_fields w @ [(k, w_id w, w_size w * w_count w)]\<rparr>"

definition walk_item :: "byte \<Rightarrow> bytes \<Rightarrow> hid_walk \<Rightarrow> hid_walk" where
  "walk_item p ds w =
    (let tag = p AND 0xfc
     in if tag = 0x74 then w\<lparr>w_size := item_value ds\<rparr>
        else if tag = 0x94 then w\<lparr>w_count := item_value ds\<rparr>
        else if tag = 0x84 then w\<lparr>w_id := of_nat (item_value ds)\<rparr>
        else if tag = 0x80 then add_field Input w
        else if tag = 0x90 then add_field Output w
        else if tag = 0xb0 then add_field Feature w
        else w)"

fun hid_walk_items :: "bytes \<Rightarrow> hid_walk \<Rightarrow> hid_walk option" where
  "hid_walk_items [] w = Some w"
| "hid_walk_items (p # rest) w =
    (if length rest < item_length p then None
     else hid_walk_items (drop (item_length p) rest) (walk_item p (take (item_length p) rest) w))"

definition declared_fields :: "bytes \<Rightarrow> (report_kind \<times> byte \<times> nat) list option" where
  "declared_fields d =
    map_option w_fields (hid_walk_items d \<lparr>w_size = 0, w_count = 0, w_id = 0, w_fields = []\<rparr>)"

text \<open>The size of a report in bytes, its id byte included; 0 when it is not declared.\<close>

definition declared_size :: "(report_kind \<times> byte \<times> nat) list \<Rightarrow> report_kind \<Rightarrow> byte \<Rightarrow> nat" where
  "declared_size fs k report_id =
    (case [n. (k', i, n) \<leftarrow> fs, k' = k \<and> i = report_id] of
       [] \<Rightarrow> 0
     | ns \<Rightarrow> 1 + (sum_list ns + 7) div 8)"

text \<open>Configuration descriptors are chained by their first byte, the length.\<close>

function desc_chain :: "bytes \<Rightarrow> bytes list option" where
  "desc_chain d =
    (case d of
       [] \<Rightarrow> Some []
     | n # _ \<Rightarrow>
         if unat n < 2 \<or> length d < unat n then None
         else map_option ((#) (take (unat n) d)) (desc_chain (drop (unat n) d)))"
  by pat_completeness auto
termination
  by (relation "measure length") auto

declare desc_chain.simps [simp del]

section \<open>The descriptors read back\<close>

definition feature_fields :: "(report_kind \<times> byte \<times> nat) list \<Rightarrow> (byte \<times> nat) list" where
  "feature_fields fs = [(i, n). (k, i, n) \<leftarrow> fs, k = Feature]"

lemma declared_fields_REPORT_DESCRIPTOR:
  "\<exists>fs. declared_fields REPORT_DESCRIPTOR = Some fs \<and>
    map (\<lambda>(i, n). (i, 1 + (n + 7) div 8)) (feature_fields fs) = feature_report_sizes \<and>
    distinct (map fst (feature_fields fs)) \<and>
    declared_size fs Input REPORT_INPUT_USB = 64 \<and> declared_size fs Output 2 = 48"
  by (rule exI, rule conjI, code_simp, code_simp)

lemma filter_by_key:
  "distinct (map fst xs) \<Longrightarrow>
    [n. (i, n) \<leftarrow> xs, i = k] = (case map_of xs k of None \<Rightarrow> [] | Some n \<Rightarrow> [n])"
proof (induction xs)
  case (Cons x xs)
  moreover have "map_of xs k = None" if "fst x = k"
    using Cons.prems that by (simp add: map_of_eq_None_iff)
  ultimately show ?case by (cases x) (auto split: option.splits)
qed simp

lemma feature_fields_filter:
  "[n. (k', i, n) \<leftarrow> fs, k' = Feature \<and> i = k] = [n. (i, n) \<leftarrow> feature_fields fs, i = k]"
  by (induction fs) (auto simp: feature_fields_def)

lemma declared_size_Feature:
  assumes "distinct (map fst (feature_fields fs))"
  shows "declared_size fs Feature k =
    (case map_of (map (\<lambda>(i, n). (i, 1 + (n + 7) div 8)) (feature_fields fs)) k of
       None \<Rightarrow> 0 | Some n \<Rightarrow> n)"
proof -
  have "map_of (map (\<lambda>(i, n). (i, 1 + (n + 7) div 8)) xs) k =
      map_option (\<lambda>n. 1 + (n + 7) div 8) (map_of xs k)" for xs :: "(byte \<times> nat) list"
    by (induction xs) auto
  then show ?thesis
    by (simp add: declared_size_def feature_fields_filter filter_by_key [OF assms]
        split: option.splits)
qed

section \<open>Properties\<close>

text \<open>
  C36 (the size table is the descriptor's). Parsing the 289-byte report descriptor the way a
  host does succeeds, and for every one of the 256 report ids the size the relay's
  \<^verbatim>\<open>feature_report_size\<close> uses to re-frame a feature report for Bluetooth is the size the
  descriptor declares to the console, 0 for an id it does not declare; the declared input
  report is the USB report the relay builds and the declared output report is what it
  accepts.
\<close>

theorem feature_sizes_match_descriptor:
  "\<exists>fs. declared_fields REPORT_DESCRIPTOR = Some fs \<and>
    (\<forall>report_id. declared_size fs Feature report_id = feature_report_size report_id) \<and>
    declared_size fs Input REPORT_INPUT_USB = INPUT_USB_SIZE \<and>
    declared_size fs Output 2 = 1 + OUTPUT_COMMON_SIZE"
proof -
  obtain fs where fs: "declared_fields REPORT_DESCRIPTOR = Some fs"
    "map (\<lambda>(i, n). (i, 1 + (n + 7) div 8)) (feature_fields fs) = feature_report_sizes"
    "distinct (map fst (feature_fields fs))"
    "declared_size fs Input REPORT_INPUT_USB = 64" "declared_size fs Output 2 = 48"
    using declared_fields_REPORT_DESCRIPTOR by blast
  then show ?thesis
    by (intro exI [of _ fs])
      (simp add: declared_size_Feature feature_report_size_def INPUT_USB_SIZE_def
        OUTPUT_COMMON_SIZE_def split: option.splits)
qed

text \<open>
  What FunctionFS is handed is well framed: Both blobs carry their own length in the
  second word. After the five header words of the first come, for full and for high speed,
  exactly \<^verbatim>\<open>DESCRIPTORS_PER_SPEED\<close> chained descriptors (interface, HID, interrupt IN,
  interrupt OUT), and nothing after them; the HID descriptor among them announces the length
  of the report descriptor that GET_DESCRIPTOR returns; the string of the second blob is the
  interface name with its terminator.
\<close>

theorem ffs_blobs_well_framed:
  "(let d = ffs_descriptors; speed = (\<lambda>i. put_speed [] i)
    in le32 (d ! 4) (d ! 5) (d ! 6) (d ! 7) = of_nat (length d) \<and>
       drop 20 d = speed INTERVAL_FULL_SPEED @ speed INTERVAL_HIGH_SPEED \<and>
       map_option length (desc_chain (speed INTERVAL_FULL_SPEED)) = Some (unat DESCRIPTORS_PER_SPEED) \<and>
       map_option length (desc_chain (speed INTERVAL_HIGH_SPEED)) = Some (unat DESCRIPTORS_PER_SPEED)) \<and>
   unat (le16 (HID_DESCRIPTOR ! 7) (HID_DESCRIPTOR ! 8)) = length REPORT_DESCRIPTOR \<and>
   (let d = ffs_strings
    in le32 (d ! 4) (d ! 5) (d ! 6) (d ! 7) = of_nat (length d) \<and>
       drop 16 d = [0x09, 0x04] @ INTERFACE_NAME @ [0])"
  by code_simp

text \<open>
  A GET_REPORT answer is the report at the size asked for: The data stage has
  exactly \<^verbatim>\<open>wLength\<close> bytes, at most 64; byte \<open>i\<close> of it is byte \<open>i\<close> of the pad's report,
  and 0 past its end.
\<close>

theorem get_report_answer_bytes:
  "length (get_report_answer report w) = min (unat w) REPORT_LENGTH \<and>
   (\<forall>i. i < min (unat w) REPORT_LENGTH \<longrightarrow>
      get_report_answer report w ! i = (if i < length report then report ! i else 0))"
  by (auto simp: get_report_answer_eq REPORT_LENGTH_def nth_append)

theorem get_report_answer_bytes_witness:
  "length (get_report_answer [5, 7] 3) = 3 \<and> get_report_answer [5, 7] 3 ! 1 = 7 \<and>
    get_report_answer [5, 7] 3 ! 2 = 0"
  using get_report_answer_bytes [of "[5, 7]" 3] by (simp add: REPORT_LENGTH_def)

end
