(* ===== verification/USBHandler.thy ===== *)
theory USBHandler
  imports HidGadget
begin

unbundle bit_operations_syntax

text \<open>
  \<^verbatim>\<open>src/src/usb/USBHandler.h\<close> and \<^verbatim>\<open>.cpp\<close>: the gadget as the relay drives it. The record
  holds the members of the class; a descriptor is the flag that it is open, the optional
  \<^verbatim>\<open>PendingGet\<close> a pair, and the timer the instant it expires. Everything the class asks of
  the kernel is an entry of the log \<open>u_io\<close>, and the kernel's answer to the request with
  number \<open>n\<close> is a component of the record \<open>kernel\<close>, an arbitrary argument of every
  operation. The calls back into the pad (\<^verbatim>\<open>IPadBackend\<close>) are returned as a list, in the
  order they are made.
\<close>

section \<open>State\<close>

definition ESHUTDOWN :: int where [consts_def]: "ESHUTDOWN = 108"
definition ECONNRESET :: int where [consts_def]: "ECONNRESET = 104"
definition EAGAIN :: int where [consts_def]: "EAGAIN = 11"
definition ENODEV :: int where [consts_def]: "ENODEV = 19"
definition EINTR :: int where [consts_def]: "EINTR = 4"
definition GET_REPORT_TIMEOUT :: time where "GET_REPORT_TIMEOUT = ms 1000"

datatype usb_io =
    Ep0Write bytes
  | Ep0Read nat
  | AioWrite bytes
  | AioRead

datatype pad_call =
    PadSendOutput bytes
  | PadGetReport byte
  | PadFeatureSet bytes

record kernel =
  k_ep0_write :: "nat \<Rightarrow> int option"
  k_ep0_read :: "nat \<Rightarrow> int + bytes"
  k_aio_submit :: "nat \<Rightarrow> bool"

record usb =
  u_in_ok :: u64
  u_in_eagain :: u64
  u_in_shutdown :: u64
  u_in_error :: u64
  u_out_count :: u64
  u_ctrl_count :: u64
  u_input_flowing_since :: time
  u_pad :: bool
  u_gadget_created :: bool
  u_mounted :: bool
  u_ep0_open :: bool
  u_ep_in_open :: bool
  u_ep_out_open :: bool
  u_aio_open :: bool
  u_bound :: bool
  u_endpoints_enabled :: bool
  u_in_buf :: bytes
  u_out_buf :: bytes
  u_in_busy :: bool
  u_out_busy :: bool
  u_pending_get :: "(byte \<times> u16) option"
  u_get_report_timer :: "time option"
  u_answers :: "byte \<rightharpoonup> bytes"
  u_idle :: byte
  u_io :: "usb_io list"

definition USBHandler_init :: usb where
  "USBHandler_init = \<lparr>u_in_ok = 0, u_in_eagain = 0, u_in_shutdown = 0, u_in_error = 0,
    u_out_count = 0, u_ctrl_count = 0, u_input_flowing_since = time_unset, u_pad = True,
    u_gadget_created = False, u_mounted = False, u_ep0_open = False, u_ep_in_open = False,
    u_ep_out_open = False, u_aio_open = False, u_bound = False, u_endpoints_enabled = False,
    u_in_buf = replicate REPORT_LENGTH 0, u_out_buf = replicate REPORT_LENGTH 0,
    u_in_busy = False, u_out_busy = False, u_pending_get = None, u_get_report_timer = None,
    u_answers = Map.empty, u_idle = 1, u_io = []\<rparr>"

definition u_log :: "usb_io \<Rightarrow> usb \<Rightarrow> usb" where
  "u_log i u = u\<lparr>u_io := u_io u @ [i]\<rparr>"

definition transport_open :: "usb \<Rightarrow> bool" where
  "transport_open u = u_bound u"

definition endpoints_up :: "usb \<Rightarrow> bool" where
  "endpoints_up u = u_endpoints_enabled u"

section \<open>The function's life\<close>

text \<open>
  The steps of \<^verbatim>\<open>open_function\<close> and \<^verbatim>\<open>init_gadget\<close> that the kernel or libusbgx may refuse,
  each with its early return, one flag per step; configfs itself is not modelled.
\<close>

record setup_steps =
  st_usbg_init :: bool
  st_create_gadget :: bool
  st_create_function :: bool
  st_create_config :: bool
  st_add_function :: bool
  st_mount :: bool
  st_open_ep0 :: bool
  st_write_descriptors :: bool
  st_write_strings :: bool
  st_open_ep_in :: bool
  st_open_ep_out :: bool
  st_aio_open :: bool

definition open_function :: "setup_steps \<Rightarrow> usb \<Rightarrow> bool \<times> usb" where
  "open_function st u =
    (if \<not> st_mount st then (False, u)
     else let u = u\<lparr>u_mounted := True\<rparr>
     in if \<not> st_open_ep0 st then (False, u)
     else let u = u\<lparr>u_ep0_open := True\<rparr>; u = u_log (Ep0Write ffs_descriptors) u
     in if \<not> st_write_descriptors st then (False, u)
     else let u = u_log (Ep0Write ffs_strings) u
     in if \<not> st_write_strings st then (False, u)
     else let u = u\<lparr>u_ep_in_open := st_open_ep_in st, u_ep_out_open := st_open_ep_out st\<rparr>
     in if \<not> st_open_ep_in st \<or> \<not> st_open_ep_out st then (False, u)
     else if \<not> st_aio_open st then (False, u)
     else (True, u\<lparr>u_aio_open := True\<rparr>))"

definition init_gadget :: "setup_steps \<Rightarrow> usb \<Rightarrow> bool \<times> usb" where
  "init_gadget st u =
    (if \<not> st_usbg_init st \<or> \<not> st_create_gadget st then (False, u)
     else let u = u\<lparr>u_gadget_created := True\<rparr>
     in if \<not> st_create_function st \<or> \<not> st_create_config st \<or> \<not> st_add_function st then (False, u)
     else open_function st u)"

definition close_function :: "usb \<Rightarrow> usb" where
  "close_function u = u\<lparr>u_pending_get := None, u_get_report_timer := None, u_aio_open := False,
    u_in_busy := False, u_out_busy := False, u_endpoints_enabled := False, u_ep_in_open := False,
    u_ep_out_open := False, u_ep0_open := False, u_mounted := False\<rparr>"

text \<open>\<open>udc\<close>: whether a UDC was found; \<open>bind\<close>: whether writing its name succeeded.\<close>

definition enable_gadget :: "bool \<Rightarrow> bool \<Rightarrow> usb \<Rightarrow> bool \<times> usb" where
  "enable_gadget udc bind u =
    (if \<not> u_ep0_open u then (False, u)
     else if \<not> udc then (False, u)
     else if \<not> bind then (False, u)
     else (True, u\<lparr>u_bound := True\<rparr>))"

definition disable_gadget :: "usb \<Rightarrow> usb" where
  "disable_gadget u =
    (let u = u\<lparr>u_bound := False, u_endpoints_enabled := False\<rparr>
     in if u_pending_get u \<noteq> None then u\<lparr>u_pending_get := None, u_get_report_timer := None\<rparr> else u)"

definition remove_gadget :: "usb \<Rightarrow> usb" where
  "remove_gadget u = (close_function u)\<lparr>u_gadget_created := False, u_bound := False\<rparr>"

section \<open>Interrupt endpoints\<close>

definition send_input :: "kernel \<Rightarrow> bytes \<Rightarrow> usb \<Rightarrow> usb" where
  "send_input k report u =
    (if \<not> u_endpoints_enabled u then u\<lparr>u_in_shutdown := u_in_shutdown u + 1\<rparr>
     else if u_in_busy u then u\<lparr>u_in_eagain := u_in_eagain u + 1\<rparr>
     else let len = min (length report) (length (u_in_buf u));
              u = u\<lparr>u_in_buf := overwrite 0 (take len report) (u_in_buf u)\<rparr>;
              n = length (u_io u);
              u = u_log (AioWrite (take len (u_in_buf u))) u
          in if \<not> k_aio_submit k n then u\<lparr>u_in_error := u_in_error u + 1\<rparr>
             else u\<lparr>u_in_busy := True\<rparr>)"

definition on_input_done :: "time \<Rightarrow> int \<Rightarrow> usb \<Rightarrow> usb" where
  "on_input_done now result u =
    (let u = u\<lparr>u_in_busy := False\<rparr>
     in if 0 \<le> result then
          (let u = u\<lparr>u_in_ok := u_in_ok u + 1\<rparr>
           in if u_input_flowing_since u = time_unset then u\<lparr>u_input_flowing_since := now\<rparr> else u)
        else let err = - result
          in if err = ESHUTDOWN \<or> err = ECONNRESET \<or> err = EAGAIN \<or> err = ENODEV
             then u\<lparr>u_in_shutdown := u_in_shutdown u + 1\<rparr>
             else u\<lparr>u_in_error := u_in_error u + 1\<rparr>)"

definition submit_output_read :: "kernel \<Rightarrow> usb \<Rightarrow> usb" where
  "submit_output_read k u =
    (if u_out_busy u \<or> \<not> u_endpoints_enabled u \<or> \<not> u_ep_out_open u then u
     else let n = length (u_io u); u = u_log AioRead u
          in if \<not> k_aio_submit k n then u else u\<lparr>u_out_busy := True\<rparr>)"

text \<open>
  A completed read is \<open>Inr data\<close>, the kernel having put \<open>data\<close> at the front of the output
  buffer (at most the 64 bytes it was given), or \<open>Inl errno\<close>.
\<close>

definition on_output_done :: "kernel \<Rightarrow> int + bytes \<Rightarrow> usb \<Rightarrow> usb \<times> pad_call list" where
  "on_output_done k result u =
    (case result of
       Inl err \<Rightarrow> (u\<lparr>u_out_busy := False\<rparr>, [])
     | Inr data \<Rightarrow>
         let data = take REPORT_LENGTH data;
             u = u\<lparr>u_out_busy := False, u_out_buf := overwrite 0 data (u_out_buf u)\<rparr>
         in if data \<noteq> [] then
              (submit_output_read k (u\<lparr>u_out_count := u_out_count u + 1\<rparr>),
               if u_pad u then [PadSendOutput (take (length data) (u_out_buf u))] else [])
            else (submit_output_read k u, []))"

section \<open>Control endpoint\<close>

definition ep0_stall :: "byte \<Rightarrow> usb \<Rightarrow> usb" where
  "ep0_stall request_type u =
    (if request_type AND USB_DIR_IN \<noteq> 0 then u_log (Ep0Read 0) u else u_log (Ep0Write []) u)"

definition ep0_stage_failed :: "int \<Rightarrow> byte \<Rightarrow> usb \<Rightarrow> usb" where
  "ep0_stage_failed err direction u = (if err = EINTR then ep0_stall direction u else u)"

definition ep0_reply :: "kernel \<Rightarrow> bytes \<Rightarrow> usb \<Rightarrow> bool \<times> usb" where
  "ep0_reply k data u =
    (let n = length (u_io u); u = u_log (Ep0Write data) u
     in case k_ep0_write k n of
          Some err \<Rightarrow> (False, ep0_stage_failed err USB_DIR_IN u)
        | None \<Rightarrow> (True, u))"

definition ep0_ack :: "kernel \<Rightarrow> usb \<Rightarrow> usb" where
  "ep0_ack k u =
    (let n = length (u_io u); u = u_log (Ep0Read 0) u
     in case k_ep0_read k n of
          Inl err \<Rightarrow> ep0_stage_failed err USB_DIR_OUT u
        | Inr _ \<Rightarrow> u)"

definition finish_get_report :: "kernel \<Rightarrow> bytes \<Rightarrow> usb \<Rightarrow> usb" where
  "finish_get_report k report u =
    (case u_pending_get u of
       None \<Rightarrow> u
     | Some (report_id, len) \<Rightarrow>
         snd (ep0_reply k (get_report_answer report len)
           (u\<lparr>u_pending_get := None, u_get_report_timer := None\<rparr>)))"

definition begin_get_report :: "kernel \<Rightarrow> time \<Rightarrow> byte \<Rightarrow> u16 \<Rightarrow> usb \<Rightarrow> usb \<times> pad_call list" where
  "begin_get_report k now report_id len u =
    (let u = u\<lparr>u_ctrl_count := u_ctrl_count u + 1\<rparr>;
         forward = (u\<lparr>u_pending_get := Some (report_id, len),
                       u_get_report_timer := Some (now + GET_REPORT_TIMEOUT)\<rparr>,
                    if u_pad u then [PadGetReport report_id] else [])
     in if is_cacheable_feature report_id then
          (case u_answers u report_id of
             Some cached \<Rightarrow> (snd (ep0_reply k (get_report_answer cached len) u), [])
           | None \<Rightarrow> forward)
        else forward)"

definition take_set_report :: "kernel \<Rightarrow> u16 \<Rightarrow> u16 \<Rightarrow> usb \<Rightarrow> usb \<times> pad_call list" where
  "take_set_report k value len u =
    (let u = u\<lparr>u_ctrl_count := u_ctrl_count u + 1\<rparr>;
         n = length (u_io u);
         u = u_log (Ep0Read (unat len)) u
     in case k_ep0_read k n of
          Inl err \<Rightarrow> (ep0_stage_failed err USB_DIR_OUT u, [])
        | Inr got \<Rightarrow>
            let data = take (unat len) got;
                report_type = (ucast (drop_bit 8 value) :: byte);
                size = min (length data) REPORT_LENGTH
            in (u, if size = 0 \<or> \<not> u_pad u then []
                   else if report_type = REPORT_TYPE_OUTPUT then [PadSendOutput (take size data)]
                   else [PadFeatureSet (take size data)]))"

definition on_feature_report :: "kernel \<Rightarrow> bytes \<Rightarrow> usb \<Rightarrow> usb" where
  "on_feature_report k report u =
    (if length report < 1 then u
     else let report_id = hd report;
              slot = take (min (length report) REPORT_LENGTH) report;
              u = u\<lparr>u_answers := (u_answers u)(report_id \<mapsto> slot)\<rparr>
          in case u_pending_get u of
               Some (pending_id, _) \<Rightarrow>
                 if pending_id = report_id then finish_get_report k slot u else u
             | None \<Rightarrow> u)"

record setup_packet =
  bRequestType :: byte
  bRequest :: byte
  wValue :: u16
  wLength :: u16

definition handle_setup :: "kernel \<Rightarrow> time \<Rightarrow> setup_packet \<Rightarrow> usb \<Rightarrow> usb \<times> pad_call list" where
  "handle_setup k now s u =
    (case classify (bRequestType s) (bRequest s) (wValue s) of
       get_report \<Rightarrow> begin_get_report k now (ucast (wValue s AND 0xff)) (wLength s) u
     | set_report \<Rightarrow> take_set_report k (wValue s) (wLength s) u
     | get_report_descriptor \<Rightarrow> (snd (ep0_reply k REPORT_DESCRIPTOR u), [])
     | get_hid_descriptor \<Rightarrow> (snd (ep0_reply k HID_DESCRIPTOR u), [])
     | get_idle \<Rightarrow> (snd (ep0_reply k [u_idle u] u), [])
     | get_protocol \<Rightarrow> (snd (ep0_reply k [1] u), [])
     | set_idle \<Rightarrow> (ep0_ack k (u\<lparr>u_idle := ucast (drop_bit 8 (wValue s))\<rparr>), [])
     | set_protocol \<Rightarrow> (ep0_stall (bRequestType s) u, [])
     | unsupported \<Rightarrow> (ep0_stall (bRequestType s) u, []))"

definition on_endpoints_enabled :: "kernel \<Rightarrow> usb \<Rightarrow> usb" where
  "on_endpoints_enabled k u =
    (if u_endpoints_enabled u then u else submit_output_read k (u\<lparr>u_endpoints_enabled := True\<rparr>))"

definition on_endpoints_disabled :: "usb \<Rightarrow> usb" where
  "on_endpoints_disabled u =
    (if \<not> u_endpoints_enabled u then u else u\<lparr>u_endpoints_enabled := False\<rparr>)"

datatype ffs_event =
    FUNCTIONFS_BIND
  | FUNCTIONFS_UNBIND
  | FUNCTIONFS_ENABLE
  | FUNCTIONFS_DISABLE
  | FUNCTIONFS_SETUP setup_packet
  | FUNCTIONFS_SUSPEND
  | FUNCTIONFS_RESUME

definition usb_handle_event :: "kernel \<Rightarrow> time \<Rightarrow> ffs_event \<Rightarrow> usb \<Rightarrow> usb \<times> pad_call list" where
  "usb_handle_event k now event u =
    (case event of
       FUNCTIONFS_BIND \<Rightarrow> (u, [])
     | FUNCTIONFS_UNBIND \<Rightarrow> (on_endpoints_disabled u, [])
     | FUNCTIONFS_ENABLE \<Rightarrow> (on_endpoints_enabled k u, [])
     | FUNCTIONFS_DISABLE \<Rightarrow> (on_endpoints_disabled u, [])
     | FUNCTIONFS_SETUP s \<Rightarrow> handle_setup k now s u
     | FUNCTIONFS_SUSPEND \<Rightarrow> (u, [])
     | FUNCTIONFS_RESUME \<Rightarrow> (u, []))"

text \<open>
  \<^verbatim>\<open>control_events\<close>, one turn of its loop: with a GET_REPORT pending it only waits for the
  timer, and answers with the last report of that id or with zeros when the timer runs out;
  otherwise it reads up to four events and handles them in order.
\<close>

definition get_report_timed_out :: "kernel \<Rightarrow> usb \<Rightarrow> usb" where
  "get_report_timed_out k u =
    (case u_pending_get u of
       None \<Rightarrow> u
     | Some (report_id, _) \<Rightarrow>
         finish_get_report k (case u_answers u report_id of Some prev \<Rightarrow> prev | None \<Rightarrow> []) u)"

fun handle_events :: "kernel \<Rightarrow> time \<Rightarrow> ffs_event list \<Rightarrow> usb \<Rightarrow> usb \<times> pad_call list" where
  "handle_events k now [] u = (u, [])"
| "handle_events k now (e # es) u =
    (let r = usb_handle_event k now e u; r' = handle_events k now es (fst r)
     in (fst r', snd r @ snd r'))"

section \<open>The gadget at work\<close>

text \<open>
  The gadget with its environment: how many requests of each endpoint the kernel holds, how
  many input reports were ever offered to \<^verbatim>\<open>send_input\<close>, and the calls made to the pad. An
  AIO submission the kernel accepted is in flight until its completion is reaped.
\<close>

record usb_sys =
  s_usb :: usb
  s_in_flight :: nat
  s_out_flight :: nat
  s_offered :: nat
  s_pad :: "pad_call list"

definition became_busy :: "(usb \<Rightarrow> bool) \<Rightarrow> usb \<Rightarrow> usb \<Rightarrow> nat" where
  "became_busy busy u u' = (if busy u' \<and> \<not> busy u then 1 else 0)"

inductive usb_step :: "kernel \<Rightarrow> usb_sys \<Rightarrow> usb_sys \<Rightarrow> bool" for k where
  step_events:
    "u_pending_get (s_usb s) = None \<Longrightarrow> length es \<le> 4 \<Longrightarrow>
     r = handle_events k now es (s_usb s) \<Longrightarrow>
     usb_step k s (s\<lparr>s_usb := fst r, s_pad := s_pad s @ snd r,
       s_out_flight := s_out_flight s + became_busy u_out_busy (s_usb s) (fst r)\<rparr>)"
| step_timer:
    "u_get_report_timer (s_usb s) = Some t \<Longrightarrow> t \<le> now \<Longrightarrow>
     usb_step k s (s\<lparr>s_usb := get_report_timed_out k (s_usb s)\<rparr>)"
| step_input_done:
    "0 < s_in_flight s \<Longrightarrow>
     usb_step k s (s\<lparr>s_usb := on_input_done now result (s_usb s), s_in_flight := s_in_flight s - 1\<rparr>)"
| step_output_done:
    "0 < s_out_flight s \<Longrightarrow> r = on_output_done k result (s_usb s) \<Longrightarrow>
     usb_step k s (s\<lparr>s_usb := fst r, s_pad := s_pad s @ snd r,
       s_out_flight := s_out_flight s - 1 + (if u_out_busy (fst r) then 1 else 0)\<rparr>)"
| step_feature:
    "usb_step k s (s\<lparr>s_usb := on_feature_report k report (s_usb s)\<rparr>)"
| step_send:
    "usb_step k s (s\<lparr>s_usb := send_input k report (s_usb s), s_offered := s_offered s + 1,
       s_in_flight := s_in_flight s + became_busy u_in_busy (s_usb s) (send_input k report (s_usb s))\<rparr>)"
| step_disable:
    "usb_step k s (s\<lparr>s_usb := disable_gadget (s_usb s)\<rparr>)"
| step_enable:
    "usb_step k s (s\<lparr>s_usb := snd (enable_gadget udc bind (s_usb s))\<rparr>)"

inductive_cases usb_stepE: "usb_step k s s'"

definition usb_start :: "setup_steps \<Rightarrow> usb_sys" where
  "usb_start st = \<lparr>s_usb = snd (init_gadget st USBHandler_init), s_in_flight = 0, s_out_flight = 0,
    s_offered = 0, s_pad = []\<rparr>"

text \<open>
  What holds between two steps: a cached answer is stored under its own report id, is not
  empty and fits a report; the buffers keep their size; a pending GET_REPORT has its timer
  running and the timer runs for nothing else; the busy flags say exactly what the kernel
  holds; and every report offered is counted once, under its outcome or as in flight.
\<close>

definition answers_ok :: "(byte \<rightharpoonup> bytes) \<Rightarrow> bool" where
  "answers_ok m \<longleftrightarrow> (\<forall>i a. m i = Some a \<longrightarrow> a \<noteq> [] \<and> hd a = i \<and> length a \<le> REPORT_LENGTH)"

definition usb_wf :: "usb \<Rightarrow> bool" where
  "usb_wf u \<longleftrightarrow> answers_ok (u_answers u) \<and> length (u_in_buf u) = REPORT_LENGTH \<and>
    length (u_out_buf u) = REPORT_LENGTH \<and> (u_pending_get u = None \<longleftrightarrow> u_get_report_timer u = None)"

definition in_total :: "usb \<Rightarrow> u64" where
  "in_total u = u_in_ok u + u_in_eagain u + u_in_shutdown u + u_in_error u"

definition usb_sys_ok :: "usb_sys \<Rightarrow> bool" where
  "usb_sys_ok s \<longleftrightarrow> usb_wf (s_usb s) \<and>
    s_in_flight s = (if u_in_busy (s_usb s) then 1 else 0) \<and>
    s_out_flight s = (if u_out_busy (s_usb s) then 1 else 0) \<and>
    of_nat (s_offered s) = in_total (s_usb s) + of_nat (s_in_flight s)"

text \<open>
  The part of the state the control endpoint does not touch: the input side. The operations
  on ep0 differ from each other only in what they add to the log and to the request pending.
\<close>

definition same_input :: "usb \<Rightarrow> usb \<Rightarrow> bool" where
  "same_input u u' \<longleftrightarrow> u_in_busy u' = u_in_busy u \<and> u_in_buf u' = u_in_buf u \<and>
    in_total u' = in_total u"

lemmas ep0_defs = ep0_reply_def ep0_ack_def ep0_stage_failed_def ep0_stall_def u_log_def

lemma ep0_reply_simps [simp]:
  "u_answers (snd (ep0_reply k d u)) = u_answers u"
  "u_in_buf (snd (ep0_reply k d u)) = u_in_buf u"
  "u_out_buf (snd (ep0_reply k d u)) = u_out_buf u"
  "u_pending_get (snd (ep0_reply k d u)) = u_pending_get u"
  "u_get_report_timer (snd (ep0_reply k d u)) = u_get_report_timer u"
  "u_in_busy (snd (ep0_reply k d u)) = u_in_busy u"
  "u_out_busy (snd (ep0_reply k d u)) = u_out_busy u"
  "in_total (snd (ep0_reply k d u)) = in_total u"
  by (simp_all add: ep0_defs in_total_def Let_def split: option.split)

lemma ep0_ack_simps [simp]:
  "u_answers (ep0_ack k u) = u_answers u"
  "u_in_buf (ep0_ack k u) = u_in_buf u"
  "u_out_buf (ep0_ack k u) = u_out_buf u"
  "u_pending_get (ep0_ack k u) = u_pending_get u"
  "u_get_report_timer (ep0_ack k u) = u_get_report_timer u"
  "u_in_busy (ep0_ack k u) = u_in_busy u"
  "u_out_busy (ep0_ack k u) = u_out_busy u"
  "in_total (ep0_ack k u) = in_total u"
  by (simp_all add: ep0_defs in_total_def Let_def split: sum.split)

lemma ep0_stall_simps [simp]:
  "u_answers (ep0_stall t u) = u_answers u"
  "u_in_buf (ep0_stall t u) = u_in_buf u"
  "u_out_buf (ep0_stall t u) = u_out_buf u"
  "u_pending_get (ep0_stall t u) = u_pending_get u"
  "u_get_report_timer (ep0_stall t u) = u_get_report_timer u"
  "u_in_busy (ep0_stall t u) = u_in_busy u"
  "u_out_busy (ep0_stall t u) = u_out_busy u"
  "in_total (ep0_stall t u) = in_total u"
  by (simp_all add: ep0_defs in_total_def)

lemma in_total_update [simp]:
  "in_total (u\<lparr>u_pending_get := p\<rparr>) = in_total u"
  "in_total (u\<lparr>u_get_report_timer := t\<rparr>) = in_total u"
  "in_total (u\<lparr>u_answers := a\<rparr>) = in_total u"
  "in_total (u\<lparr>u_ctrl_count := c\<rparr>) = in_total u"
  "in_total (u\<lparr>u_out_count := c\<rparr>) = in_total u"
  "in_total (u\<lparr>u_out_busy := b\<rparr>) = in_total u"
  "in_total (u\<lparr>u_out_buf := bs\<rparr>) = in_total u"
  "in_total (u\<lparr>u_in_busy := b\<rparr>) = in_total u"
  "in_total (u\<lparr>u_in_buf := bs\<rparr>) = in_total u"
  "in_total (u\<lparr>u_idle := i\<rparr>) = in_total u"
  "in_total (u\<lparr>u_endpoints_enabled := b\<rparr>) = in_total u"
  "in_total (u\<lparr>u_bound := b\<rparr>) = in_total u"
  "in_total (u\<lparr>u_io := l\<rparr>) = in_total u"
  "in_total (u\<lparr>u_input_flowing_since := t0\<rparr>) = in_total u"
  by (simp_all add: in_total_def)

lemma answers_ok_update:
  "answers_ok m \<Longrightarrow> report \<noteq> [] \<Longrightarrow> answers_ok (m(hd report \<mapsto> take (min (length report) REPORT_LENGTH) report))"
  by (auto simp: answers_ok_def REPORT_LENGTH_def hd_take min_def)

lemma finish_get_report_wf:
  "usb_wf u \<Longrightarrow> usb_wf (finish_get_report k r u)"
  "same_input u (finish_get_report k r u)"
  "u_out_busy (finish_get_report k r u) = u_out_busy u"
  by (simp_all add: finish_get_report_def usb_wf_def same_input_def split: option.split prod.split)

lemma get_report_timed_out_wf:
  "usb_wf u \<Longrightarrow> usb_wf (get_report_timed_out k u)"
  "same_input u (get_report_timed_out k u)"
  "u_out_busy (get_report_timed_out k u) = u_out_busy u"
  by (simp_all add: get_report_timed_out_def finish_get_report_wf same_input_def
      split: option.split prod.split)
    (simp_all add: finish_get_report_wf(2) [unfolded same_input_def])

lemma on_feature_report_wf:
  assumes "usb_wf u"
  shows "usb_wf (on_feature_report k r u)"
proof (cases "r = []")
  case False
  let ?u = "u\<lparr>u_answers := (u_answers u)(hd r \<mapsto> take (min (length r) REPORT_LENGTH) r)\<rparr>"
  have "usb_wf ?u"
    using assms False answers_ok_update [of "u_answers u" r] by (simp add: usb_wf_def)
  then show ?thesis
    using False by (auto simp: on_feature_report_def Let_def finish_get_report_wf Suc_le_eq
        split: option.split)
qed (simp add: on_feature_report_def assms)

lemma on_feature_report_same:
  "same_input u (on_feature_report k r u)" "u_out_busy (on_feature_report k r u) = u_out_busy u"
proof -
  let ?u = "u\<lparr>u_answers := (u_answers u)(hd r \<mapsto> take (min (length r) REPORT_LENGTH) r)\<rparr>"
  have "same_input ?u (finish_get_report k s ?u)" "same_input u ?u" for s
    by (simp_all add: finish_get_report_wf) (simp add: same_input_def)
  then show "same_input u (on_feature_report k r u)"
    by (auto simp: on_feature_report_def Let_def same_input_def split: option.split)
  show "u_out_busy (on_feature_report k r u) = u_out_busy u"
    by (auto simp: on_feature_report_def Let_def finish_get_report_wf split: option.split)
qed

lemma begin_get_report_wf:
  "usb_wf u \<Longrightarrow> usb_wf (fst (begin_get_report k now i n u))"
  "same_input u (fst (begin_get_report k now i n u))"
  "u_out_busy (fst (begin_get_report k now i n u)) = u_out_busy u"
  by (simp_all add: begin_get_report_def usb_wf_def same_input_def Let_def split: option.split)

lemma take_set_report_wf:
  "usb_wf u \<Longrightarrow> usb_wf (fst (take_set_report k v n u))"
  "same_input u (fst (take_set_report k v n u))"
  "u_out_busy (fst (take_set_report k v n u)) = u_out_busy u"
  by (simp_all add: take_set_report_def usb_wf_def same_input_def Let_def ep0_stage_failed_def
      u_log_def split: sum.split)

lemma handle_setup_wf:
  "usb_wf u \<Longrightarrow> usb_wf (fst (handle_setup k now p u))"
  "same_input u (fst (handle_setup k now p u))"
  "u_out_busy (fst (handle_setup k now p u)) = u_out_busy u"
  by (simp_all add: handle_setup_def begin_get_report_wf take_set_report_wf split: Request.split)
    (simp_all add: usb_wf_def same_input_def)

lemma submit_output_read_wf:
  "usb_wf u \<Longrightarrow> usb_wf (submit_output_read k u)"
  "same_input u (submit_output_read k u)"
  "u_out_busy u \<Longrightarrow> u_out_busy (submit_output_read k u)"
  by (simp_all add: submit_output_read_def usb_wf_def same_input_def u_log_def Let_def)

lemma usb_handle_event_wf:
  "usb_wf u \<Longrightarrow> usb_wf (fst (usb_handle_event k now e u))"
  "same_input u (fst (usb_handle_event k now e u))"
  "u_out_busy u \<Longrightarrow> u_out_busy (fst (usb_handle_event k now e u))"
proof -
  have on: "usb_wf u \<Longrightarrow> usb_wf (on_endpoints_enabled k u)" "same_input u (on_endpoints_enabled k u)"
    "u_out_busy u \<Longrightarrow> u_out_busy (on_endpoints_enabled k u)"
    using submit_output_read_wf [of "u\<lparr>u_endpoints_enabled := True\<rparr>" k]
    by (auto simp: on_endpoints_enabled_def usb_wf_def same_input_def)
  have off: "usb_wf u \<Longrightarrow> usb_wf (on_endpoints_disabled u)" "same_input u (on_endpoints_disabled u)"
    "u_out_busy u \<Longrightarrow> u_out_busy (on_endpoints_disabled u)"
    by (auto simp: on_endpoints_disabled_def usb_wf_def same_input_def)
  show "usb_wf u \<Longrightarrow> usb_wf (fst (usb_handle_event k now e u))"
    "same_input u (fst (usb_handle_event k now e u))"
    "u_out_busy u \<Longrightarrow> u_out_busy (fst (usb_handle_event k now e u))"
    by (simp_all add: usb_handle_event_def on off handle_setup_wf split: ffs_event.split)
      (simp_all add: same_input_def)
qed

lemma same_input_trans: "same_input u v \<Longrightarrow> same_input v w \<Longrightarrow> same_input u w"
  by (simp add: same_input_def)

lemma handle_events_wf:
  "usb_wf u \<Longrightarrow> usb_wf (fst (handle_events k now es u))"
  "same_input u (fst (handle_events k now es u))"
  "u_out_busy u \<Longrightarrow> u_out_busy (fst (handle_events k now es u))"
proof -
  have "same_input u (fst (handle_events k now es u)) \<and>
      (usb_wf u \<longrightarrow> usb_wf (fst (handle_events k now es u))) \<and>
      (u_out_busy u \<longrightarrow> u_out_busy (fst (handle_events k now es u)))"
  proof (induction es arbitrary: u)
    case (Cons e es)
    from Cons.IH [of "fst (usb_handle_event k now e u)"] show ?case
      by (auto simp: Let_def usb_handle_event_wf
          intro: same_input_trans [OF usb_handle_event_wf(2)])
  qed (simp add: same_input_def)
  then show "usb_wf u \<Longrightarrow> usb_wf (fst (handle_events k now es u))"
    "same_input u (fst (handle_events k now es u))"
    "u_out_busy u \<Longrightarrow> u_out_busy (fst (handle_events k now es u))" by blast+
qed

lemma send_input_wf:
  "usb_wf u \<Longrightarrow> usb_wf (send_input k r u)"
  "u_out_busy (send_input k r u) = u_out_busy u"
  "u_in_busy u \<Longrightarrow> u_in_busy (send_input k r u) \<and> u_in_buf (send_input k r u) = u_in_buf u"
  "in_total (send_input k r u) + of_nat (became_busy u_in_busy u (send_input k r u)) = in_total u + 1"
  by (auto simp: send_input_def usb_wf_def u_log_def Let_def in_total_def became_busy_def)

lemma on_input_done_wf:
  "usb_wf u \<Longrightarrow> usb_wf (on_input_done now r u)"
  "u_out_busy (on_input_done now r u) = u_out_busy u"
  "\<not> u_in_busy (on_input_done now r u)"
  "in_total (on_input_done now r u) = in_total u + 1"
  by (simp_all add: on_input_done_def usb_wf_def Let_def)
    (simp_all add: in_total_def)

lemma on_output_done_wf:
  assumes "usb_wf u"
  shows "usb_wf (fst (on_output_done k r u))" and "same_input u (fst (on_output_done k r u))"
proof -
  have sub: "usb_wf (submit_output_read k v) \<and> same_input u (submit_output_read k v)"
    if "usb_wf v" "same_input u v" for v
    using that submit_output_read_wf(1,2) [of v k] same_input_trans [OF that(2)] by blast
  have "usb_wf (fst (on_output_done k r u)) \<and> same_input u (fst (on_output_done k r u))"
    using assms
    by (cases r)
      (auto simp: on_output_done_def Let_def intro!: sub, simp_all add: usb_wf_def same_input_def)
  then show "usb_wf (fst (on_output_done k r u))" "same_input u (fst (on_output_done k r u))"
    by blast+
qed

lemma disable_gadget_wf:
  "usb_wf u \<Longrightarrow> usb_wf (disable_gadget u)" "same_input u (disable_gadget u)"
  "u_out_busy (disable_gadget u) = u_out_busy u"
  by (auto simp: disable_gadget_def usb_wf_def same_input_def Let_def)

lemma enable_gadget_wf:
  "usb_wf u \<Longrightarrow> usb_wf (snd (enable_gadget d b u))" "same_input u (snd (enable_gadget d b u))"
  "u_out_busy (snd (enable_gadget d b u)) = u_out_busy u"
  by (auto simp: enable_gadget_def usb_wf_def same_input_def)

lemma usb_step_ok: "usb_step k s s' \<Longrightarrow> usb_sys_ok s \<Longrightarrow> usb_sys_ok s'"
proof (induction rule: usb_step.induct)
  case (step_events s es r now)
  with handle_events_wf [where u = "s_usb s" and k = k and now = now and es = es] show ?case
    by (auto simp: usb_sys_ok_def same_input_def became_busy_def)
next
  case (step_timer s t now)
  with get_report_timed_out_wf [where u = "s_usb s" and k = k] show ?case
    by (auto simp: usb_sys_ok_def same_input_def)
next
  case (step_input_done s now result)
  with on_input_done_wf [where u = "s_usb s" and now = now and r = result] show ?case
    by (auto simp: usb_sys_ok_def split: if_splits)
next
  case (step_output_done s r result)
  with on_output_done_wf [where u = "s_usb s" and k = k and r = result] show ?case
    by (auto simp: usb_sys_ok_def same_input_def split: if_splits)
next
  case (step_feature s report)
  with on_feature_report_wf [of "s_usb s" k report] on_feature_report_same [where u = "s_usb s" and k = k and r = report]
  show ?case by (auto simp: usb_sys_ok_def same_input_def)
next
  case (step_send s report)
  with send_input_wf [where u = "s_usb s" and k = k and r = report] show ?case
    by (auto simp: usb_sys_ok_def became_busy_def algebra_simps split: if_splits)
next
  case (step_disable s)
  with disable_gadget_wf [of "s_usb s"] show ?case
    by (auto simp: usb_sys_ok_def same_input_def)
next
  case (step_enable s udc bind)
  with enable_gadget_wf [where u = "s_usb s" and d = udc and b = bind] show ?case
    by (auto simp: usb_sys_ok_def same_input_def)
qed

lemma usb_start_ok: "usb_sys_ok (usb_start st)"
  by (auto simp: usb_sys_ok_def usb_start_def init_gadget_def open_function_def USBHandler_init_def
      usb_wf_def answers_ok_def in_total_def u_log_def Let_def)

lemma usb_reachable_ok: "(usb_step k)\<^sup>*\<^sup>* (usb_start st) s \<Longrightarrow> usb_sys_ok s"
  by (induction rule: rtranclp_induct) (auto simp: usb_start_ok intro: usb_step_ok)

section \<open>What reaches ep0\<close>

fun is_ep0 :: "usb_io \<Rightarrow> bool" where
  "is_ep0 (Ep0Write _) = True"
| "is_ep0 (Ep0Read _) = True"
| "is_ep0 _ = False"

definition ep0_ops :: "usb \<Rightarrow> usb_io list" where
  "ep0_ops u = filter is_ep0 (u_io u)"

text \<open>A stage used against the direction of the request, which is how FunctionFS is told to stall.\<close>

definition stalls :: "byte \<Rightarrow> usb_io \<Rightarrow> bool" where
  "stalls request_type i \<longleftrightarrow>
    (if request_type AND USB_DIR_IN \<noteq> 0 then \<exists>n. i = Ep0Read n else \<exists>d. i = Ep0Write d)"

lemma ep0_reply_ops:
  "ep0_ops (snd (ep0_reply k d u)) = ep0_ops u @ [Ep0Write d] \<or>
   ep0_ops (snd (ep0_reply k d u)) = ep0_ops u @ [Ep0Write d, Ep0Read 0]"
  by (auto simp: ep0_defs ep0_ops_def Let_def USB_DIR_IN_def split: option.split)

lemma ep0_ops_update [simp]:
  "ep0_ops (u\<lparr>u_pending_get := p\<rparr>) = ep0_ops u"
  "ep0_ops (u\<lparr>u_get_report_timer := t\<rparr>) = ep0_ops u"
  "ep0_ops (u\<lparr>u_answers := a\<rparr>) = ep0_ops u"
  by (simp_all add: ep0_ops_def)

lemma finish_get_report_ops:
  assumes "u_pending_get u = Some (i, n)"
  shows "u_pending_get (finish_get_report k r u) = None"
    and "u_get_report_timer (finish_get_report k r u) = None"
    and "\<exists>rest. ep0_ops (finish_get_report k r u) = ep0_ops u @ Ep0Write (get_report_answer r n) # rest \<and>
      (rest = [] \<or> rest = [Ep0Read 0])"
  using assms ep0_reply_ops [of k "get_report_answer r n"
      "u\<lparr>u_pending_get := None, u_get_report_timer := None\<rparr>"]
  by (auto simp: finish_get_report_def)

text \<open>
  A pending request after one step: still pending with ep0 untouched, cancelled with ep0
  untouched, or answered once.
\<close>

definition get_outcome :: "byte \<Rightarrow> u16 \<Rightarrow> usb \<Rightarrow> usb \<Rightarrow> bool" where
  "get_outcome i n u u' \<longleftrightarrow>
    u_pending_get u' = Some (i, n) \<and> ep0_ops u' = ep0_ops u \<or>
    u_pending_get u' = None \<and> ep0_ops u' = ep0_ops u \<and> \<not> u_endpoints_enabled u' \<or>
    u_pending_get u' = None \<and>
      (\<exists>a rest. ep0_ops u' = ep0_ops u @ Ep0Write (get_report_answer a n) # rest \<and>
        (a = [] \<or> hd a = i) \<and> (rest = [] \<or> rest = [Ep0Read 0]))"

lemma get_outcome_finish:
  assumes "u_pending_get u = Some (i, n)" and "a = [] \<or> hd a = i"
  shows "get_outcome i n u (finish_get_report k a u)"
  using finish_get_report_ops [OF assms(1), of k a] assms(2) unfolding get_outcome_def by blast

lemma get_outcome_timeout:
  assumes "u_pending_get u = Some (i, n)" and "usb_wf u"
  shows "get_outcome i n u (get_report_timed_out k u)"
  using assms get_outcome_finish [OF assms(1)]
  by (auto simp: get_report_timed_out_def usb_wf_def answers_ok_def split: option.split)

lemma get_outcome_feature:
  assumes "u_pending_get u = Some (i, n)"
  shows "get_outcome i n u (on_feature_report k r u)"
proof (cases "r = []")
  case True
  with assms show ?thesis by (simp add: on_feature_report_def get_outcome_def)
next
  case False
  let ?u = "u\<lparr>u_answers := (u_answers u)(hd r \<mapsto> take (min (length r) REPORT_LENGTH) r)\<rparr>"
  have "get_outcome (hd r) n ?u
      (finish_get_report k (take (min (length r) REPORT_LENGTH) r) ?u)" if "hd r = i"
    using assms False that
    by (intro get_outcome_finish) (simp_all add: hd_take REPORT_LENGTH_def)
  with False assms show ?thesis
    by (auto simp: on_feature_report_def Let_def get_outcome_def)
qed

lemma input_side_ops:
  "u_pending_get (send_input k r u) = u_pending_get u" "ep0_ops (send_input k r u) = ep0_ops u"
  "u_pending_get (on_input_done now x u) = u_pending_get u" "ep0_ops (on_input_done now x u) = ep0_ops u"
  "u_pending_get (fst (on_output_done k y u)) = u_pending_get u"
  "ep0_ops (fst (on_output_done k y u)) = ep0_ops u"
  "u_pending_get (snd (enable_gadget d b u)) = u_pending_get u"
  "ep0_ops (snd (enable_gadget d b u)) = ep0_ops u"
  by (simp_all add: send_input_def on_input_done_def on_output_done_def submit_output_read_def
      enable_gadget_def ep0_ops_def u_log_def Let_def split: sum.split)

lemma usb_step_get_outcome:
  assumes "usb_step k s s'" and "usb_sys_ok s" and "u_pending_get (s_usb s) = Some (i, n)"
  shows "get_outcome i n (s_usb s) (s_usb s')"
  using assms(1)
proof cases
  case (step_timer t now)
  then show ?thesis using assms by (simp add: get_outcome_timeout usb_sys_ok_def)
next
  case step_feature
  then show ?thesis using assms by (simp add: get_outcome_feature)
next
  case step_disable
  then show ?thesis
    using assms by (simp add: get_outcome_def disable_gadget_def Let_def ep0_ops_def)
qed (use assms in \<open>auto simp: get_outcome_def input_side_ops\<close>)

section \<open>Properties\<close>

definition all_steps :: setup_steps where
  "all_steps = \<lparr>st_usbg_init = True, st_create_gadget = True, st_create_function = True,
    st_create_config = True, st_add_function = True, st_mount = True, st_open_ep0 = True,
    st_write_descriptors = True, st_write_strings = True, st_open_ep_in = True,
    st_open_ep_out = True, st_aio_open = True\<rparr>"

definition willing_kernel :: kernel where
  "willing_kernel = \<lparr>k_ep0_write = \<lambda>_. None, k_ep0_read = \<lambda>_. Inr [0x0a, 7], k_aio_submit = \<lambda>_. True\<rparr>"


lemma usb_run_enable_send:
  "(usb_step willing_kernel)\<^sup>*\<^sup>* (usb_start all_steps)
    (let u = s_usb (usb_start all_steps); v = on_endpoints_enabled willing_kernel u
     in \<lparr>s_usb = send_input willing_kernel [1, 2] v, s_in_flight = 1, s_out_flight = 1,
         s_offered = 1, s_pad = []\<rparr>)"
proof -
  let ?u = "s_usb (usb_start all_steps)"
  let ?v = "on_endpoints_enabled willing_kernel ?u"
  have busy: "\<not> u_out_busy ?u" "u_out_busy ?v" "\<not> u_in_busy ?v"
    "u_in_busy (send_input willing_kernel [1, 2] ?v)" "u_pending_get ?u = None"
    by (simp_all add: usb_start_def init_gadget_def open_function_def all_steps_def
        USBHandler_init_def on_endpoints_enabled_def submit_output_read_def willing_kernel_def
        send_input_def u_log_def Let_def REPORT_LENGTH_def)
  have s: "usb_start all_steps =
      \<lparr>s_usb = ?u, s_in_flight = 0, s_out_flight = 0, s_offered = 0, s_pad = []\<rparr>"
    by (simp add: usb_start_def)
  have "usb_step willing_kernel (usb_start all_steps)
      \<lparr>s_usb = ?v, s_in_flight = 0, s_out_flight = 1, s_offered = 0, s_pad = []\<rparr>"
    using step_events [of "usb_start all_steps" "[FUNCTIONFS_ENABLE]" _ willing_kernel 0, OF _ _ refl]
      busy s by (simp add: usb_handle_event_def became_busy_def usb_start_def)
  moreover have "usb_step willing_kernel
      \<lparr>s_usb = ?v, s_in_flight = 0, s_out_flight = 1, s_offered = 0, s_pad = []\<rparr>
      \<lparr>s_usb = send_input willing_kernel [1, 2] ?v, s_in_flight = 1, s_out_flight = 1, s_offered = 1,
        s_pad = []\<rparr>"
    using step_send [of willing_kernel
        "\<lparr>s_usb = ?v, s_in_flight = 0, s_out_flight = 1, s_offered = 0, s_pad = []\<rparr>" "[1, 2]"]
      busy by (simp add: became_busy_def)
  ultimately show ?thesis by (simp add: Let_def)
qed


text \<open>
  C8 (a GET_REPORT waiting for the pad owns ep0). From any reachable state with a GET_REPORT
  pending, one step of the system leaves ep0 alone and the request pending, or cancels it
  with ep0 untouched because the gadget was taken off the bus, or answers it with exactly one
  data stage, followed by a stall when the host did not collect it: a report of the requested
  id (or zeros), cut or padded to the length asked for. No other request and no other read of
  ep0 gets in between.
\<close>

theorem pending_get_owns_ep0:
  assumes "(usb_step k)\<^sup>*\<^sup>* (usb_start st) s" and "usb_step k s s'"
    and "u_pending_get (s_usb s) = Some (i, n)"
  shows "u_pending_get (s_usb s') = Some (i, n) \<and> ep0_ops (s_usb s') = ep0_ops (s_usb s) \<or>
    u_pending_get (s_usb s') = None \<and> ep0_ops (s_usb s') = ep0_ops (s_usb s) \<and>
      \<not> u_endpoints_enabled (s_usb s') \<or>
    u_pending_get (s_usb s') = None \<and>
      (\<exists>a rest. ep0_ops (s_usb s') = ep0_ops (s_usb s) @ Ep0Write (get_report_answer a n) # rest \<and>
        (a = [] \<or> hd a = i) \<and> (rest = [] \<or> rest = [Ep0Read 0]))"
  using usb_step_get_outcome [OF assms(2) usb_reachable_ok [OF assms(1)] assms(3)]
  unfolding get_outcome_def .

definition ask_f1 :: setup_packet where
  "ask_f1 = \<lparr>bRequestType = 0xa1, bRequest = 1, wValue = 0x03f1, wLength = 64\<rparr>"

definition asked_sys :: usb_sys where
  "asked_sys = (usb_start all_steps)\<lparr>s_usb := fst (handle_events willing_kernel 0 [FUNCTIONFS_SETUP ask_f1]
      (s_usb (usb_start all_steps))), s_pad := [PadGetReport 0xf1]\<rparr>"

lemma classify_ask_f1: "classify (bRequestType ask_f1) (bRequest ask_f1) (wValue ask_f1) = get_report"
  by (simp add: ask_f1_def classify_def consts_def)

lemma asked_sys_pending:
  "u_pending_get (s_usb asked_sys) = Some (0xf1, 64)"
  "snd (handle_events willing_kernel 0 [FUNCTIONFS_SETUP ask_f1] (s_usb (usb_start all_steps))) =
    [PadGetReport 0xf1]"
  using classify_ask_f1
  by (simp_all add: asked_sys_def usb_handle_event_def handle_setup_def begin_get_report_def
      is_cacheable_feature_def consts_def usb_start_def init_gadget_def open_function_def
      all_steps_def USBHandler_init_def u_log_def Let_def)
    (simp_all add: ask_f1_def)

lemma asked_sys_reachable: "(usb_step willing_kernel)\<^sup>*\<^sup>* (usb_start all_steps) asked_sys"
proof -
  have quiet: "u_pending_get (s_usb (usb_start all_steps)) = None"
    "\<not> u_out_busy (fst (handle_events willing_kernel 0 [FUNCTIONFS_SETUP ask_f1] (s_usb (usb_start all_steps))))"
    using classify_ask_f1
    by (simp_all add: usb_handle_event_def handle_setup_wf usb_start_def init_gadget_def
        open_function_def all_steps_def USBHandler_init_def u_log_def Let_def)
  have "usb_step willing_kernel (usb_start all_steps) asked_sys"
    using step_events [of "usb_start all_steps" "[FUNCTIONFS_SETUP ask_f1]" _ willing_kernel 0,
        OF quiet(1) _ refl] quiet(2) asked_sys_pending(2)
    by (simp add: asked_sys_def became_busy_def usb_start_def del: handle_events.simps)
  then show ?thesis by simp
qed

theorem pending_get_owns_ep0_witness:
  "\<exists>a rest. ep0_ops (on_feature_report willing_kernel [0xf1, 9] (s_usb asked_sys)) =
     ep0_ops (s_usb asked_sys) @ Ep0Write (get_report_answer a 64) # rest \<and> (a = [] \<or> hd a = 0xf1)"
proof -
  let ?s' = "asked_sys\<lparr>s_usb := on_feature_report willing_kernel [0xf1, 9] (s_usb asked_sys)\<rparr>"
  have "u_pending_get (s_usb ?s') = None"
    "length (ep0_ops (s_usb ?s')) > length (ep0_ops (s_usb asked_sys))"
    using asked_sys_pending(1)
    by (simp_all add: on_feature_report_def finish_get_report_def ep0_reply_def willing_kernel_def
        u_log_def ep0_ops_def Let_def)
  then show ?thesis
    using pending_get_owns_ep0 [OF asked_sys_reachable step_feature asked_sys_pending(1),
        of "[0xf1, 9]"] by auto
qed

text \<open>
  A GET_REPORT is never left hanging: Whatever the pad does, a pending GET_REPORT has
  its timer running; once the timer runs out its step is possible and answers the host with
  exactly one data stage of \<^verbatim>\<open>wLength\<close> bytes (at most 64). A request is given one second.
\<close>

theorem get_report_never_hangs:
  assumes "(usb_step k)\<^sup>*\<^sup>* (usb_start st) s" and "u_pending_get (s_usb s) = Some (i, n)"
  shows "\<exists>t. u_get_report_timer (s_usb s) = Some t \<and>
    (\<forall>now s'. t \<le> now \<and> s' = s\<lparr>s_usb := get_report_timed_out k (s_usb s)\<rparr> \<longrightarrow>
      usb_step k s s' \<and> u_pending_get (s_usb s') = None \<and>
      (\<exists>a rest. ep0_ops (s_usb s') = ep0_ops (s_usb s) @ Ep0Write a # rest \<and>
        length a = min (unat n) REPORT_LENGTH))"
proof -
  have wf: "usb_wf (s_usb s)" using usb_reachable_ok [OF assms(1)] by (simp add: usb_sys_ok_def)
  then obtain t where t: "u_get_report_timer (s_usb s) = Some t"
    using assms(2) by (auto simp: usb_wf_def)
  obtain a rest where "u_pending_get (get_report_timed_out k (s_usb s)) = None"
    "ep0_ops (get_report_timed_out k (s_usb s)) =
      ep0_ops (s_usb s) @ Ep0Write (get_report_answer a n) # rest"
    using finish_get_report_ops [OF assms(2), of k] assms(2)
    by (fastforce simp: get_report_timed_out_def)
  with t show ?thesis
    by (intro exI [of _ t]) (auto intro!: step_timer simp: length_get_report_answer REPORT_LENGTH_def)
qed

theorem get_report_never_hangs_witness:
  "\<exists>t. u_get_report_timer (s_usb asked_sys) = Some t \<and>
    (\<exists>a rest. ep0_ops (get_report_timed_out willing_kernel (s_usb asked_sys)) =
       ep0_ops (s_usb asked_sys) @ Ep0Write a # rest \<and> length a = 64)"
  using get_report_never_hangs [OF asked_sys_reachable asked_sys_pending(1)]
  by (auto simp: REPORT_LENGTH_def)



text \<open>
  C11 (a buffer the kernel holds is not written). Across any step that begins and ends with
  an input report in flight, the buffer the kernel was given for it is unchanged: a newer
  report is dropped, never copied over the one being sent.
\<close>

theorem in_flight_buffer_stable:
  assumes "(usb_step k)\<^sup>*\<^sup>* (usb_start st) s" and "usb_step k s s'"
    and "0 < s_in_flight s" and "0 < s_in_flight s'"
  shows "u_in_buf (s_usb s') = u_in_buf (s_usb s)"
proof -
  have ok: "usb_sys_ok s" by (rule usb_reachable_ok [OF assms(1)])
  then have busy: "u_in_busy (s_usb s)" "u_in_busy (s_usb s')"
    using assms(3,4) usb_step_ok [OF assms(2)] by (auto simp: usb_sys_ok_def split: if_splits)
  have wf: "usb_wf (s_usb s)" using ok by (simp add: usb_sys_ok_def)
  show ?thesis
    using assms(2)
  proof cases
    case (step_input_done now result)
    with busy on_input_done_wf(3) [of now result "s_usb s"] show ?thesis by simp
  next
    case (step_send report)
    with busy send_input_wf(3) show ?thesis by simp
  next
    case (step_output_done r result)
    with on_output_done_wf(2) [OF wf] show ?thesis by (simp add: same_input_def)
  next
    case (step_events es r now)
    then show ?thesis using handle_events_wf(2) by (simp add: same_input_def)
  next
    case (step_timer t now)
    then show ?thesis using get_report_timed_out_wf(2) by (simp add: same_input_def)
  next
    case (step_feature report)
    then show ?thesis using on_feature_report_same(1) by (simp add: same_input_def)
  next
    case step_disable
    then show ?thesis using disable_gadget_wf(2) by (simp add: same_input_def)
  next
    case (step_enable udc bind)
    then show ?thesis using enable_gadget_wf(2) by (simp add: same_input_def)
  qed
qed

theorem in_flight_buffer_stable_witness:
  "let u = send_input willing_kernel [1, 2] (on_endpoints_enabled willing_kernel
             (s_usb (usb_start all_steps)))
   in u_in_buf (send_input willing_kernel [3, 4] u) = u_in_buf u"
proof -
  let ?u = "send_input willing_kernel [1, 2] (on_endpoints_enabled willing_kernel
    (s_usb (usb_start all_steps)))"
  let ?s = "\<lparr>s_usb = ?u, s_in_flight = 1, s_out_flight = 1, s_offered = 1, s_pad = []\<rparr>"
  have "(usb_step willing_kernel)\<^sup>*\<^sup>* (usb_start all_steps) ?s"
    using usb_run_enable_send by (simp add: Let_def)
  from in_flight_buffer_stable [OF this step_send [of willing_kernel ?s "[3, 4]"]]
  show ?thesis by (simp add: Let_def)
qed

end
