(* ===== verification/BtHandler.thy ===== *)
theory BtHandler
  imports PacketContents HeldFrame SendGaps HciCommandQueue AclFlowControl InputFeed USBHandler
begin

unbundle bit_operations_syntax

text \<open>
  \<^verbatim>\<open>src/src/bluetooth/BluetoothHandler.h\<close> and \<^verbatim>\<open>BluetoothHandlerInternal.h\<close>: the state of
  one \<^verbatim>\<open>BluetoothHandler\<close> and of the two of them together.

  A handler is a record of the class's members. The pointer \<^verbatim>\<open>other_\<close> aliases: each handler
  reads and writes the other one. So the state of the program is one record \<open>relay\<close> with
  both handlers, indexed by the side they face, and an operation of the class is a function
  on the relay whose argument \<open>s\<close> says which of the two objects it is called on. \<open>r_linked\<close>
  says whether the two know each other (\<^verbatim>\<open>main\<close> sets both pointers or none).

  What leaves the process is appended to \<open>r_trace\<close>: commands and ACL packets written to the
  controllers, the callbacks to \<^verbatim>\<open>main\<close>, battery lines. A write may fail; \<open>e_io_ok\<close> of the
  environment decides for the write with number \<open>r_io\<close>. Coroutines that sleep and then act
  are entries of \<open>r_tasks\<close> with the instant they are due. \<^verbatim>\<open>steady_clock::now()\<close> is \<open>r_now\<close>
  throughout one call. A pointer to a channel is the channel's name: psm, source cid and MTU
  of a channel never change, only the remote cid does.
\<close>

section \<open>Sides and channels\<close>

datatype EConnectionSide = to_dualsense | to_playstation

fun other_side :: "EConnectionSide \<Rightarrow> EConnectionSide" where
  "other_side to_dualsense = to_playstation"
| "other_side to_playstation = to_dualsense"

lemma other_side_simps [simp]:
  "other_side (other_side s) = s" "other_side s \<noteq> s" "s \<noteq> other_side s"
  by (cases s; simp)+

datatype HciChannel = hid_sdp_channel | sdp_client_channel | hid_control_channel | hid_interrupt_channel

primrec ch_psm :: "HciChannel \<Rightarrow> u16" where
  "ch_psm hid_sdp_channel = 0x01"
| "ch_psm sdp_client_channel = 0x01"
| "ch_psm hid_control_channel = 0x11"
| "ch_psm hid_interrupt_channel = 0x13"

primrec ch_scid :: "HciChannel \<Rightarrow> u16" where
  "ch_scid hid_sdp_channel = 0x7008"
| "ch_scid sdp_client_channel = 0x7009"
| "ch_scid hid_control_channel = 0x7108"
| "ch_scid hid_interrupt_channel = 0x720f"

primrec ch_mtu :: "HciChannel \<Rightarrow> u16" where
  "ch_mtu hid_sdp_channel = 185"
| "ch_mtu sdp_client_channel = 1000"
| "ch_mtu hid_control_channel = 185"
| "ch_mtu hid_interrupt_channel = 672"

section \<open>A handler\<close>

record handler =
  h_dcid :: "HciChannel \<Rightarrow> u16"
  h_gadget :: usb
  h_bt_addr :: bdaddr
  h_ps5_side_addr :: bdaddr
  h_pair_command_seen :: bool
  h_auto_ps_attempt :: int
  h_connection_handle :: u16
  h_cmd_request_ident :: byte
  h_current_cmd_ident :: byte
  h_usb_started :: bool
  h_reconnect_pending :: bool
  h_incoming_link :: bool
  h_accepted_incoming :: bool
  h_console_output_seen :: bool
  h_handover_seen :: bool
  h_console_input_seen :: bool
  h_page_failures :: int
  h_handover_paging_since :: time
  h_stale_link_reset :: bool
  h_suppress_cmd_errors :: bool
  h_console_input_count :: u64
  h_console_input_backpressure :: u64
  h_console_input_flushed :: u64
  h_console_input_opaque_dropped :: u64
  h_console_output_count :: u64
  h_console_output_dropped :: u64
  h_pad_output_seen :: bool
  h_held :: HeldFrame
  h_gaps :: SendGaps
  h_cmd_queue :: HciCommandQueue
  h_link_quality :: byte
  h_link_rssi :: byte
  h_afh_channels :: byte
  h_afh_enabled :: bool
  h_radio_read :: bool
  h_input_feed :: Writer
  h_acl :: AclFlowControl
  h_open_handles :: "u16 list"
  h_on_play_link :: bool
  h_scan_suppressed :: bool
  h_ghost_handles :: "u16 list"
  h_acl_reasm :: "u16 \<rightharpoonup> bytes \<times> nat"
  h_link_sniffing :: bool
  h_console_full_reports :: bool
  h_sdp_answer_cache :: bytes
  h_spoof_addr :: bdaddr
  h_bd_addr_confirmed :: bool
  h_link_peer_addr :: bdaddr
  h_console_addr :: bdaddr
  h_console_link_key :: bytes
  h_console_pairing_seen :: bool
  h_local_addr :: bdaddr
  h_link_key :: "bytes option"
  h_negotiated_link_key :: bytes
  h_output_seq :: byte

text \<open>
  The constructor. \<open>local\<close> is the adapter's own address as the kernel reports it, \<open>gadget\<close>
  and \<open>feed\<close> what \<^verbatim>\<open>init_gadget\<close> and the feed's \<^verbatim>\<open>open\<close> left (pad-facing side only).
\<close>

definition handler_init ::
    "EConnectionSide \<Rightarrow> time \<Rightarrow> bdaddr \<Rightarrow> bytes option \<Rightarrow> usb \<Rightarrow> Writer \<Rightarrow> handler" where
  "handler_init s now local link_key gadget feed = \<lparr>h_dcid = (\<lambda>_. 0), h_gadget = gadget,
    h_bt_addr = addr_any, h_ps5_side_addr = addr_any, h_pair_command_seen = False,
    h_auto_ps_attempt = 0, h_connection_handle = 0, h_cmd_request_ident = 1,
    h_current_cmd_ident = 0, h_usb_started = False, h_reconnect_pending = False,
    h_incoming_link = False, h_accepted_incoming = False, h_console_output_seen = False,
    h_handover_seen = False, h_console_input_seen = False, h_page_failures = 0,
    h_handover_paging_since = time_unset, h_stale_link_reset = False,
    h_suppress_cmd_errors = False, h_console_input_count = 0, h_console_input_backpressure = 0,
    h_console_input_flushed = 0, h_console_input_opaque_dropped = 0, h_console_output_count = 0,
    h_console_output_dropped = 0, h_pad_output_seen = False, h_held = HeldFrame_init,
    h_gaps = SendGaps_init, h_cmd_queue = HciCommandQueue_init, h_link_quality = 0,
    h_link_rssi = 0, h_afh_channels = 0, h_afh_enabled = False, h_radio_read = False,
    h_input_feed = feed,
    h_acl = (if s = to_dualsense then AclFlowControl_set_depth 3 (AclFlowControl_init now)
             else AclFlowControl_init now),
    h_open_handles = [], h_on_play_link = False, h_scan_suppressed = False, h_ghost_handles = [],
    h_acl_reasm = Map.empty, h_link_sniffing = False, h_console_full_reports = False,
    h_sdp_answer_cache = [], h_spoof_addr = addr_any, h_bd_addr_confirmed = False,
    h_link_peer_addr = addr_any, h_console_addr = addr_any, h_console_link_key = replicate 16 0,
    h_console_pairing_seen = False, h_local_addr = local, h_link_key = link_key,
    h_negotiated_link_key = replicate 16 0, h_output_seq = 0\<rparr>"

definition set_console_pairing :: "bdaddr \<Rightarrow> bytes \<Rightarrow> handler \<Rightarrow> handler" where
  "set_console_pairing addr key h =
    h\<lparr>h_console_addr := addr, h_console_link_key := key, h_console_pairing_seen := True\<rparr>"

definition set_spoof_addr :: "bdaddr \<Rightarrow> handler \<Rightarrow> handler" where
  "set_spoof_addr addr h = h\<lparr>h_spoof_addr := addr\<rparr>"

section \<open>The relay\<close>

datatype effect =
    HciCmd u16 u16 bytes
  | AclWrite bytes
  | LinkKeySaved bytes
  | LinkKeyRejected
  | ConsolePairing bdaddr bytes
  | BatteryLine byte

datatype task =
    TReconnect
  | TInterruptFallback u16
  | TClearSuppress
  | TStartUsbGadget
  | TStartUsbGadget2
  | THandover
  | TWatchCommands
  | TPublishStage
  | TPollRadioQuality

text \<open>The three function-local statics of \<^verbatim>\<open>log_pad_battery\<close>.\<close>

record battery_filter =
  bf_candidate :: byte
  bf_seen :: int
  bf_reported :: byte

record relay =
  r_h :: "EConnectionSide \<Rightarrow> handler"
  r_linked :: bool
  r_now :: time
  r_io :: nat
  r_tasks :: "(time \<times> EConnectionSide \<times> task) list"
  r_trace :: "(EConnectionSide \<times> effect) list"
  r_battery :: battery_filter

record env =
  e_zcrc :: zlib
  e_io_ok :: "nat \<Rightarrow> bool"
  e_kernel :: kernel
  e_time_of_day :: "time \<Rightarrow> u64"

definition other :: "relay \<Rightarrow> EConnectionSide \<Rightarrow> EConnectionSide option" where
  "other r s = (if r_linked r then Some (other_side s) else None)"

definition upd :: "EConnectionSide \<Rightarrow> (handler \<Rightarrow> handler) \<Rightarrow> relay \<Rightarrow> relay" where
  "upd s f r = r\<lparr>r_h := (r_h r)(s := f (r_h r s))\<rparr>"

definition emit :: "EConnectionSide \<Rightarrow> effect \<Rightarrow> relay \<Rightarrow> relay" where
  "emit s e r = r\<lparr>r_trace := r_trace r @ [(s, e)]\<rparr>"

text \<open>\<^verbatim>\<open>co_spawn\<close> of a coroutine that first sleeps for \<open>delay\<close>.\<close>

definition spawn :: "EConnectionSide \<Rightarrow> time \<Rightarrow> task \<Rightarrow> relay \<Rightarrow> relay" where
  "spawn s delay t r = r\<lparr>r_tasks := r_tasks r @ [(r_now r + delay, s, t)]\<rparr>"

lemma upd_simps [simp]:
  "r_h (upd s f r) = (r_h r)(s := f (r_h r s))"
  "r_linked (upd s f r) = r_linked r"
  "r_now (upd s f r) = r_now r"
  "r_io (upd s f r) = r_io r"
  "r_tasks (upd s f r) = r_tasks r"
  "r_trace (upd s f r) = r_trace r"
  "r_battery (upd s f r) = r_battery r"
  "other (upd s f r) = other r"
  by (simp_all add: upd_def other_def fun_eq_iff)

lemma emit_simps [simp]:
  "r_h (emit s e r) = r_h r"
  "r_linked (emit s e r) = r_linked r"
  "r_now (emit s e r) = r_now r"
  "r_io (emit s e r) = r_io r"
  "r_tasks (emit s e r) = r_tasks r"
  "r_trace (emit s e r) = r_trace r @ [(s, e)]"
  "r_battery (emit s e r) = r_battery r"
  "other (emit s e r) = other r"
  by (simp_all add: emit_def other_def fun_eq_iff)

lemma spawn_simps [simp]:
  "r_h (spawn s d t r) = r_h r"
  "r_linked (spawn s d t r) = r_linked r"
  "r_now (spawn s d t r) = r_now r"
  "r_io (spawn s d t r) = r_io r"
  "r_tasks (spawn s d t r) = r_tasks r @ [(r_now r + d, s, t)]"
  "r_trace (spawn s d t r) = r_trace r"
  "r_battery (spawn s d t r) = r_battery r"
  "other (spawn s d t r) = other r"
  by (simp_all add: spawn_def other_def fun_eq_iff)

section \<open>What the viewer is told\<close>

definition stage :: "EConnectionSide \<Rightarrow> relay \<Rightarrow> Stage" where
  "stage s r =
    (let h = r_h r s; peer = map_option (r_h r) (other r s)
     in if (case peer of Some c \<Rightarrow> h_dcid c hid_interrupt_channel \<noteq> 0 | None \<Rightarrow> False)
        then STAGE_RELAYING
        else if (case peer of Some c \<Rightarrow> h_connection_handle c \<noteq> 0 | None \<Rightarrow> False)
        then STAGE_CONSOLE_CONNECT
        else if h_pair_command_seen h then STAGE_CALLING
        else if h_connection_handle h = 0 then STAGE_PAD_SEARCH
        else if h_dcid h hid_interrupt_channel = 0 then STAGE_PAD_CONNECT
        else if \<not> endpoints_up (h_gadget h) then STAGE_USB_WAIT
        else if u_input_flowing_since (h_gadget h) = time_unset then STAGE_USB_READ
        else STAGE_USB_PRESS)"

definition link_snapshot :: "EConnectionSide \<Rightarrow> relay \<Rightarrow> Link" where
  "link_snapshot s r =
    (case other r s of
       None \<Rightarrow> Link_init
     | Some os \<Rightarrow>
         let c = r_h r os; st = stage s r
         in \<lparr>l_stage = st,
             l_call_attempt =
               (if st = STAGE_CALLING then word_of_int (min (h_page_failures c + 1) 255) else 0),
             l_console_sent = h_console_input_count c,
             l_output_sent = h_console_output_count c,
             l_output_dropped = h_console_output_dropped c,
             l_gap_window = sg_window (h_gaps c),
             l_gap_count = sg_done_count (h_gaps c),
             l_gap_max_us = SendGaps_max_us (h_gaps c),
             l_console_live = (h_dcid c hid_interrupt_channel \<noteq> 0),
             l_link_quality = h_link_quality c,
             l_link_rssi = h_link_rssi c,
             l_afh_channels = h_afh_channels c,
             l_radio_read = h_radio_read c\<rparr>)"

definition note_input_sent :: "EConnectionSide \<Rightarrow> relay \<Rightarrow> relay" where
  "note_input_sent s r = upd s (\<lambda>h. h\<lparr>h_console_input_count := h_console_input_count h + 1,
    h_gaps := SendGaps_on_sent (r_now r) (h_gaps h)\<rparr>) r"

section \<open>Adapter settings shared by the source files\<close>

definition SCAN_NONE :: byte where [consts_def]: "SCAN_NONE = 0x00"
definition SCAN_PAGE_ONLY :: byte where [consts_def]: "SCAN_PAGE_ONLY = 0x02"
definition PAGE_SCAN_INTERVAL_EAGER :: u16 where [consts_def]: "PAGE_SCAN_INTERVAL_EAGER = 0x0400"
definition PAGE_SCAN_WINDOW_EAGER :: u16 where [consts_def]: "PAGE_SCAN_WINDOW_EAGER = 0x0120"
definition PAGE_SCAN_INTERVAL_NORMAL :: u16 where [consts_def]: "PAGE_SCAN_INTERVAL_NORMAL = 0x0800"
definition PAGE_SCAN_WINDOW_NORMAL :: u16 where [consts_def]: "PAGE_SCAN_WINDOW_NORMAL = 0x0012"
definition PAGE_TIMEOUT_SLOTS :: u16 where [consts_def]: "PAGE_TIMEOUT_SLOTS = 0x0800"
definition HANDOVER_PAGE_TIMEOUT_SLOTS :: u16 where
  [consts_def]: "HANDOVER_PAGE_TIMEOUT_SLOTS = 0x1000"
definition HANDOVER_PAGE_WINDOW :: time where "HANDOVER_PAGE_WINDOW = seconds 30"
definition DISCONNECT_REMOTE_USER :: byte where [consts_def]: "DISCONNECT_REMOTE_USER = 0x13"

end
