(* ===== verification/HciCommands.thy ===== *)
theory HciCommands
  imports BtHandler
begin

unbundle bit_operations_syntax

text \<open>
  \<^verbatim>\<open>src/src/bluetooth/HciCommands.cpp\<close>: the HCI commands a handler sends and the adapter
  settings built out of them. A command's parameter block is the packed structure of BlueZ's
  \<^verbatim>\<open>hci.h\<close>, byte for byte; the group and command numbers are those of the HCI
  specification, under BlueZ's names.
\<close>

section \<open>Command numbers\<close>

definition OGF_LINK_CTL :: u16 where [consts_def]: "OGF_LINK_CTL = 0x01"
definition OGF_LINK_POLICY :: u16 where [consts_def]: "OGF_LINK_POLICY = 0x02"
definition OGF_HOST_CTL :: u16 where [consts_def]: "OGF_HOST_CTL = 0x03"
definition OGF_INFO_PARAM :: u16 where [consts_def]: "OGF_INFO_PARAM = 0x04"
definition OGF_STATUS_PARAM :: u16 where [consts_def]: "OGF_STATUS_PARAM = 0x05"

definition OCF_CREATE_CONN :: u16 where [consts_def]: "OCF_CREATE_CONN = 0x05"
definition OCF_DISCONNECT :: u16 where [consts_def]: "OCF_DISCONNECT = 0x06"
definition OCF_ACCEPT_CONN_REQ :: u16 where [consts_def]: "OCF_ACCEPT_CONN_REQ = 0x09"
definition OCF_REJECT_CONN_REQ :: u16 where [consts_def]: "OCF_REJECT_CONN_REQ = 0x0a"
definition OCF_LINK_KEY_REPLY :: u16 where [consts_def]: "OCF_LINK_KEY_REPLY = 0x0b"
definition OCF_LINK_KEY_NEG_REPLY :: u16 where [consts_def]: "OCF_LINK_KEY_NEG_REPLY = 0x0c"
definition OCF_AUTH_REQUESTED :: u16 where [consts_def]: "OCF_AUTH_REQUESTED = 0x11"
definition OCF_SET_CONN_ENCRYPT :: u16 where [consts_def]: "OCF_SET_CONN_ENCRYPT = 0x13"
definition OCF_IO_CAPABILITY_REPLY :: u16 where [consts_def]: "OCF_IO_CAPABILITY_REPLY = 0x2b"
definition OCF_USER_CONFIRM_REPLY :: u16 where [consts_def]: "OCF_USER_CONFIRM_REPLY = 0x2c"
definition OCF_SWITCH_ROLE :: u16 where [consts_def]: "OCF_SWITCH_ROLE = 0x0b"
definition OCF_WRITE_DEFAULT_LINK_POLICY :: u16 where
  [consts_def]: "OCF_WRITE_DEFAULT_LINK_POLICY = 0x0f"
definition OCF_SET_EVENT_MASK :: u16 where [consts_def]: "OCF_SET_EVENT_MASK = 0x01"
definition OCF_RESET :: u16 where [consts_def]: "OCF_RESET = 0x03"
definition OCF_WRITE_PAGE_TIMEOUT :: u16 where [consts_def]: "OCF_WRITE_PAGE_TIMEOUT = 0x18"
definition OCF_WRITE_SCAN_ENABLE :: u16 where [consts_def]: "OCF_WRITE_SCAN_ENABLE = 0x1a"
definition OCF_WRITE_PAGE_ACTIVITY :: u16 where [consts_def]: "OCF_WRITE_PAGE_ACTIVITY = 0x1c"
definition OCF_WRITE_AUTH_ENABLE :: u16 where [consts_def]: "OCF_WRITE_AUTH_ENABLE = 0x20"
definition OCF_WRITE_CLASS_OF_DEV :: u16 where [consts_def]: "OCF_WRITE_CLASS_OF_DEV = 0x24"
definition OCF_WRITE_EXT_INQUIRY_RESPONSE :: u16 where
  [consts_def]: "OCF_WRITE_EXT_INQUIRY_RESPONSE = 0x52"
definition OCF_WRITE_SIMPLE_PAIRING_MODE :: u16 where
  [consts_def]: "OCF_WRITE_SIMPLE_PAIRING_MODE = 0x56"
definition OCF_READ_BUFFER_SIZE :: u16 where [consts_def]: "OCF_READ_BUFFER_SIZE = 0x05"
definition OCF_READ_BD_ADDR :: u16 where [consts_def]: "OCF_READ_BD_ADDR = 0x09"
definition OCF_READ_LINK_QUALITY :: u16 where [consts_def]: "OCF_READ_LINK_QUALITY = 0x03"
definition OCF_READ_RSSI :: u16 where [consts_def]: "OCF_READ_RSSI = 0x05"
definition OCF_READ_AFH_MAP :: u16 where [consts_def]: "OCF_READ_AFH_MAP = 0x06"

definition cmd_opcode_pack :: "u16 \<Rightarrow> u16 \<Rightarrow> u16" where
  "cmd_opcode_pack ogf ocf = (ocf AND 0x03ff) OR push_bit 10 ogf"

definition ACL_PTYPE_MASK :: u16 where [consts_def]: "ACL_PTYPE_MASK = 0xcc18"
definition LINK_POLICY_ROLE_SWITCH :: u16 where [consts_def]: "LINK_POLICY_ROLE_SWITCH = 0x0001"
definition LINK_POLICY_SNIFF :: u16 where [consts_def]: "LINK_POLICY_SNIFF = 0x0004"
definition CLASS_OF_DEVICE_GAMEPAD :: u32 where [consts_def]: "CLASS_OF_DEVICE_GAMEPAD = 0x002508"
definition HCI_AUTH_ENABLE_VAL :: byte where [consts_def]: "HCI_AUTH_ENABLE_VAL = 0x01"

definition extended_inquiry0 :: bytes where
  "extended_inquiry0 =
    [0x05, 0x03, 0x24, 0x11, 0x00, 0x12, 0x1e, 0x09, 0x44, 0x75, 0x61, 0x6c, 0x53, 0x65, 0x6e, 0x73,
     0x65, 0x20, 0x57, 0x69, 0x72, 0x65, 0x6c, 0x65, 0x73, 0x73, 0x20, 0x43, 0x6f, 0x6e, 0x74, 0x72,
     0x6f, 0x6c, 0x6c, 0x65, 0x72, 0x09, 0x10, 0x02, 0x00, 0x4c, 0x05, 0xe6, 0x0c, 0x00, 0x01, 0x00]
    @ replicate 166 0x00"

section \<open>The queue and the pump\<close>

definition pump_commands :: "env \<Rightarrow> EConnectionSide \<Rightarrow> relay \<Rightarrow> relay" where
  "pump_commands E s r =
    (let p = pump_queue (e_io_ok E) (r_now r) (r_io r) (h_cmd_queue (r_h r s));
         r = upd s (\<lambda>h. h\<lparr>h_cmd_queue := fst p\<rparr>) r
     in r\<lparr>r_io := snd (snd p),
          r_trace := r_trace r @ map (\<lambda>c. (s, HciCmd (cmd_ogf c) (cmd_ocf c) (cmd_param c))) (fst (snd p))\<rparr>)"

definition send_cmd :: "env \<Rightarrow> EConnectionSide \<Rightarrow> u16 \<Rightarrow> u16 \<Rightarrow> bytes \<Rightarrow> relay \<Rightarrow> relay" where
  "send_cmd E s ogf ocf param r =
    (let c = \<lparr>cmd_ogf = ogf, cmd_ocf = ocf, cmd_param = param,
              cmd_quiet = h_suppress_cmd_errors (r_h r s)\<rparr>
     in pump_commands E s (upd s (\<lambda>h. h\<lparr>h_cmd_queue := HciCommandQueue_push c (h_cmd_queue h)\<rparr>) r))"

text \<open>One turn of \<^verbatim>\<open>watch_commands\<close> and of \<^verbatim>\<open>publish_stage\<close>, after the sleep of each.\<close>

definition watch_commands :: "env \<Rightarrow> EConnectionSide \<Rightarrow> relay \<Rightarrow> relay" where
  "watch_commands E s r =
    (if \<not> HciCommandQueue_overdue (r_now r) (h_cmd_queue (r_h r s)) then r
     else pump_commands E s (upd s (\<lambda>h. h\<lparr>h_cmd_queue := HciCommandQueue_give_up (h_cmd_queue h)\<rparr>) r))"

definition publish_stage :: "EConnectionSide \<Rightarrow> relay \<Rightarrow> relay" where
  "publish_stage s r =
    upd s (\<lambda>h. h\<lparr>h_input_feed := publish_link (link_snapshot s r) (h_input_feed h)\<rparr>) r"

section \<open>Commands\<close>

definition write_simple_pairing_enabled :: "env \<Rightarrow> EConnectionSide \<Rightarrow> relay \<Rightarrow> relay" where
  "write_simple_pairing_enabled E s = send_cmd E s OGF_HOST_CTL OCF_WRITE_SIMPLE_PAIRING_MODE [1]"

definition write_auth_enabled :: "env \<Rightarrow> EConnectionSide \<Rightarrow> relay \<Rightarrow> relay" where
  "write_auth_enabled E s = send_cmd E s OGF_HOST_CTL OCF_WRITE_AUTH_ENABLE [HCI_AUTH_ENABLE_VAL]"

definition write_event_mask :: "env \<Rightarrow> EConnectionSide \<Rightarrow> relay \<Rightarrow> relay" where
  "write_event_mask E s = send_cmd E s OGF_HOST_CTL OCF_SET_EVENT_MASK
    [0xff, 0xff, 0xff, 0xff, 0xff, 0xff, 0xbf, 0x3d]"

definition write_class_of_device :: "env \<Rightarrow> EConnectionSide \<Rightarrow> u32 \<Rightarrow> relay \<Rightarrow> relay" where
  "write_class_of_device E s dev_class =
    send_cmd E s OGF_HOST_CTL OCF_WRITE_CLASS_OF_DEV (take 3 (put_le32 dev_class))"

definition write_extended_inquiry_result :: "env \<Rightarrow> EConnectionSide \<Rightarrow> bytes \<Rightarrow> relay \<Rightarrow> relay" where
  "write_extended_inquiry_result E s data =
    send_cmd E s OGF_HOST_CTL OCF_WRITE_EXT_INQUIRY_RESPONSE
      (0 # overwrite 0 (take (min (length data) 240) data) (replicate 240 0))"

definition write_page_timeout :: "env \<Rightarrow> EConnectionSide \<Rightarrow> u16 \<Rightarrow> relay \<Rightarrow> relay" where
  "write_page_timeout E s slots = send_cmd E s OGF_HOST_CTL OCF_WRITE_PAGE_TIMEOUT (put_le16 slots)"

definition write_page_scan_activity :: "env \<Rightarrow> EConnectionSide \<Rightarrow> u16 \<Rightarrow> u16 \<Rightarrow> relay \<Rightarrow> relay" where
  "write_page_scan_activity E s interval window =
    send_cmd E s OGF_HOST_CTL OCF_WRITE_PAGE_ACTIVITY (put_le16 interval @ put_le16 window)"

definition write_default_link_policy :: "env \<Rightarrow> EConnectionSide \<Rightarrow> u16 \<Rightarrow> relay \<Rightarrow> relay" where
  "write_default_link_policy E s policy =
    send_cmd E s OGF_LINK_POLICY OCF_WRITE_DEFAULT_LINK_POLICY (put_le16 policy)"

definition write_scan_enable :: "env \<Rightarrow> EConnectionSide \<Rightarrow> byte \<Rightarrow> relay \<Rightarrow> relay" where
  "write_scan_enable E s mode = send_cmd E s OGF_HOST_CTL OCF_WRITE_SCAN_ENABLE [mode]"

definition read_bd_addr :: "env \<Rightarrow> EConnectionSide \<Rightarrow> relay \<Rightarrow> relay" where
  "read_bd_addr E s = send_cmd E s OGF_INFO_PARAM OCF_READ_BD_ADDR []"

definition read_buffer_size :: "env \<Rightarrow> EConnectionSide \<Rightarrow> relay \<Rightarrow> relay" where
  "read_buffer_size E s = send_cmd E s OGF_INFO_PARAM OCF_READ_BUFFER_SIZE []"

definition set_suppress :: "EConnectionSide \<Rightarrow> bool \<Rightarrow> relay \<Rightarrow> relay" where
  "set_suppress s b = upd s (\<lambda>h. h\<lparr>h_suppress_cmd_errors := b\<rparr>)"

definition read_radio_quality :: "env \<Rightarrow> EConnectionSide \<Rightarrow> relay \<Rightarrow> relay" where
  "read_radio_quality E s r =
    (if h_connection_handle (r_h r s) = 0 then r
     else let p = put_le16 (h_connection_handle (r_h r s));
              r = set_suppress s True r;
              r = send_cmd E s OGF_STATUS_PARAM OCF_READ_LINK_QUALITY p r;
              r = send_cmd E s OGF_STATUS_PARAM OCF_READ_RSSI p r;
              r = send_cmd E s OGF_STATUS_PARAM OCF_READ_AFH_MAP p r
          in set_suppress s False r)"

definition spoof_bd_addr :: "env \<Rightarrow> EConnectionSide \<Rightarrow> bdaddr \<Rightarrow> relay \<Rightarrow> relay" where
  "spoof_bd_addr E s new_addr r =
    (let r = set_suppress s True r;
         r = send_cmd E s 0x3f 0x01 (addr_bytes new_addr) r
     in set_suppress s False r)"

definition apply_console_side_identity :: "env \<Rightarrow> EConnectionSide \<Rightarrow> relay \<Rightarrow> relay" where
  "apply_console_side_identity E s r =
    (let r = (if addr_is_set (h_spoof_addr (r_h r s))
              then read_bd_addr E s (spoof_bd_addr E s (h_spoof_addr (r_h r s)) r) else r);
         r = write_class_of_device E s CLASS_OF_DEVICE_GAMEPAD r;
         r = write_extended_inquiry_result E s extended_inquiry0 r
     in if \<not> h_scan_suppressed (r_h r s) then write_scan_enable E s SCAN_PAGE_ONLY r else r)"

definition apply_side_settings :: "env \<Rightarrow> EConnectionSide \<Rightarrow> relay \<Rightarrow> relay" where
  "apply_side_settings E s r =
    (let r = write_default_link_policy E s (LINK_POLICY_ROLE_SWITCH OR LINK_POLICY_SNIFF) r
     in if s = to_dualsense then write_scan_enable E s SCAN_PAGE_ONLY r
        else apply_console_side_identity E s r)"

definition disconnect_cp :: "u16 \<Rightarrow> bytes" where
  "disconnect_cp handle = put_le16 handle @ [DISCONNECT_REMOTE_USER]"

definition disconnect_link :: "env \<Rightarrow> EConnectionSide \<Rightarrow> relay \<Rightarrow> relay" where
  "disconnect_link E s r =
    fold (\<lambda>handle. send_cmd E s OGF_LINK_CTL OCF_DISCONNECT (disconnect_cp handle))
      (h_open_handles (r_h r s)) r"

definition create_conn_cp :: "bdaddr \<Rightarrow> bytes" where
  "create_conn_cp addr = addr_bytes addr @ put_le16 ACL_PTYPE_MASK @ [0x01, 0] @ put_le16 0x00 @ [0x00]"

definition send_connection_request :: "env \<Rightarrow> EConnectionSide \<Rightarrow> bdaddr \<Rightarrow> relay \<Rightarrow> relay" where
  "send_connection_request E s addr r =
    (if \<not> addr_is_set addr then r
     else let r = (case other r s of
                     Some os \<Rightarrow>
                       if s = to_dualsense \<and> addr_is_set (h_spoof_addr (r_h r os)) \<and>
                          addr = h_spoof_addr (r_h r os)
                       then upd os (\<lambda>h. h\<lparr>h_scan_suppressed := True\<rparr>) (write_scan_enable E os SCAN_NONE r)
                       else r
                   | None \<Rightarrow> r)
          in send_cmd E s OGF_LINK_CTL OCF_CREATE_CONN (create_conn_cp addr) r)"

definition request_central_role :: "env \<Rightarrow> EConnectionSide \<Rightarrow> bdaddr \<Rightarrow> relay \<Rightarrow> relay" where
  "request_central_role E s addr =
    send_cmd E s OGF_LINK_POLICY OCF_SWITCH_ROLE (addr_bytes addr @ [0x00])"

definition request_authentication :: "env \<Rightarrow> EConnectionSide \<Rightarrow> u16 \<Rightarrow> relay \<Rightarrow> relay" where
  "request_authentication E s handle = send_cmd E s OGF_LINK_CTL OCF_AUTH_REQUESTED (put_le16 handle)"

definition request_encryption :: "env \<Rightarrow> EConnectionSide \<Rightarrow> u16 \<Rightarrow> relay \<Rightarrow> relay" where
  "request_encryption E s handle =
    send_cmd E s OGF_LINK_CTL OCF_SET_CONN_ENCRYPT (put_le16 handle @ [0x01])"

section \<open>Resetting the controller\<close>

text \<open>
  \<^verbatim>\<open>reset_controller\<close>: the queue is held, the reset written past it, and every packet read
  until the matching Command Complete (or for two seconds) is dropped. \<open>packets\<close> are the
  packets that arrive before the deadline, in order.
\<close>

definition is_reset_complete :: "bytes \<Rightarrow> bool" where
  "is_reset_complete p \<longleftrightarrow> 7 \<le> length p \<and> p ! 0 = 0x04 \<and> p ! 1 = 0x0e \<and>
    le16 (p ! 4) (p ! 5) = cmd_opcode_pack OGF_HOST_CTL OCF_RESET"

definition release_commands :: "env \<Rightarrow> EConnectionSide \<Rightarrow> relay \<Rightarrow> relay" where
  "release_commands E s r =
    pump_commands E s (upd s (\<lambda>h. h\<lparr>h_cmd_queue := HciCommandQueue_release (h_cmd_queue h)\<rparr>) r)"

fun await_reset :: "env \<Rightarrow> EConnectionSide \<Rightarrow> bytes list \<Rightarrow> relay \<Rightarrow> bool \<times> relay" where
  "await_reset E s [] r = (False, release_commands E s r)"
| "await_reset E s (p # packets) r =
    (if is_reset_complete p
     then (p ! 6 = 0, release_commands E s
             (upd s (\<lambda>h. h\<lparr>h_cmd_queue := HciCommandQueue_answered (p ! 3) (h_cmd_queue h)\<rparr>) r))
     else await_reset E s packets r)"

definition reset_controller :: "env \<Rightarrow> EConnectionSide \<Rightarrow> bytes list \<Rightarrow> relay \<Rightarrow> bool \<times> relay" where
  "reset_controller E s packets r =
    (let r = upd s (\<lambda>h. h\<lparr>h_cmd_queue := HciCommandQueue_hold (h_cmd_queue h)\<rparr>) r;
         n = r_io r;
         r = r\<lparr>r_io := n + 1\<rparr>
     in if \<not> e_io_ok E n then (False, release_commands E s r)
        else await_reset E s packets (emit s (HciCmd OGF_HOST_CTL OCF_RESET []) r))"

end
