(* ===== verification/L2capSend.thy ===== *)
theory L2capSend
  imports HciCommands
begin

unbundle bit_operations_syntax

text \<open>
  The sending half of \<^verbatim>\<open>src/src/bluetooth/L2cap.cpp\<close>: the one place an ACL frame is built,
  the signalling commands and the data, HID and signalling senders on top of it.
\<close>

definition HCI_EVENT_PKT :: byte where [consts_def]: "HCI_EVENT_PKT = 0x04"
definition HCI_ACLDATA_PKT :: byte where [consts_def]: "HCI_ACLDATA_PKT = 0x02"
definition HCI_ACL_HDR_SIZE :: nat where [consts_def]: "HCI_ACL_HDR_SIZE = 4"
definition L2CAP_HDR_SIZE :: nat where [consts_def]: "L2CAP_HDR_SIZE = 4"
definition L2CAP_CID_SIGNALLING :: u16 where [consts_def]: "L2CAP_CID_SIGNALLING = 0x0001"
definition ACL_START_FLUSHABLE :: u16 where [consts_def]: "ACL_START_FLUSHABLE = 0x0002"
definition WRITE_BUFFER_SIZE :: nat where [consts_def]: "WRITE_BUFFER_SIZE = 4096"

definition L2CAP_CONN_REQ :: byte where [consts_def]: "L2CAP_CONN_REQ = 0x02"
definition L2CAP_CONN_RSP :: byte where [consts_def]: "L2CAP_CONN_RSP = 0x03"
definition L2CAP_CONF_REQ :: byte where [consts_def]: "L2CAP_CONF_REQ = 0x04"
definition L2CAP_CONF_RSP :: byte where [consts_def]: "L2CAP_CONF_RSP = 0x05"
definition L2CAP_DISCONN_REQ :: byte where [consts_def]: "L2CAP_DISCONN_REQ = 0x06"
definition L2CAP_DISCONN_RSP :: byte where [consts_def]: "L2CAP_DISCONN_RSP = 0x07"
definition L2CAP_CONF_MTU :: byte where [consts_def]: "L2CAP_CONF_MTU = 0x01"
definition L2CAP_CR_SUCCESS :: u16 where [consts_def]: "L2CAP_CR_SUCCESS = 0x0000"
definition L2CAP_CR_PEND :: u16 where [consts_def]: "L2CAP_CR_PEND = 0x0001"

text \<open>The bytes of the frame in the write buffer; \<open>payload\<close> is the prefix followed by the data.\<close>

definition acl_frame :: "u16 \<Rightarrow> u16 \<Rightarrow> bytes \<Rightarrow> bytes" where
  "acl_frame handle cid payload =
    HCI_ACLDATA_PKT #
    put_le16 (acl_header_handle handle ACL_START_FLUSHABLE) @
    put_le16 (of_nat (L2CAP_HDR_SIZE + length payload)) @
    put_le16 (of_nat (length payload)) @
    put_le16 cid @
    payload"

definition l2cap_send_frame :: "env \<Rightarrow> EConnectionSide \<Rightarrow> u16 \<Rightarrow> bytes \<Rightarrow> bytes \<Rightarrow> relay \<Rightarrow> relay" where
  "l2cap_send_frame E s cid pre data r =
    (let payload_len = length pre + length data;
         total = 1 + HCI_ACL_HDR_SIZE + L2CAP_HDR_SIZE + payload_len
     in if WRITE_BUFFER_SIZE < total then r
        else let handle = h_connection_handle (r_h r s);
                 frame = acl_frame handle cid (pre @ data);
                 n = r_io r;
                 r = r\<lparr>r_io := n + 1\<rparr>
             in if \<not> e_io_ok E n then r
                else upd s (\<lambda>h. h\<lparr>h_acl := AclFlowControl_on_sent handle (h_acl h)\<rparr>)
                       (emit s (AclWrite frame) r))"

definition l2cap_send_framed ::
    "env \<Rightarrow> EConnectionSide \<Rightarrow> HciChannel \<Rightarrow> bytes \<Rightarrow> bytes \<Rightarrow> relay \<Rightarrow> relay" where
  "l2cap_send_framed E s channel pre data r =
    (if h_dcid (r_h r s) channel = 0 then r
     else l2cap_send_frame E s (h_dcid (r_h r s) channel) pre data r)"

definition l2cap_send_data :: "env \<Rightarrow> EConnectionSide \<Rightarrow> HciChannel \<Rightarrow> bytes \<Rightarrow> relay \<Rightarrow> relay" where
  "l2cap_send_data E s channel data = l2cap_send_framed E s channel [] data"

definition l2cap_send_hid ::
    "env \<Rightarrow> EConnectionSide \<Rightarrow> HciChannel \<Rightarrow> byte \<Rightarrow> bytes \<Rightarrow> relay \<Rightarrow> relay" where
  "l2cap_send_hid E s channel hidp_header data = l2cap_send_framed E s channel [hidp_header] data"

definition l2cap_send_cmd :: "env \<Rightarrow> EConnectionSide \<Rightarrow> byte \<Rightarrow> byte \<Rightarrow> bytes \<Rightarrow> relay \<Rightarrow> relay" where
  "l2cap_send_cmd E s ident code data =
    l2cap_send_frame E s L2CAP_CID_SIGNALLING ([code, ident] @ put_le16 (of_nat (length data))) data"

definition l2cap_send_cmd_request :: "env \<Rightarrow> EConnectionSide \<Rightarrow> byte \<Rightarrow> bytes \<Rightarrow> relay \<Rightarrow> relay" where
  "l2cap_send_cmd_request E s code data r =
    (let ident = h_cmd_request_ident (r_h r s)
     in l2cap_send_cmd E s ident code data (upd s (\<lambda>h. h\<lparr>h_cmd_request_ident := ident + 1\<rparr>) r))"

definition l2cap_send_cmd_response ::
    "env \<Rightarrow> EConnectionSide \<Rightarrow> byte \<Rightarrow> byte \<Rightarrow> bytes \<Rightarrow> relay \<Rightarrow> relay" where
  "l2cap_send_cmd_response E s ident code data = l2cap_send_cmd E s ident code data"

definition l2cap_send_conn_request :: "env \<Rightarrow> EConnectionSide \<Rightarrow> u16 \<Rightarrow> u16 \<Rightarrow> relay \<Rightarrow> relay" where
  "l2cap_send_conn_request E s psm scid =
    l2cap_send_cmd_request E s L2CAP_CONN_REQ (put_le16 psm @ put_le16 scid)"

definition l2cap_send_configure_mtu_request :: "env \<Rightarrow> EConnectionSide \<Rightarrow> u16 \<Rightarrow> u16 \<Rightarrow> relay \<Rightarrow> relay" where
  "l2cap_send_configure_mtu_request E s dcid mtu_size =
    l2cap_send_cmd_request E s L2CAP_CONF_REQ
      (put_le16 dcid @ put_le16 0x00 @ [L2CAP_CONF_MTU, 0x02] @ put_le16 mtu_size)"

definition open_channel :: "env \<Rightarrow> EConnectionSide \<Rightarrow> HciChannel \<Rightarrow> relay \<Rightarrow> relay" where
  "open_channel E s channel = l2cap_send_conn_request E s (ch_psm channel) (ch_scid channel)"

end
