(* ===== verification/Sdp.thy ===== *)
theory Sdp
  imports L2capSend
begin

unbundle bit_operations_syntax

text \<open>
  \<^verbatim>\<open>src/src/bluetooth/Sdp.cpp\<close>: the console's service query, forwarded to the pad, answered
  from the cached record of the pad, or answered empty. An operation that reads the request
  outside its bytes is \<open>None\<close>. SDP is big endian.
\<close>

definition SDP_ERROR_RESPONSE :: byte where [consts_def]: "SDP_ERROR_RESPONSE = 0x01"
definition SDP_SERVICE_SEARCH_REQUEST :: byte where [consts_def]: "SDP_SERVICE_SEARCH_REQUEST = 0x02"
definition SDP_SERVICE_SEARCH_RESPONSE :: byte where [consts_def]: "SDP_SERVICE_SEARCH_RESPONSE = 0x03"
definition SDP_SERVICE_ATTRIBUTE_REQUEST :: byte where
  [consts_def]: "SDP_SERVICE_ATTRIBUTE_REQUEST = 0x04"
definition SDP_SERVICE_SEARCH_ATTR_REQUEST :: byte where
  [consts_def]: "SDP_SERVICE_SEARCH_ATTR_REQUEST = 0x06"
definition SDP_INVALID_REQUEST_SYNTAX :: byte where [consts_def]: "SDP_INVALID_REQUEST_SYNTAX = 0x03"

definition handle_sdp_answer_from_pad :: "env \<Rightarrow> EConnectionSide \<Rightarrow> bytes \<Rightarrow> relay \<Rightarrow> relay" where
  "handle_sdp_answer_from_pad E s payload r =
    (case other r s of
       None \<Rightarrow> r
     | Some os \<Rightarrow>
         let r = upd os (\<lambda>h. h\<lparr>h_sdp_answer_cache := payload\<rparr>) r
         in if h_dcid (r_h r os) hid_sdp_channel \<noteq> 0
            then l2cap_send_data E os hid_sdp_channel payload r else r)"

text \<open>The response \<^verbatim>\<open>handle_sdp_request\<close> builds; \<open>None\<close> for a request it ignores.\<close>

definition sdp_response :: "bytes \<Rightarrow> bytes option" where
  "sdp_response request =
    (if length request < 5 then None
     else let pdu = request ! 0; txn_hi = request ! 1; txn_lo = request ! 2;
              empty_list = [0x00, 0x02, 0x35, 0x00, 0x00]
          in Some
            (if pdu = SDP_SERVICE_SEARCH_REQUEST
             then [SDP_SERVICE_SEARCH_RESPONSE, txn_hi, txn_lo, 0x00, 0x05, 0x00, 0x00, 0x00, 0x00, 0x00]
             else if pdu = SDP_SERVICE_ATTRIBUTE_REQUEST \<or> pdu = SDP_SERVICE_SEARCH_ATTR_REQUEST
             then [pdu + 1, txn_hi, txn_lo, 0x00, 0x05] @ empty_list
             else [SDP_ERROR_RESPONSE, txn_hi, txn_lo, 0x00, 0x02, 0x00, SDP_INVALID_REQUEST_SYNTAX]))"

definition handle_sdp_request :: "env \<Rightarrow> EConnectionSide \<Rightarrow> bytes \<Rightarrow> relay \<Rightarrow> relay" where
  "handle_sdp_request E s request r =
    (case sdp_response request of
       None \<Rightarrow> r
     | Some rsp \<Rightarrow> l2cap_send_data E s hid_sdp_channel rsp r)"

definition handle_sdp_query :: "env \<Rightarrow> EConnectionSide \<Rightarrow> bytes \<Rightarrow> relay \<Rightarrow> relay option" where
  "handle_sdp_query E s request r =
    (let open_to_pad = (case other r s of
           Some os \<Rightarrow> s = to_playstation \<and> h_dcid (r_h r os) sdp_client_channel \<noteq> 0
         | None \<Rightarrow> False)
     in if open_to_pad
        then Some (l2cap_send_data E (other_side s) sdp_client_channel request r)
        else if s = to_playstation \<and> 3 \<le> length (h_sdp_answer_cache (r_h r s)) \<and>
             request ! 0 = SDP_SERVICE_SEARCH_ATTR_REQUEST
        then (if length request < 3 then None
              else Some (l2cap_send_data E s hid_sdp_channel
                     ((h_sdp_answer_cache (r_h r s))[1 := request ! 1, 2 := request ! 2]) r))
        else Some (handle_sdp_request E s request r))"

end
