(* ===== verification/PadBackend.thy ===== *)
theory PadBackend
  imports L2capSend
begin

unbundle bit_operations_syntax

text \<open>
  \<^verbatim>\<open>src/src/usb/IPadBackend.h\<close> as \<^verbatim>\<open>BluetoothHandler\<close> implements it, the calls the USB
  gadget makes toward the pad: \<^verbatim>\<open>l2cap_get_report\<close> and \<^verbatim>\<open>l2cap_send_output_report\<close> of
  \<^verbatim>\<open>HidRelay.cpp\<close> and \<^verbatim>\<open>l2cap_send_feature_set\<close> of \<^verbatim>\<open>Handover.cpp\<close>, with the re-framing
  of a feature report.
\<close>

definition l2cap_get_report :: "env \<Rightarrow> EConnectionSide \<Rightarrow> byte \<Rightarrow> relay \<Rightarrow> relay" where
  "l2cap_get_report E s report_id =
    l2cap_send_hid E s hid_control_channel HIDP_GET_FEATURE [report_id]"

text \<open>
  The re-framed report, or \<open>None\<close> when it is too short to carry a checksum and nothing is
  sent. The source only calls it with at least one byte.
\<close>

definition bt_feature_report :: "zlib \<Rightarrow> bytes \<Rightarrow> bytes option" where
  "bt_feature_report zcrc report =
    (let size = length report;
         bt_size = feature_report_size (hd report);
         bt_size = (if bt_size = 0 then size + 4 else bt_size)
     in if bt_size < 5 then None
        else append_crc32 zcrc CRC_SEED_SET_FEATURE
               (overwrite 0 (take (min size (bt_size - 4)) report) (replicate bt_size 0)) bt_size)"

definition l2cap_send_hid_feature_set :: "env \<Rightarrow> EConnectionSide \<Rightarrow> bytes \<Rightarrow> relay \<Rightarrow> relay" where
  "l2cap_send_hid_feature_set E s report r =
    (case bt_feature_report (e_zcrc E) report of
       None \<Rightarrow> r
     | Some buf \<Rightarrow> l2cap_send_hid E s hid_control_channel HIDP_SET_FEATURE buf r)"

text \<open>The Bluetooth output report built around the 47 shared bytes of a USB one.\<close>

definition bt_output_report :: "zlib \<Rightarrow> byte \<Rightarrow> bytes \<Rightarrow> bytes option" where
  "bt_output_report zcrc seq usb_report =
    (let common = min (length usb_report - 1) OUTPUT_COMMON_SIZE;
         bt = [REPORT_BT, push_bit 4 seq, OUTPUT_TAG] @ replicate (OUTPUT_BT_SIZE - 3) 0;
         bt = overwrite 3 (take common (drop 1 usb_report)) bt
     in append_crc32 zcrc CRC_SEED_OUTPUT bt OUTPUT_BT_SIZE)"

definition l2cap_send_output_report :: "env \<Rightarrow> EConnectionSide \<Rightarrow> bytes \<Rightarrow> relay \<Rightarrow> relay" where
  "l2cap_send_output_report E s usb_report r =
    (if length usb_report < 2 then r
     else let seq = h_output_seq (r_h r s);
              r = upd s (\<lambda>h. h\<lparr>h_output_seq := (seq + 1) AND 0x0f\<rparr>) r
          in case bt_output_report (e_zcrc E) seq usb_report of
               None \<Rightarrow> r
             | Some bt \<Rightarrow> l2cap_send_hid E s hid_interrupt_channel HIDP_DATA_OUTPUT bt r)"

text \<open>Report 0x0a: the console's address and link key, kept and never relayed.\<close>

definition take_pairing_set :: "EConnectionSide \<Rightarrow> bytes \<Rightarrow> relay \<Rightarrow> relay" where
  "take_pairing_set s report r =
    (if length report < 23 then r
     else let key = subspan 7 16 report;
              host = addr_of (subspan 1 6 report)
          in if list_all (\<lambda>b. b = 0) key then
               (if h_console_pairing_seen (r_h r s)
                then upd s (\<lambda>h. h\<lparr>h_console_addr := host\<rparr>) r else r)
             else emit s (ConsolePairing host key)
                    (upd s (\<lambda>h. h\<lparr>h_console_addr := host, h_console_link_key := key,
                       h_console_pairing_seen := True\<rparr>) r))"

definition l2cap_send_feature_set :: "env \<Rightarrow> EConnectionSide \<Rightarrow> bytes \<Rightarrow> relay \<Rightarrow> relay" where
  "l2cap_send_feature_set E s report r =
    (if length report < 1 then r
     else let report_id = hd report
          in if report_id = REPORT_PAIRING_SET then take_pairing_set s report r
             else if report_id = REPORT_TRANSPORT then
               (let sub = (if 1 < length report then report ! 1 else 0)
                in if sub = TRANSPORT_UNPAIR then r
                   else let r = upd s (\<lambda>h. h\<lparr>h_pair_command_seen := True\<rparr>) r;
                            r = l2cap_send_hid_feature_set E s report r
                        in if \<not> h_console_pairing_seen (r_h r s) then r
                           else if other r s = None then r
                           else spawn s 0 THandover r)
             else l2cap_send_hid_feature_set E s report r)"

primrec pad_call :: "env \<Rightarrow> EConnectionSide \<Rightarrow> pad_call \<Rightarrow> relay \<Rightarrow> relay" where
  "pad_call E s (PadSendOutput report) = l2cap_send_output_report E s report"
| "pad_call E s (PadGetReport report_id) = l2cap_get_report E s report_id"
| "pad_call E s (PadFeatureSet report) = l2cap_send_feature_set E s report"

end
