(* ===== verification/Handover.thy ===== *)
theory Handover
  imports PadBackend
begin

unbundle bit_operations_syntax

text \<open>
  \<^verbatim>\<open>src/src/bluetooth/Handover.cpp\<close> past the pair command: detaching the gadget, calling the
  console, the fast repaging after it, and easing the radio off once the console plays.
\<close>

definition connect_to_console :: "env \<Rightarrow> EConnectionSide \<Rightarrow> bdaddr \<Rightarrow> bytes \<Rightarrow> relay \<Rightarrow> relay" where
  "connect_to_console E s addr key r =
    (if s \<noteq> to_playstation then r
     else if h_connection_handle (r_h r s) \<noteq> 0 then r
     else let r = upd s (\<lambda>h. h\<lparr>h_link_key := Some key, h_console_addr := addr, h_bt_addr := addr\<rparr>) r;
              r = write_scan_enable E s SCAN_PAGE_ONLY r;
              r = upd s (\<lambda>h. h\<lparr>h_handover_paging_since := r_now r\<rparr>) r;
              r = write_page_timeout E s HANDOVER_PAGE_TIMEOUT_SLOTS r
          in send_connection_request E s (h_bt_addr (r_h r s)) r)"

text \<open>The coroutine the pair command spawns, past its sleep of 0 ms.\<close>

definition run_handover :: "env \<Rightarrow> EConnectionSide \<Rightarrow> relay \<Rightarrow> relay" where
  "run_handover E s r =
    (let r = upd s (\<lambda>h. h\<lparr>h_gadget := disable_gadget (h_gadget h)\<rparr>) r
     in case other r s of
          None \<Rightarrow> r
        | Some os \<Rightarrow>
            connect_to_console E os (h_console_addr (r_h r s)) (h_console_link_key (r_h r s)) r)"

definition end_handover_paging :: "env \<Rightarrow> EConnectionSide \<Rightarrow> relay \<Rightarrow> relay" where
  "end_handover_paging E s r =
    (if h_handover_paging_since (r_h r s) = time_unset then r
     else write_page_timeout E s PAGE_TIMEOUT_SLOTS
            (upd s (\<lambda>h. h\<lparr>h_handover_paging_since := time_unset\<rparr>) r))"

definition quiet_the_radio :: "env \<Rightarrow> EConnectionSide \<Rightarrow> relay \<Rightarrow> relay" where
  "quiet_the_radio E s r =
    (if \<not> h_on_play_link (r_h r s) then r
     else write_page_scan_activity E s PAGE_SCAN_INTERVAL_NORMAL PAGE_SCAN_WINDOW_NORMAL r)"

end
