(* ===== verification/HidRelay.thy ===== *)
theory HidRelay
  imports Handover
begin

unbundle bit_operations_syntax

text \<open>
  \<^verbatim>\<open>src/src/bluetooth/HidRelay.cpp\<close>: the pad's input to the console over Bluetooth and to the
  USB gadget, the console's output and feature requests back to the pad. Payloads start at
  the HIDP transaction header and are not empty. An operation that reads a payload outside its
  bytes is \<open>None\<close>: C++ has no defined result there. Taking the address one past the last byte
  for a copy of no bytes is not such a read.
\<close>

definition OUTPUT_SUBTYPE_HANDOVER :: byte where [consts_def]: "OUTPUT_SUBTYPE_HANDOVER = 0x97"
definition AUTO_PS_DELAY_MS :: int where [consts_def]: "AUTO_PS_DELAY_MS = 1000"
definition AUTO_PS_PERIOD_MS :: int where [consts_def]: "AUTO_PS_PERIOD_MS = 1500"
definition AUTO_PS_WIDTH_MS :: int where [consts_def]: "AUTO_PS_WIDTH_MS = 200"

section \<open>Feature reports\<close>

text \<open>The report as it goes on: the controller address in 0x09 and 0x0b is the adapter's.\<close>

definition rewrite_address :: "bdaddr \<Rightarrow> bytes \<Rightarrow> bytes" where
  "rewrite_address addr report =
    (if report ! 0 = HIDP_DATA_FEATURE \<and>
        (report ! 1 = REPORT_PAIRING_INFO \<or> report ! 1 = REPORT_PAIRING_LIST) \<and>
        8 \<le> length report \<and> addr_is_set addr
     then overwrite 2 (addr_bytes addr) report else report)"

definition handle_feature_answer_from_pad :: "env \<Rightarrow> EConnectionSide \<Rightarrow> bytes \<Rightarrow> relay \<Rightarrow> relay option" where
  "handle_feature_answer_from_pad E s report r =
    (if hd report = HIDP_DATA_FEATURE \<and> length report < 2 then None
     else let report = rewrite_address (h_ps5_side_addr (r_h r s)) report;
              r = (case other r s of
                     Some os \<Rightarrow>
                       if h_dcid (r_h r os) hid_control_channel \<noteq> 0
                       then l2cap_send_hid E os hid_control_channel (hd report) (tl report) r else r
                   | None \<Rightarrow> r)
          in Some (if hd report = HIDP_DATA_FEATURE
                   then upd s (\<lambda>h. h\<lparr>h_gadget :=
                          on_feature_report (e_kernel E) (tl report) (h_gadget h)\<rparr>) r
                   else r))"

definition handle_feature_request_from_console :: "env \<Rightarrow> EConnectionSide \<Rightarrow> bytes \<Rightarrow> relay \<Rightarrow> relay" where
  "handle_feature_request_from_console E s report r =
    (let r = (if 1 < length report \<and> \<not> h_console_full_reports (r_h r s) \<and>
                 (report ! 1 = REPORT_CALIBRATION \<or> report ! 1 = REPORT_FIRMWARE)
              then upd s (\<lambda>h. h\<lparr>h_console_full_reports := True\<rparr>) r else r)
     in case other r s of
          Some os \<Rightarrow>
            if h_dcid (r_h r os) hid_control_channel \<noteq> 0
            then l2cap_send_hid E os hid_control_channel (hd report) (tl report) r else r
        | None \<Rightarrow> r)"

section \<open>Output\<close>

definition has_room :: "EConnectionSide \<Rightarrow> relay \<Rightarrow> bool \<times> relay" where
  "has_room s r =
    (let x = AclFlowControl_has_room (r_now r) (r_now r) (h_acl (r_h r s))
     in (fst x, upd s (\<lambda>h. h\<lparr>h_acl := snd x\<rparr>) r))"

definition note_handover_target :: "EConnectionSide \<Rightarrow> bytes \<Rightarrow> relay \<Rightarrow> relay" where
  "note_handover_target s report r =
    (if 17 \<le> length report \<and> report ! 1 = REPORT_BT \<and> report ! 3 = OUTPUT_SUBTYPE_HANDOVER
     then let target = addr_of (subspan 10 6 report)
          in if addr_is_set target \<and> target \<noteq> h_bt_addr (r_h r s) \<and> \<not> h_handover_seen (r_h r s)
             then upd s (\<lambda>h. h\<lparr>h_handover_seen := True\<rparr>) r else r
     else r)"

definition relay_console_output_to_pad :: "env \<Rightarrow> EConnectionSide \<Rightarrow> bytes \<Rightarrow> relay \<Rightarrow> relay" where
  "relay_console_output_to_pad E s report r =
    (let r = (if \<not> h_console_output_seen (r_h r s)
              then quiet_the_radio E s (upd s (\<lambda>h. h\<lparr>h_console_output_seen := True\<rparr>) r) else r);
         r = note_handover_target s report r
     in case other r s of
          None \<Rightarrow> r
        | Some os \<Rightarrow>
            if h_dcid (r_h r os) hid_interrupt_channel = 0 then r
            else let r = (if \<not> h_pad_output_seen (r_h r os)
                          then upd os (\<lambda>h. h\<lparr>h_pad_output_seen := True\<rparr>) r else r);
                     room = has_room os r
                 in if \<not> fst room
                    then upd s (\<lambda>h. h\<lparr>h_console_output_dropped := h_console_output_dropped h + 1\<rparr>) (snd room)
                    else l2cap_send_data E os hid_interrupt_channel report
                           (upd s (\<lambda>h. h\<lparr>h_console_output_count := h_console_output_count h + 1\<rparr>) (snd room)))"

section \<open>Input\<close>

definition charging_known :: "byte \<Rightarrow> bool" where
  "charging_known c \<longleftrightarrow> c \<in> set [STATUS_CHARGING_DISCHARGING, STATUS_CHARGING_CHARGING,
    STATUS_CHARGING_FULL, STATUS_CHARGING_VOLTAGE_ERR, STATUS_CHARGING_TEMP_ERR, STATUS_CHARGING_ERROR]"

text \<open>The filter in front of the battery line; the line's wording is not modelled.\<close>

definition battery_sample :: "byte \<Rightarrow> battery_filter \<Rightarrow> bool \<times> battery_filter" where
  "battery_sample status b =
    (if \<not> charging_known (drop_bit 4 status) then (False, b)
     else if 10 < status AND 0x0f then (False, b)
     else if status \<noteq> bf_candidate b then (False, b\<lparr>bf_candidate := status, bf_seen := 1\<rparr>)
     else let b = b\<lparr>bf_seen := bf_seen b + 1\<rparr>
          in if bf_seen b < 3 \<or> status = bf_reported b then (False, b)
             else (True, b\<lparr>bf_reported := status\<rparr>))"

definition log_pad_battery :: "EConnectionSide \<Rightarrow> bytes \<Rightarrow> relay \<Rightarrow> relay" where
  "log_pad_battery s report r =
    (if length report < BT_BODY_OFF + STATUS_OFF + 1 then r
     else let status = report ! (BT_BODY_OFF + STATUS_OFF);
              x = battery_sample status (r_battery r);
              r = r\<lparr>r_battery := snd x\<rparr>
          in if fst x then emit s (BatteryLine status) r else r)"

text \<open>
  Whether the relay presses PS in a report at \<open>now\<close>, and which attempt it is, given when
  input started flowing.
\<close>

definition auto_ps :: "time \<Rightarrow> time \<Rightarrow> int option" where
  "auto_ps live now =
    (let since = (now - live) div 1000000
     in if AUTO_PS_DELAY_MS \<le> since \<and>
           (since - AUTO_PS_DELAY_MS) mod AUTO_PS_PERIOD_MS < AUTO_PS_WIDTH_MS
        then Some (1 + (since - AUTO_PS_DELAY_MS) div AUTO_PS_PERIOD_MS) else None)"

definition relay_pad_input_to_usb :: "env \<Rightarrow> EConnectionSide \<Rightarrow> bytes \<Rightarrow> relay \<Rightarrow> relay" where
  "relay_pad_input_to_usb E s report r =
    (if \<not> transport_open (h_gadget (r_h r s)) then r
     else if length report < 1 + INPUT_BODY_OFF_BT + INPUT_BODY_LEN \<or>
             report ! 0 \<noteq> HIDP_DATA_INPUT \<or> report ! 1 \<noteq> REPORT_BT then r
     else case make_usb_report report of
       None \<Rightarrow> r
     | Some usb \<Rightarrow>
         let live = u_input_flowing_since (h_gadget (r_h r s));
             press = (if live \<noteq> time_unset \<and> \<not> h_pair_command_seen (r_h r s)
                      then auto_ps live (r_now r) else None);
             usb = (if press \<noteq> None then set_ps_on_usb_report usb else usb);
             r = (case press of
                    Some attempt \<Rightarrow> upd s (\<lambda>h. h\<lparr>h_auto_ps_attempt := attempt\<rparr>) r
                  | None \<Rightarrow> r)
         in upd s (\<lambda>h. h\<lparr>h_gadget := send_input (e_kernel E) usb (h_gadget h)\<rparr>) r)"

definition opaque_frame :: "bytes \<Rightarrow> bool" where
  "opaque_frame report \<longleftrightarrow>
    (if length report \<noteq> 1 + INPUT_BT_SIZE then False else \<not> carries_controller_state report)"

text \<open>The two senders put the report into the channel of side \<open>os\<close>, the console's handler.\<close>

definition send_full_report_to_console :: "env \<Rightarrow> EConnectionSide \<Rightarrow> bytes \<Rightarrow> relay \<Rightarrow> relay" where
  "send_full_report_to_console E os report r =
    l2cap_send_hid E os hid_interrupt_channel (hd report) (tl report) r"

definition send_cut_down_report_to_console ::
    "env \<Rightarrow> EConnectionSide \<Rightarrow> bytes \<Rightarrow> relay \<Rightarrow> relay option" where
  "send_cut_down_report_to_console E os report r =
    (case make_cut_down_report report of
       None \<Rightarrow> None
     | Some basic \<Rightarrow> Some (l2cap_send_hid E os hid_interrupt_channel HIDP_DATA_INPUT basic r))"

definition send_report_to_console :: "env \<Rightarrow> EConnectionSide \<Rightarrow> bytes \<Rightarrow> relay \<Rightarrow> relay option" where
  "send_report_to_console E os report r =
    (if h_console_full_reports (r_h r os) then Some (send_full_report_to_console E os report r)
     else send_cut_down_report_to_console E os report r)"

definition relay_pad_input_to_console :: "env \<Rightarrow> EConnectionSide \<Rightarrow> bytes \<Rightarrow> relay \<Rightarrow> relay option" where
  "relay_pad_input_to_console E s report r =
    (case other r s of
       None \<Rightarrow> Some r
     | Some os \<Rightarrow>
         if h_dcid (r_h r os) hid_interrupt_channel = 0 then Some r
         else let r = upd os (\<lambda>h. h\<lparr>h_console_input_seen := True\<rparr>) r
         in if opaque_frame report
            then Some (upd os (\<lambda>h. h\<lparr>h_console_input_opaque_dropped :=
                   h_console_input_opaque_dropped h + 1\<rparr>) r)
            else let room = has_room os r; r = snd room
            in if \<not> fst room
               then Some (upd os (\<lambda>h. h\<lparr>h_console_input_backpressure := h_console_input_backpressure h + 1,
                      h_held := HeldFrame_store report (h_held h)\<rparr>) r)
               else let r = upd os (\<lambda>h. h\<lparr>h_held := HeldFrame_clear (h_held h)\<rparr>) r;
                        r = note_input_sent os r
                    in send_report_to_console E os report r)"

definition publish_input :: "env \<Rightarrow> EConnectionSide \<Rightarrow> bytes \<Rightarrow> relay \<Rightarrow> relay" where
  "publish_input E s report r =
    (if carries_controller_state report
     then upd s (\<lambda>h. h\<lparr>h_input_feed := publish (word_of_int (1000 * r_now r)) (e_time_of_day E (r_now r))
            (subspan BT_BODY_OFF BODY_LEN report) (link_snapshot s r) (h_input_feed h)\<rparr>) r
     else r)"

definition relay_pad_input :: "env \<Rightarrow> EConnectionSide \<Rightarrow> bytes \<Rightarrow> relay \<Rightarrow> relay option" where
  "relay_pad_input E s report r =
    (let r = (if 1 + INPUT_BT_SIZE \<le> length report \<and> report ! 0 = HIDP_DATA_INPUT \<and>
                 report ! 1 = REPORT_BT
              then publish_input E s report (log_pad_battery s report r) else r);
         r = relay_pad_input_to_usb E s report r
     in relay_pad_input_to_console E s report r)"

definition flush_held_report :: "env \<Rightarrow> EConnectionSide \<Rightarrow> relay \<Rightarrow> relay option" where
  "flush_held_report E s r =
    (if \<not> HeldFrame_valid (h_held (r_h r s)) then Some r
     else let room = has_room s r; r = snd room
     in if \<not> fst room then Some r
     else if h_dcid (r_h r s) hid_interrupt_channel = 0
     then Some (upd s (\<lambda>h. h\<lparr>h_held := HeldFrame_clear (h_held h)\<rparr>) r)
     else if other r s = None then Some r
     else let held = HeldFrame_view (h_held (r_h r s));
              r = upd s (\<lambda>h. h\<lparr>h_held := HeldFrame_clear (h_held h)\<rparr>) r;
              r = note_input_sent s r;
              r = upd s (\<lambda>h. h\<lparr>h_console_input_flushed := h_console_input_flushed h + 1\<rparr>) r
          in send_report_to_console E s held r)"

section \<open>Bringing the gadget up\<close>

text \<open>
  \<^verbatim>\<open>start_usb_gadget\<close> up to its sleep and after it; \<open>udc\<close> and \<open>bind\<close> are what
  \<^verbatim>\<open>enable_gadget\<close> finds. The three coroutines it spawns are the gadget's own events.
\<close>

definition start_usb_gadget :: "env \<Rightarrow> EConnectionSide \<Rightarrow> relay \<Rightarrow> relay" where
  "start_usb_gadget E s r =
    (let r = l2cap_get_report E s REPORT_CALIBRATION r;
         r = l2cap_get_report E s REPORT_PAIRING_INFO r;
         r = l2cap_get_report E s REPORT_FIRMWARE r
     in spawn s (ms 300) TStartUsbGadget2 r)"

definition start_usb_gadget2 :: "bool \<Rightarrow> bool \<Rightarrow> EConnectionSide \<Rightarrow> relay \<Rightarrow> relay" where
  "start_usb_gadget2 udc bind s r =
    (if h_usb_started (r_h r s) then r
     else upd s (\<lambda>h. h\<lparr>h_usb_started := True,
            h_gadget := snd (enable_gadget udc bind (h_gadget h))\<rparr>) r)"

end
