(* ===== verification/L2cap.thy ===== *)
theory L2cap
  imports Sdp HidRelay
begin

unbundle bit_operations_syntax

text \<open>
  The receiving half of \<^verbatim>\<open>src/src/bluetooth/L2cap.cpp\<close>: ACL reassembly, routing by channel and
  side, and the signalling that opens and configures channels. The structures of BlueZ's
  \<^verbatim>\<open>l2cap.h\<close> are read off the packet cursor at their packed offsets, little endian.
\<close>

definition ACL_PB_CONT :: byte where [consts_def]: "ACL_PB_CONT = 0x01"
definition L2CAP_MAX_PDU :: nat where [consts_def]: "L2CAP_MAX_PDU = 4 + 65535"

abbreviation le16_at :: "bytes \<Rightarrow> nat \<Rightarrow> u16" where
  "le16_at p i \<equiv> le16 (p ! i) (p ! (i + 1))"

definition get_channel_by_psm :: "u16 \<Rightarrow> HciChannel option" where
  "get_channel_by_psm psm =
    (if psm = ch_psm hid_control_channel then Some hid_control_channel
     else if psm = ch_psm hid_interrupt_channel then Some hid_interrupt_channel
     else if psm = ch_psm hid_sdp_channel then Some hid_sdp_channel
     else None)"

definition get_channel_by_scid :: "u16 \<Rightarrow> HciChannel option" where
  "get_channel_by_scid scid =
    (if scid = ch_scid hid_control_channel then Some hid_control_channel
     else if scid = ch_scid hid_interrupt_channel then Some hid_interrupt_channel
     else if scid = ch_scid hid_sdp_channel then Some hid_sdp_channel
     else if scid = ch_scid sdp_client_channel then Some sdp_client_channel
     else None)"

definition set_dcid :: "EConnectionSide \<Rightarrow> HciChannel \<Rightarrow> u16 \<Rightarrow> relay \<Rightarrow> relay" where
  "set_dcid s channel dcid = upd s (\<lambda>h. h\<lparr>h_dcid := (h_dcid h)(channel := dcid)\<rparr>)"

section \<open>Signalling\<close>

definition handle_conn_response :: "env \<Rightarrow> EConnectionSide \<Rightarrow> PacketContents \<Rightarrow> relay \<Rightarrow> relay" where
  "handle_conn_response E s pc r =
    (case fst (PacketContents_get 8 pc) of
       None \<Rightarrow> r
     | Some p \<Rightarrow>
         let dcid = le16_at p 0; scid = le16_at p 2; result = le16_at p 4
         in if result = L2CAP_CR_SUCCESS then
              (case get_channel_by_scid scid of
                 None \<Rightarrow> r
               | Some channel \<Rightarrow>
                   l2cap_send_configure_mtu_request E s dcid (ch_mtu channel) (set_dcid s channel dcid r))
            else r)"

definition sdp_browse :: bytes where
  "sdp_browse = [0x06, 0x00, 0x01, 0x00, 0x0f, 0x35, 0x03, 0x19, 0x01, 0x00, 0x08, 0x00,
    0x35, 0x05, 0x0a, 0x00, 0x00, 0xff, 0xff, 0x00]"

definition handle_conf_response :: "env \<Rightarrow> EConnectionSide \<Rightarrow> PacketContents \<Rightarrow> relay \<Rightarrow> relay" where
  "handle_conf_response E s pc r =
    (case fst (PacketContents_get 6 pc) of
       None \<Rightarrow> r
     | Some p \<Rightarrow>
         let scid = le16_at p 0;
             r = (if scid = ch_scid sdp_client_channel \<and> s = to_dualsense
                  then l2cap_send_data E s sdp_client_channel sdp_browse r else r)
         in if scid \<noteq> ch_scid hid_interrupt_channel then r
            else if s = to_dualsense then spawn s 0 TStartUsbGadget r
            else r)"

definition conf_chain :: "env \<Rightarrow> EConnectionSide \<Rightarrow> HciChannel \<Rightarrow> relay \<Rightarrow> relay" where
  "conf_chain E s channel r =
    (if h_incoming_link (r_h r s) then r
     else if s = to_playstation then
       (if channel = hid_control_channel \<and> h_dcid (r_h r s) hid_interrupt_channel = 0
        then spawn s (seconds 10) (TInterruptFallback (h_connection_handle (r_h r s))) r
        else r)
     else if channel = sdp_client_channel then open_channel E s hid_control_channel r
     else if channel = hid_sdp_channel then
       (if s = to_playstation
        then l2cap_send_configure_mtu_request E s (h_dcid (r_h r s) channel) 672 r else r)
     else if channel = hid_control_channel then open_channel E s hid_interrupt_channel r
     else r)"

definition handle_conf_request :: "env \<Rightarrow> EConnectionSide \<Rightarrow> PacketContents \<Rightarrow> relay \<Rightarrow> relay" where
  "handle_conf_request E s pc r =
    (case PacketContents_get 4 pc of
       (None, _) \<Rightarrow> r
     | (Some p, pc) \<Rightarrow>
         case get_channel_by_scid (le16_at p 0) of
           None \<Rightarrow> r
         | Some channel \<Rightarrow>
             let option = (case fst (PacketContents_get 4 pc) of Some q \<Rightarrow> q | None \<Rightarrow> []);
                 rsp = put_le16 (h_dcid (r_h r s) channel) @ put_le16 0 @ put_le16 0 @ option;
                 r = l2cap_send_cmd_response E s (h_current_cmd_ident (r_h r s)) L2CAP_CONF_RSP rsp r
             in conf_chain E s channel r)"

definition handle_conn_req :: "env \<Rightarrow> EConnectionSide \<Rightarrow> byte \<Rightarrow> PacketContents \<Rightarrow> relay \<Rightarrow> relay" where
  "handle_conn_req E s ident pc r =
    (case fst (PacketContents_get 4 pc) of
       None \<Rightarrow> r
     | Some p \<Rightarrow>
         let psm = le16_at p 0; scid = le16_at p 2
         in case get_channel_by_psm psm of
              None \<Rightarrow>
                l2cap_send_cmd_response E s ident L2CAP_CONN_RSP
                  (put_le16 0 @ put_le16 scid @ put_le16 0x0002 @ put_le16 0) r
            | Some channel \<Rightarrow>
                let r = set_dcid s channel scid r;
                    r = l2cap_send_cmd_response E s ident L2CAP_CONN_RSP
                          (put_le16 (ch_scid channel) @ put_le16 scid @ put_le16 0 @ put_le16 0) r
                in l2cap_send_configure_mtu_request E s (h_dcid (r_h r s) channel) (ch_mtu channel) r)"

definition handle_disconn_req :: "env \<Rightarrow> EConnectionSide \<Rightarrow> byte \<Rightarrow> PacketContents \<Rightarrow> relay \<Rightarrow> relay" where
  "handle_disconn_req E s ident pc r =
    (case fst (PacketContents_get 4 pc) of
       None \<Rightarrow> r
     | Some p \<Rightarrow>
         l2cap_send_cmd_response E s ident L2CAP_DISCONN_RSP
           (put_le16 (le16_at p 0) @ put_le16 (le16_at p 2)) r)"

definition handle_l2cap_cmd :: "env \<Rightarrow> EConnectionSide \<Rightarrow> PacketContents \<Rightarrow> relay \<Rightarrow> relay" where
  "handle_l2cap_cmd E s pc r =
    (case PacketContents_get 4 pc of
       (None, _) \<Rightarrow> r
     | (Some p, pc) \<Rightarrow>
         let code = p ! 0; ident = p ! 1;
             r = upd s (\<lambda>h. h\<lparr>h_current_cmd_ident := ident\<rparr>) r
         in if code = L2CAP_CONN_RSP then handle_conn_response E s pc r
            else if code = L2CAP_CONF_RSP then handle_conf_response E s pc r
            else if code = L2CAP_CONF_REQ then handle_conf_request E s pc r
            else if code = L2CAP_CONN_REQ then handle_conn_req E s ident pc r
            else if code = L2CAP_DISCONN_REQ then handle_disconn_req E s ident pc r
            else r)"

section \<open>Routing and reassembly\<close>

definition route_payload :: "env \<Rightarrow> EConnectionSide \<Rightarrow> u16 \<Rightarrow> bytes \<Rightarrow> relay \<Rightarrow> relay option" where
  "route_payload E s cid payload r =
    (if payload = [] then Some r
     else if cid = ch_scid hid_control_channel then
       (if s = to_dualsense then handle_feature_answer_from_pad E s payload r
        else Some (handle_feature_request_from_console E s payload r))
     else if cid = ch_scid hid_interrupt_channel then
       (if s = to_playstation then Some (relay_console_output_to_pad E s payload r)
        else relay_pad_input E s payload r)
     else if cid = ch_scid sdp_client_channel then Some (handle_sdp_answer_from_pad E s payload r)
     else if cid = ch_scid hid_sdp_channel then handle_sdp_query E s payload r
     else Some r)"

definition route_l2cap_pdu :: "env \<Rightarrow> EConnectionSide \<Rightarrow> bytes \<Rightarrow> relay \<Rightarrow> relay option" where
  "route_l2cap_pdu E s pdu r =
    (case PacketContents_get 4 (PacketContents_init pdu) of
       (None, _) \<Rightarrow> Some r
     | (Some p, pc) \<Rightarrow>
         let len = le16_at p 0; cid = le16_at p 2
         in if cid = L2CAP_CID_SIGNALLING then Some (handle_l2cap_cmd E s pc r)
            else case fst (PacketContents_get (unat len) pc) of
                   None \<Rightarrow> Some r
                 | Some payload \<Rightarrow> route_payload E s cid payload r)"

definition set_reasm :: "EConnectionSide \<Rightarrow> u16 \<Rightarrow> (bytes \<times> nat) option \<Rightarrow> relay \<Rightarrow> relay" where
  "set_reasm s handle x = upd s (\<lambda>h. h\<lparr>h_acl_reasm := (h_acl_reasm h)(handle := x)\<rparr>)"

definition acl_continue :: "env \<Rightarrow> EConnectionSide \<Rightarrow> u16 \<Rightarrow> bytes \<Rightarrow> relay \<Rightarrow> relay option" where
  "acl_continue E s handle payload r =
    (case h_acl_reasm (r_h r s) handle of
       None \<Rightarrow> Some r
     | Some (buf, expected) \<Rightarrow>
         let buf = buf @ payload;
             r = set_reasm s handle (Some (buf, expected)) r
         in if length buf < expected then Some r
            else map_option (set_reasm s handle None) (route_l2cap_pdu E s (take expected buf) r))"

definition acl_start :: "env \<Rightarrow> EConnectionSide \<Rightarrow> u16 \<Rightarrow> bytes \<Rightarrow> relay \<Rightarrow> relay option" where
  "acl_start E s handle payload r =
    (let r = set_reasm s handle None r
     in if length payload < 4 then Some r
        else let expected = 4 + unat (le16_at payload 0)
             in if expected \<le> length payload then route_l2cap_pdu E s (take expected payload) r
                else if L2CAP_MAX_PDU < expected then Some r
                else Some (set_reasm s handle (Some (payload, expected)) r))"

definition close_ghost :: "env \<Rightarrow> EConnectionSide \<Rightarrow> u16 \<Rightarrow> relay \<Rightarrow> relay" where
  "close_ghost E s handle r =
    (if handle \<in> set (h_ghost_handles (r_h r s)) then r
     else send_cmd E s OGF_LINK_CTL OCF_DISCONNECT (disconnect_cp handle)
            (upd s (\<lambda>h. h\<lparr>h_ghost_handles := insort handle (h_ghost_handles h)\<rparr>) r))"

definition handle_acl :: "env \<Rightarrow> EConnectionSide \<Rightarrow> PacketContents \<Rightarrow> relay \<Rightarrow> relay option" where
  "handle_acl E s pc r =
    (case PacketContents_get HCI_ACL_HDR_SIZE pc of
       (None, _) \<Rightarrow> Some r
     | (Some p, pc) \<Rightarrow>
         let handle_field = le16_at p 0;
             handle = acl_handle_pack_handle handle_field;
             pb = acl_boundary_flag handle_field
         in if handle \<notin> set (h_open_handles (r_h r s)) then Some (close_ghost E s handle r)
            else case fst (PacketContents_get (PacketContents_remaining pc) pc) of
                   None \<Rightarrow> Some r
                 | Some payload \<Rightarrow>
                     if payload = [] then Some r
                     else if pb = ACL_PB_CONT then acl_continue E s handle payload r
                     else acl_start E s handle payload r)"

end
