(* ===== verification/HciEvents.thy ===== *)
theory HciEvents
  imports L2cap
begin

unbundle bit_operations_syntax

text \<open>
  \<^verbatim>\<open>src/src/bluetooth/HciEvents.cpp\<close>: events from the controller. Each handler reads its
  event structure off the cursor (\<open>None\<close> of the cursor is the early return on a short packet)
  at the packed offsets of BlueZ's \<^verbatim>\<open>hci.h\<close>. \<open>handle_num_completed_packets\<close> may end in a
  read outside a held report, so it and what calls it are option-valued.
\<close>

section \<open>Constants\<close>

definition AUTH_GENERAL_BONDING :: byte where [consts_def]: "AUTH_GENERAL_BONDING = 0x04"
definition HCI_SUCCESS :: byte where [consts_def]: "HCI_SUCCESS = 0x00"
definition LINK_MODE_SNIFF :: byte where [consts_def]: "LINK_MODE_SNIFF = 0x02"
definition HCI_PAGE_TIMEOUT :: byte where [consts_def]: "HCI_PAGE_TIMEOUT = 0x04"
definition HCI_AUTHENTICATION_FAILURE :: byte where [consts_def]: "HCI_AUTHENTICATION_FAILURE = 0x05"
definition HCI_PIN_OR_KEY_MISSING :: byte where [consts_def]: "HCI_PIN_OR_KEY_MISSING = 0x06"
definition HCI_ACL_CONNECTION_EXISTS :: byte where [consts_def]: "HCI_ACL_CONNECTION_EXISTS = 0x0b"
definition HCI_REJECTED_PERSONAL :: byte where [consts_def]: "HCI_REJECTED_PERSONAL = 0x0f"

definition EVT_CONN_COMPLETE :: byte where [consts_def]: "EVT_CONN_COMPLETE = 0x03"
definition EVT_CONN_REQUEST :: byte where [consts_def]: "EVT_CONN_REQUEST = 0x04"
definition EVT_DISCONN_COMPLETE :: byte where [consts_def]: "EVT_DISCONN_COMPLETE = 0x05"
definition EVT_AUTH_COMPLETE :: byte where [consts_def]: "EVT_AUTH_COMPLETE = 0x06"
definition EVT_ENCRYPT_CHANGE :: byte where [consts_def]: "EVT_ENCRYPT_CHANGE = 0x08"
definition EVT_CMD_COMPLETE :: byte where [consts_def]: "EVT_CMD_COMPLETE = 0x0e"
definition EVT_CMD_STATUS :: byte where [consts_def]: "EVT_CMD_STATUS = 0x0f"
definition EVT_NUM_COMP_PKTS :: byte where [consts_def]: "EVT_NUM_COMP_PKTS = 0x13"
definition EVT_MODE_CHANGE :: byte where [consts_def]: "EVT_MODE_CHANGE = 0x14"
definition EVT_LINK_KEY_REQ :: byte where [consts_def]: "EVT_LINK_KEY_REQ = 0x17"
definition EVT_LINK_KEY_NOTIFY :: byte where [consts_def]: "EVT_LINK_KEY_NOTIFY = 0x18"
definition EVT_IO_CAPABILITY_REQUEST :: byte where [consts_def]: "EVT_IO_CAPABILITY_REQUEST = 0x31"
definition EVT_USER_CONFIRM_REQUEST :: byte where [consts_def]: "EVT_USER_CONFIRM_REQUEST = 0x33"

section \<open>Links lost and found\<close>

definition reset_channels :: "EConnectionSide \<Rightarrow> relay \<Rightarrow> relay" where
  "reset_channels s = upd s (\<lambda>h. h\<lparr>
    h_dcid := (h_dcid h)(hid_sdp_channel := 0, sdp_client_channel := 0, hid_control_channel := 0,
      hid_interrupt_channel := 0),
    h_console_full_reports := False, h_console_input_seen := False, h_console_output_seen := False\<rparr>)"

definition schedule_reconnect :: "EConnectionSide \<Rightarrow> time \<Rightarrow> relay \<Rightarrow> relay" where
  "schedule_reconnect s delay r =
    (if h_reconnect_pending (r_h r s) then r
     else spawn s delay TReconnect (upd s (\<lambda>h. h\<lparr>h_reconnect_pending := True\<rparr>) r))"

text \<open>The body of the timer \<^verbatim>\<open>schedule_reconnect\<close> starts.\<close>

definition reconnect_now :: "env \<Rightarrow> EConnectionSide \<Rightarrow> relay \<Rightarrow> relay" where
  "reconnect_now E s r =
    (let r = upd s (\<lambda>h. h\<lparr>h_reconnect_pending := False\<rparr>) r
     in if h_connection_handle (r_h r s) \<noteq> 0 then r
        else send_connection_request E s (h_bt_addr (r_h r s)) r)"

text \<open>How long the console-facing side waits before its next page; \<open>n\<close> pages have failed.\<close>

definition page_backoff :: "int \<Rightarrow> time" where
  "page_backoff n = seconds (if n < 3 then 3 else if n < 6 then 10 else 20)"

definition console_page_failed :: "env \<Rightarrow> EConnectionSide \<Rightarrow> byte \<Rightarrow> relay \<Rightarrow> relay" where
  "console_page_failed E s status r =
    (let r = upd s (\<lambda>h. h\<lparr>h_page_failures := h_page_failures h + 1\<rparr>) r;
         since = h_handover_paging_since (r_h r s);
         over = (HANDOVER_PAGE_WINDOW \<le> r_now r - since)
     in if since \<noteq> time_unset \<and> \<not> over \<and> status = HCI_PAGE_TIMEOUT
        then schedule_reconnect s 0 r
        else let r = (if since \<noteq> time_unset \<and> over then end_handover_paging E s r else r)
             in schedule_reconnect s (page_backoff (h_page_failures (r_h r s))) r)"

definition handle_connection_failure :: "env \<Rightarrow> EConnectionSide \<Rightarrow> byte \<Rightarrow> bdaddr \<Rightarrow> relay \<Rightarrow> relay" where
  "handle_connection_failure E s status addr r =
    (if \<not> addr_is_set (h_bt_addr (r_h r s)) \<or> addr \<noteq> h_bt_addr (r_h r s) then r
     else if s = to_playstation then console_page_failed E s status r
     else if status = HCI_PAGE_TIMEOUT \<or> status = HCI_REJECTED_PERSONAL
     then schedule_reconnect s (seconds 3) r
     else r)"

definition handle_insert :: "u16 \<Rightarrow> u16 list \<Rightarrow> u16 list" where
  "handle_insert handle xs = (if handle \<in> set xs then xs else insort handle xs)"

definition take_link :: "env \<Rightarrow> EConnectionSide \<Rightarrow> u16 \<Rightarrow> bdaddr \<Rightarrow> relay \<Rightarrow> relay" where
  "take_link E s handle addr r =
    (let old = h_connection_handle (r_h r s);
         r = (if old \<noteq> 0 \<and> old \<noteq> handle
              then upd s (\<lambda>h. h\<lparr>h_link_sniffing := False, h_on_play_link := True\<rparr>) (reset_channels s r)
              else r);
         r = upd s (\<lambda>h. h\<lparr>h_connection_handle := handle, h_link_peer_addr := addr,
               h_open_handles := handle_insert handle (h_open_handles h), h_page_failures := 0\<rparr>) r;
         r = end_handover_paging E s r;
         r = (if s = to_dualsense
              then write_page_scan_activity E s PAGE_SCAN_INTERVAL_NORMAL PAGE_SCAN_WINDOW_NORMAL r
              else r);
         r = upd s (\<lambda>h. h\<lparr>h_incoming_link := h_accepted_incoming h, h_accepted_incoming := False\<rparr>) r
     in if h_incoming_link (r_h r s) then r else request_authentication E s handle r)"

definition handle_connection_complete :: "env \<Rightarrow> EConnectionSide \<Rightarrow> PacketContents \<Rightarrow> relay \<Rightarrow> relay" where
  "handle_connection_complete E s pc r =
    (case fst (PacketContents_get 11 pc) of
       None \<Rightarrow> r
     | Some p \<Rightarrow>
         let status = p ! 0; handle = le16_at p 1; addr = addr_of (subspan 3 6 p);
             failed_incoming = (status \<noteq> HCI_SUCCESS \<and> h_accepted_incoming (r_h r s));
             r = (if failed_incoming then upd s (\<lambda>h. h\<lparr>h_accepted_incoming := False\<rparr>) r else r);
             r = (case other r s of
                    Some os \<Rightarrow>
                      if \<not> failed_incoming \<and> s = to_dualsense \<and> h_scan_suppressed (r_h r os)
                      then write_scan_enable E os SCAN_PAGE_ONLY
                             (upd os (\<lambda>h. h\<lparr>h_scan_suppressed := False\<rparr>) r)
                      else r
                  | None \<Rightarrow> r)
         in if status \<noteq> HCI_SUCCESS then handle_connection_failure E s status addr r
            else take_link E s handle addr r)"

text \<open>
  The two halves of \<^verbatim>\<open>handle_disconnect_complete\<close>: dropping everything kept by handle, and,
  when the handle was the one in use, the return to the state before a link.
\<close>

definition forget_handle :: "EConnectionSide \<Rightarrow> u16 \<Rightarrow> relay \<Rightarrow> relay" where
  "forget_handle s handle = upd s (\<lambda>h. h\<lparr>h_open_handles := removeAll handle (h_open_handles h),
    h_acl := AclFlowControl_on_disconnect handle (h_acl h),
    h_ghost_handles := removeAll handle (h_ghost_handles h),
    h_acl_reasm := (h_acl_reasm h)(handle := None)\<rparr>)"

definition link_lost :: "env \<Rightarrow> EConnectionSide \<Rightarrow> byte \<Rightarrow> relay \<Rightarrow> relay" where
  "link_lost E s reason r =
    (let r = upd s (\<lambda>h. h\<lparr>h_link_sniffing := False, h_held := HeldFrame_clear (h_held h)\<rparr>) r;
         r = (if s = to_dualsense
              then write_page_scan_activity E s PAGE_SCAN_INTERVAL_EAGER PAGE_SCAN_WINDOW_EAGER r
              else r);
         r = (if s = to_playstation
              then write_scan_enable E s SCAN_PAGE_ONLY
                     (write_page_scan_activity E s PAGE_SCAN_INTERVAL_EAGER PAGE_SCAN_WINDOW_EAGER
                       (upd s (\<lambda>h. h\<lparr>h_on_play_link := False\<rparr>) r))
              else r);
         r = upd s (\<lambda>h. h\<lparr>h_connection_handle := 0, h_incoming_link := False\<rparr>) r;
         r = reset_channels s r
     in if s = to_playstation \<and> reason = DISCONNECT_REMOTE_USER
        then schedule_reconnect s (seconds 20) r
        else schedule_reconnect s (seconds 3) r)"

definition handle_disconnect_complete :: "env \<Rightarrow> EConnectionSide \<Rightarrow> PacketContents \<Rightarrow> relay \<Rightarrow> relay" where
  "handle_disconnect_complete E s pc r =
    (case fst (PacketContents_get 4 pc) of
       None \<Rightarrow> r
     | Some p \<Rightarrow>
         let handle = le16_at p 1; reason = p ! 3;
             r = forget_handle s handle r
         in if handle \<noteq> h_connection_handle (r_h r s) then r else link_lost E s reason r)"

definition handle_conn_request :: "env \<Rightarrow> EConnectionSide \<Rightarrow> PacketContents \<Rightarrow> relay \<Rightarrow> relay" where
  "handle_conn_request E s pc r =
    (case fst (PacketContents_get 10 pc) of
       None \<Rightarrow> r
     | Some p \<Rightarrow>
         let addr = addr_of (subspan 0 6 p);
             expected = (if s = to_dualsense then h_bt_addr (r_h r s) else h_console_addr (r_h r s));
             accept = (addr_is_set expected \<and> tl (addr_bytes addr) = tl (addr_bytes expected))
         in if \<not> accept
            then send_cmd E s OGF_LINK_CTL OCF_REJECT_CONN_REQ (addr_bytes addr @ [0x0f]) r
            else send_cmd E s OGF_LINK_CTL OCF_ACCEPT_CONN_REQ (addr_bytes addr @ [0x01])
                   (upd s (\<lambda>h. h\<lparr>h_accepted_incoming := True\<rparr>) r))"

section \<open>Pairing, authentication, encryption\<close>

definition handle_link_key_request :: "env \<Rightarrow> EConnectionSide \<Rightarrow> PacketContents \<Rightarrow> relay \<Rightarrow> relay" where
  "handle_link_key_request E s pc r =
    (case fst (PacketContents_get 6 pc) of
       None \<Rightarrow> r
     | Some p \<Rightarrow>
         (case h_link_key (r_h r s) of
            Some key \<Rightarrow> send_cmd E s OGF_LINK_CTL OCF_LINK_KEY_REPLY (take 6 p @ take 16 key) r
          | None \<Rightarrow> send_cmd E s OGF_LINK_CTL OCF_LINK_KEY_NEG_REPLY (take 6 p) r))"

definition handle_io_capability_request :: "env \<Rightarrow> EConnectionSide \<Rightarrow> PacketContents \<Rightarrow> relay \<Rightarrow> relay" where
  "handle_io_capability_request E s pc r =
    (case fst (PacketContents_get 6 pc) of
       None \<Rightarrow> r
     | Some p \<Rightarrow> send_cmd E s OGF_LINK_CTL OCF_IO_CAPABILITY_REPLY
                   (take 6 p @ [0x03, 0x00, AUTH_GENERAL_BONDING]) r)"

definition handle_user_confirm_request :: "env \<Rightarrow> EConnectionSide \<Rightarrow> PacketContents \<Rightarrow> relay \<Rightarrow> relay" where
  "handle_user_confirm_request E s pc r =
    (case fst (PacketContents_get 10 pc) of
       None \<Rightarrow> r
     | Some p \<Rightarrow> send_cmd E s OGF_LINK_CTL OCF_USER_CONFIRM_REPLY (take 6 p) r)"

definition handle_auth_complete :: "env \<Rightarrow> EConnectionSide \<Rightarrow> PacketContents \<Rightarrow> relay \<Rightarrow> relay" where
  "handle_auth_complete E s pc r =
    (case fst (PacketContents_get 3 pc) of
       None \<Rightarrow> r
     | Some p \<Rightarrow>
         let status = p ! 0
         in if status \<noteq> HCI_SUCCESS then
              (if (status = HCI_AUTHENTICATION_FAILURE \<or> status = HCI_PIN_OR_KEY_MISSING) \<and>
                  h_link_key (r_h r s) \<noteq> None
               then let r = upd s (\<lambda>h. h\<lparr>h_link_key := None\<rparr>) r
                    in if s = to_dualsense then emit s LinkKeyRejected r else r
               else r)
            else if s = to_playstation then request_encryption E s (h_connection_handle (r_h r s)) r
            else open_channel E s sdp_client_channel r)"

definition handle_encrypt_change :: "env \<Rightarrow> EConnectionSide \<Rightarrow> PacketContents \<Rightarrow> relay \<Rightarrow> relay" where
  "handle_encrypt_change E s pc r =
    (case fst (PacketContents_get 4 pc) of
       None \<Rightarrow> r
     | Some p \<Rightarrow>
         if p ! 0 \<noteq> HCI_SUCCESS then r
         else let encrypt = (p ! 3 \<noteq> 0);
                  r = (if s = to_dualsense \<and> encrypt \<and> h_dcid (r_h r s) sdp_client_channel = 0
                       then open_channel E s sdp_client_channel r else r)
              in if s = to_dualsense \<and> encrypt \<and> h_incoming_link (r_h r s)
                 then request_central_role E s (h_link_peer_addr (r_h r s)) r else r)"

text \<open>
  \<^verbatim>\<open>main\<close> installs the console-pairing callback on both sides and the link-key callbacks on
  the pad-facing one only.
\<close>

definition handle_link_key_notify :: "EConnectionSide \<Rightarrow> PacketContents \<Rightarrow> relay \<Rightarrow> relay" where
  "handle_link_key_notify s pc r =
    (case fst (PacketContents_get 23 pc) of
       None \<Rightarrow> r
     | Some p \<Rightarrow>
         let key = subspan 6 16 p;
             r = upd s (\<lambda>h. h\<lparr>h_negotiated_link_key := key\<rparr>) r
         in if s = to_playstation
            then emit s (ConsolePairing (h_bt_addr (r_h r s)) key)
                   (upd s (\<lambda>h. h\<lparr>h_console_link_key := key, h_console_pairing_seen := True\<rparr>) r)
            else emit s (LinkKeySaved key) r)"

definition handle_mode_change :: "EConnectionSide \<Rightarrow> PacketContents \<Rightarrow> relay \<Rightarrow> relay" where
  "handle_mode_change s pc r =
    (case fst (PacketContents_get 6 pc) of
       None \<Rightarrow> r
     | Some p \<Rightarrow>
         if p ! 0 \<noteq> HCI_SUCCESS then r
         else if le16_at p 1 = h_connection_handle (r_h r s)
         then upd s (\<lambda>h. h\<lparr>h_link_sniffing := (p ! 3 = LINK_MODE_SNIFF)\<rparr>) r
         else r)"

section \<open>Answers to commands\<close>

definition commands_answered :: "env \<Rightarrow> EConnectionSide \<Rightarrow> byte \<Rightarrow> relay \<Rightarrow> relay" where
  "commands_answered E s ncmd r =
    pump_commands E s (upd s (\<lambda>h. h\<lparr>h_cmd_queue := HciCommandQueue_answered ncmd (h_cmd_queue h)\<rparr>) r)"

definition sweep_stale_links :: "env \<Rightarrow> EConnectionSide \<Rightarrow> relay \<Rightarrow> relay" where
  "sweep_stale_links E s r =
    (let r = upd s (\<lambda>h. h\<lparr>h_stale_link_reset := True, h_suppress_cmd_errors := True\<rparr>) r;
         r = fold (\<lambda>handle. send_cmd E s OGF_LINK_CTL OCF_DISCONNECT (disconnect_cp (of_nat handle)))
               [1 ..< 13] r;
         r = spawn s (seconds 2) TClearSuppress r
     in schedule_reconnect s (seconds 3) r)"

definition handle_cmd_status :: "env \<Rightarrow> EConnectionSide \<Rightarrow> PacketContents \<Rightarrow> relay \<Rightarrow> relay" where
  "handle_cmd_status E s pc r =
    (case fst (PacketContents_get 4 pc) of
       None \<Rightarrow> r
     | Some p \<Rightarrow>
         let status = p ! 0;
             r = commands_answered E s (p ! 1) r;
             create_conn = (le16_at p 2 = cmd_opcode_pack OGF_LINK_CTL OCF_CREATE_CONN)
         in if status = HCI_SUCCESS then r
            else if create_conn \<and> status = HCI_ACL_CONNECTION_EXISTS \<and> h_connection_handle (r_h r s) \<noteq> 0
            then r
            else if \<not> create_conn \<or> status \<noteq> HCI_ACL_CONNECTION_EXISTS then r
            else if h_stale_link_reset (r_h r s) then r
            else sweep_stale_links E s r)"

definition popcount :: "byte \<Rightarrow> nat" where
  "popcount b = length (filter (bit b) [0 ..< 8])"

definition handle_cmd_complete :: "env \<Rightarrow> EConnectionSide \<Rightarrow> PacketContents \<Rightarrow> relay \<Rightarrow> relay" where
  "handle_cmd_complete E s pc r =
    (case PacketContents_get 3 pc of
       (None, _) \<Rightarrow> r
     | (Some p, pc) \<Rightarrow>
         let r = commands_answered E s (p ! 0) r;
             opcode = le16_at p 1;
             result = (\<lambda>n. case fst (PacketContents_get n pc) of
                        Some q \<Rightarrow> if q ! 0 = HCI_SUCCESS then Some q else None
                      | None \<Rightarrow> None)
         in if opcode = cmd_opcode_pack OGF_INFO_PARAM OCF_READ_BUFFER_SIZE then
              (case result 7 of
                 Some q \<Rightarrow> upd s (\<lambda>h. h\<lparr>h_acl := AclFlowControl_set_max_packets (le16_at q 4) (h_acl h)\<rparr>) r
               | None \<Rightarrow> r)
            else if opcode = cmd_opcode_pack OGF_STATUS_PARAM OCF_READ_LINK_QUALITY then
              (case result 4 of
                 Some q \<Rightarrow> upd s (\<lambda>h. h\<lparr>h_link_quality := q ! 3, h_radio_read := True\<rparr>) r
               | None \<Rightarrow> r)
            else if opcode = cmd_opcode_pack OGF_STATUS_PARAM OCF_READ_RSSI then
              (case result 4 of
                 Some q \<Rightarrow> upd s (\<lambda>h. h\<lparr>h_link_rssi := q ! 3, h_radio_read := True\<rparr>) r
               | None \<Rightarrow> r)
            else if opcode = cmd_opcode_pack OGF_STATUS_PARAM OCF_READ_AFH_MAP then
              (case result 14 of
                 Some q \<Rightarrow> upd s (\<lambda>h. h\<lparr>h_afh_enabled := (q ! 3 \<noteq> 0),
                   h_afh_channels := of_nat (sum_list (map popcount (subspan 4 10 q))),
                   h_radio_read := True\<rparr>) r
               | None \<Rightarrow> r)
            else if opcode \<noteq> cmd_opcode_pack OGF_INFO_PARAM OCF_READ_BD_ADDR then r
            else (case result 7 of
                    Some q \<Rightarrow> upd s (\<lambda>h. h\<lparr>h_bd_addr_confirmed := True\<rparr>) r
                  | None \<Rightarrow> r))"

section \<open>Buffers handed back\<close>

text \<open>The loop over the \<open>{handle, packets}\<close> pairs; \<open>n\<close> pairs are still announced.\<close>

fun completed_pairs :: "nat \<Rightarrow> bytes \<Rightarrow> (u16 \<times> u16) list" where
  "completed_pairs (Suc n) (a # b # c # d # rest) = (le16 a b, le16 c d) # completed_pairs n rest"
| "completed_pairs _ _ = []"

definition apply_completed :: "EConnectionSide \<Rightarrow> u16 \<times> u16 \<Rightarrow> relay \<Rightarrow> relay" where
  "apply_completed s p r =
    upd s (\<lambda>h. h\<lparr>h_acl := AclFlowControl_on_completed (fst p) (uint (snd p)) (r_now r) (h_acl h)\<rparr>) r"

definition handle_num_completed_packets ::
    "env \<Rightarrow> EConnectionSide \<Rightarrow> PacketContents \<Rightarrow> byte \<Rightarrow> relay \<Rightarrow> relay option" where
  "handle_num_completed_packets E s pc plen r =
    (if plen < 1 then Some r
     else case fst (PacketContents_get (unat plen) pc) of
            None \<Rightarrow> Some r
          | Some body \<Rightarrow>
              flush_held_report E s
                (fold (apply_completed s) (completed_pairs (unat (body ! 0)) (tl body)) r))"

section \<open>Dispatch\<close>

text \<open>Simple Pairing Complete and Role Change are only logged.\<close>

definition handle_event :: "env \<Rightarrow> EConnectionSide \<Rightarrow> PacketContents \<Rightarrow> relay \<Rightarrow> relay option" where
  "handle_event E s pc r =
    (case PacketContents_get 2 pc of
       (None, _) \<Rightarrow> Some r
     | (Some p, pc) \<Rightarrow>
         let evt = p ! 0
         in if evt = EVT_NUM_COMP_PKTS then handle_num_completed_packets E s pc (p ! 1) r
            else Some
              (if evt = EVT_CONN_COMPLETE then handle_connection_complete E s pc r
               else if evt = EVT_LINK_KEY_REQ then handle_link_key_request E s pc r
               else if evt = EVT_IO_CAPABILITY_REQUEST then handle_io_capability_request E s pc r
               else if evt = EVT_USER_CONFIRM_REQUEST then handle_user_confirm_request E s pc r
               else if evt = EVT_AUTH_COMPLETE then handle_auth_complete E s pc r
               else if evt = EVT_ENCRYPT_CHANGE then handle_encrypt_change E s pc r
               else if evt = EVT_MODE_CHANGE then handle_mode_change s pc r
               else if evt = EVT_CMD_COMPLETE then handle_cmd_complete E s pc r
               else if evt = EVT_CMD_STATUS then handle_cmd_status E s pc r
               else if evt = EVT_LINK_KEY_NOTIFY then handle_link_key_notify s pc r
               else if evt = EVT_CONN_REQUEST then handle_conn_request E s pc r
               else if evt = EVT_DISCONN_COMPLETE then handle_disconnect_complete E s pc r
               else r))"

end
