(* ===== verification/BluetoothHandler.thy ===== *)
theory BluetoothHandler
  imports HciEvents
begin

unbundle bit_operations_syntax

text \<open>
  \<^verbatim>\<open>src/src/bluetooth/BluetoothHandler.cpp\<close> and the wiring of \<^verbatim>\<open>src/src/main.cpp\<close>: the first
  split of what arrives, the start of a handler, the timers, the gadget's events, and the
  whole program as a step relation. One step is one turn of the event loop: a packet from a
  controller, a coroutine whose sleep is over, an event of the gadget, time passing, or the
  shutdown signal. The single-threaded \<^verbatim>\<open>io_context\<close> of the source runs exactly one of
  these at a time.
\<close>

definition handle_bluetooth_data :: "env \<Rightarrow> EConnectionSide \<Rightarrow> bytes \<Rightarrow> relay \<Rightarrow> relay option" where
  "handle_bluetooth_data E s packet r =
    (case PacketContents_get 1 (PacketContents_init packet) of
       (None, _) \<Rightarrow> Some r
     | (Some p, pc) \<Rightarrow>
         if p ! 0 = HCI_EVENT_PKT then handle_event E s pc r
         else if p ! 0 = HCI_ACLDATA_PKT then handle_acl E s pc r
         else Some r)"

text \<open>
  The start of \<^verbatim>\<open>handle()\<close>; \<open>packets\<close> are those the reset reads. The liveness check of the
  console-facing side only prints and is left out.
\<close>

definition start_handler :: "env \<Rightarrow> EConnectionSide \<Rightarrow> bytes list \<Rightarrow> relay \<Rightarrow> relay" where
  "start_handler E s packets r =
    (let r = spawn s (ms 250) TWatchCommands r;
         r = (if s = to_dualsense then spawn s 0 TPublishStage r else r);
         r = snd (reset_controller E s packets r);
         r = write_simple_pairing_enabled E s r;
         r = write_event_mask E s r;
         r = write_auth_enabled E s r;
         r = write_page_scan_activity E s PAGE_SCAN_INTERVAL_EAGER PAGE_SCAN_WINDOW_EAGER r;
         r = write_page_timeout E s PAGE_TIMEOUT_SLOTS r;
         r = read_buffer_size E s r;
         r = apply_side_settings E s r;
         r = (if s = to_dualsense then send_connection_request E s (h_bt_addr (r_h r s)) r else r)
     in spawn s (seconds 5) TPollRadioQuality r)"

primrec run_task :: "env \<Rightarrow> bool \<Rightarrow> bool \<Rightarrow> EConnectionSide \<Rightarrow> task \<Rightarrow> relay \<Rightarrow> relay" where
  "run_task E udc bind s TReconnect r = reconnect_now E s r"
| "run_task E udc bind s (TInterruptFallback link) r =
    (if h_connection_handle (r_h r s) = link \<and> h_dcid (r_h r s) hid_interrupt_channel = 0
     then open_channel E s hid_interrupt_channel r else r)"
| "run_task E udc bind s TClearSuppress r = set_suppress s False r"
| "run_task E udc bind s TStartUsbGadget r = start_usb_gadget E s r"
| "run_task E udc bind s TStartUsbGadget2 r = start_usb_gadget2 udc bind s r"
| "run_task E udc bind s THandover r = run_handover E s r"
| "run_task E udc bind s TWatchCommands r = spawn s (ms 250) TWatchCommands (watch_commands E s r)"
| "run_task E udc bind s TPublishStage r = spawn s (ms 250) TPublishStage (publish_stage s r)"
| "run_task E udc bind s TPollRadioQuality r =
    spawn s (seconds 5) TPollRadioQuality (read_radio_quality E s r)"

section \<open>The gadget's events\<close>

datatype gadget_event =
    GEvents "ffs_event list"
  | GTimer
  | GInputDone int
  | GOutputDone "int + bytes"

primrec gadget_step :: "env \<Rightarrow> time \<Rightarrow> gadget_event \<Rightarrow> usb \<Rightarrow> usb \<times> pad_call list" where
  "gadget_step E now (GEvents es) u = handle_events (e_kernel E) now es u"
| "gadget_step E now GTimer u = (get_report_timed_out (e_kernel E) u, [])"
| "gadget_step E now (GInputDone result) u = (on_input_done now result u, [])"
| "gadget_step E now (GOutputDone result) u = on_output_done (e_kernel E) result u"

definition run_gadget :: "env \<Rightarrow> gadget_event \<Rightarrow> relay \<Rightarrow> relay" where
  "run_gadget E g r =
    (let x = gadget_step E (r_now r) g (h_gadget (r_h r to_dualsense))
     in fold (pad_call E to_dualsense) (snd x)
          (upd to_dualsense (\<lambda>h. h\<lparr>h_gadget := fst x\<rparr>) r))"

section \<open>The program\<close>

inductive relay_step :: "env \<Rightarrow> relay \<Rightarrow> relay \<Rightarrow> bool" for E where
  packet: "length p \<le> 4096 \<Longrightarrow> handle_bluetooth_data E s p r = Some r' \<Longrightarrow> relay_step E r r'"
| task: "r_tasks r = before @ (due, s, t) # after \<Longrightarrow> due \<le> r_now r \<Longrightarrow>
    relay_step E r (run_task E udc bind s t (r\<lparr>r_tasks := before @ after\<rparr>))"
| gadget: "relay_step E r (run_gadget E g r)"
| tick: "0 \<le> d \<Longrightarrow> relay_step E r (r\<lparr>r_now := r_now r + d\<rparr>)"
| shutdown: "relay_step E r (disconnect_link E s r)"

text \<open>
  What \<^verbatim>\<open>main\<close> sets up before the loop runs: the pad's address and the saved keys, and the
  second handler when the adapter could be claimed (\<open>m_linked\<close>); otherwise the pad-facing side
  keeps the address \<^verbatim>\<open>set_ps5_side_adapter\<close> read, if it read one.
\<close>

record main_setup =
  m_now :: time
  m_linked :: bool
  m_ds_addr :: bdaddr
  m_ps5_side_addr :: bdaddr
  m_link_key :: "bytes option"
  m_console :: "(bdaddr \<times> bytes) option"
  m_local :: "EConnectionSide \<Rightarrow> bdaddr"
  m_usb_steps :: setup_steps
  m_feed_mapped :: bool

definition with_pairing :: "(bdaddr \<times> bytes) option \<Rightarrow> handler \<Rightarrow> handler" where
  "with_pairing p h = (case p of Some (addr, key) \<Rightarrow> set_console_pairing addr key h | None \<Rightarrow> h)"

definition relay_start :: "main_setup \<Rightarrow> relay" where
  "relay_start m =
    (let pad = handler_init to_dualsense (m_now m) (m_local m to_dualsense) (m_link_key m)
                 (snd (init_gadget (m_usb_steps m) USBHandler_init))
                 (snd (Writer_open (m_feed_mapped m) Writer_init));
         pad = with_pairing (m_console m) (pad\<lparr>h_bt_addr := m_ds_addr m,
                 h_ps5_side_addr := (if m_linked m then m_ds_addr m else m_ps5_side_addr m)\<rparr>);
         console = handler_init to_playstation (m_now m) (m_local m to_playstation) None
                     USBHandler_init Writer_init;
         console = with_pairing (m_console m) (set_spoof_addr (m_ds_addr m) console)
     in \<lparr>r_h = (\<lambda>s. case s of to_dualsense \<Rightarrow> pad | to_playstation \<Rightarrow> console),
         r_linked = m_linked m, r_now = m_now m, r_io = 0, r_tasks = [], r_trace = [],
         r_battery = \<lparr>bf_candidate = 0xff, bf_seen = 0, bf_reported = 0xff\<rparr>\<rparr>)"

definition relay_run_start :: "env \<Rightarrow> main_setup \<Rightarrow> (EConnectionSide \<Rightarrow> bytes list) \<Rightarrow> relay" where
  "relay_run_start E m packets =
    (let r = relay_start m;
         r = (if m_linked m then start_handler E to_playstation (packets to_playstation) r else r)
     in start_handler E to_dualsense (packets to_dualsense) r)"

end
