(* ===== verification/RelayInv.thy ===== *)
theory RelayInv
  imports BluetoothHandler
begin

unbundle bit_operations_syntax

text \<open>
  The invariant of the whole relay: of each handler on its own, of the timers, and of
  everything ever written to a controller; and that every operation and every step keeps it.
\<close>

named_theorems relay_intros

section \<open>The invariant\<close>

text \<open>
  A reassembly buffer holds the start of a PDU, shorter than its header announces. While the
  last fragment is being routed its completed buffer is still in the map, and while a
  disconnect is being handled the handle in use is no longer among the open ones. So the
  invariant carries the set \<open>X\<close> of what is exempt for the moment: \<open>(s, Some handle)\<close> the
  buffer of a handle, \<open>(s, None)\<close> the handle in use. Between two steps it is empty.
\<close>

definition reasm_ok :: "u16 option set \<Rightarrow> (u16 \<rightharpoonup> bytes \<times> nat) \<Rightarrow> bool" where
  "reasm_ok Y m \<longleftrightarrow> (\<forall>handle buf expected. Some handle \<notin> Y \<longrightarrow> m handle = Some (buf, expected) \<longrightarrow>
    4 \<le> length buf \<and> length buf < expected \<and> expected = 4 + unat (le16_at buf 0))"

definition handler_ok :: "u16 option set \<Rightarrow> handler \<Rightarrow> bool" where
  "handler_ok Y h \<longleftrightarrow> fc_ok (h_acl h) \<and> held_ok (h_held h) \<and> usb_wf (h_gadget h) \<and>
    reasm_ok Y (h_acl_reasm h) \<and>
    sorted (h_open_handles h) \<and> distinct (h_open_handles h) \<and> distinct (h_ghost_handles h) \<and>
    (None \<notin> Y \<longrightarrow> h_connection_handle h \<noteq> 0 \<longrightarrow> h_connection_handle h \<in> set (h_open_handles h)) \<and>
    h_output_seq h < 16"

definition frame_ok :: "bytes \<Rightarrow> bool" where
  "frame_ok f \<longleftrightarrow> length f \<le> WRITE_BUFFER_SIZE \<and> (\<exists>handle cid payload. f = acl_frame handle cid payload)"

definition trace_ok :: "(EConnectionSide \<times> effect) list \<Rightarrow> bool" where
  "trace_ok tr \<longleftrightarrow> (\<forall>s f. (s, AclWrite f) \<in> set tr \<longrightarrow> frame_ok f)"

definition reconnects :: "EConnectionSide \<Rightarrow> (time \<times> EConnectionSide \<times> task) list \<Rightarrow> nat" where
  "reconnects s ts = length (filter (\<lambda>(_, s', t). s' = s \<and> t = TReconnect) ts)"

definition tasks_ok :: "relay \<Rightarrow> bool" where
  "tasks_ok r \<longleftrightarrow> (\<forall>s. reconnects s (r_tasks r) = (if h_reconnect_pending (r_h r s) then 1 else 0))"

definition relay_ok :: "(EConnectionSide \<times> u16 option) set \<Rightarrow> relay \<Rightarrow> bool" where
  "relay_ok X r \<longleftrightarrow> (\<forall>s. handler_ok (X `` {s}) (r_h r s)) \<and> trace_ok (r_trace r) \<and> tasks_ok r"

lemma handler_ok_simps [simp]:
  "handler_ok Y (h\<lparr>h_dcid := v0\<rparr>) = handler_ok Y h"
  "handler_ok Y (h\<lparr>h_bt_addr := v1\<rparr>) = handler_ok Y h"
  "handler_ok Y (h\<lparr>h_ps5_side_addr := v2\<rparr>) = handler_ok Y h"
  "handler_ok Y (h\<lparr>h_pair_command_seen := v3\<rparr>) = handler_ok Y h"
  "handler_ok Y (h\<lparr>h_auto_ps_attempt := v4\<rparr>) = handler_ok Y h"
  "handler_ok Y (h\<lparr>h_cmd_request_ident := v5\<rparr>) = handler_ok Y h"
  "handler_ok Y (h\<lparr>h_current_cmd_ident := v6\<rparr>) = handler_ok Y h"
  "handler_ok Y (h\<lparr>h_usb_started := v7\<rparr>) = handler_ok Y h"
  "handler_ok Y (h\<lparr>h_reconnect_pending := v8\<rparr>) = handler_ok Y h"
  "handler_ok Y (h\<lparr>h_incoming_link := v9\<rparr>) = handler_ok Y h"
  "handler_ok Y (h\<lparr>h_accepted_incoming := v10\<rparr>) = handler_ok Y h"
  "handler_ok Y (h\<lparr>h_console_output_seen := v11\<rparr>) = handler_ok Y h"
  "handler_ok Y (h\<lparr>h_handover_seen := v12\<rparr>) = handler_ok Y h"
  "handler_ok Y (h\<lparr>h_console_input_seen := v13\<rparr>) = handler_ok Y h"
  "handler_ok Y (h\<lparr>h_page_failures := v14\<rparr>) = handler_ok Y h"
  "handler_ok Y (h\<lparr>h_handover_paging_since := v15\<rparr>) = handler_ok Y h"
  "handler_ok Y (h\<lparr>h_stale_link_reset := v16\<rparr>) = handler_ok Y h"
  "handler_ok Y (h\<lparr>h_suppress_cmd_errors := v17\<rparr>) = handler_ok Y h"
  "handler_ok Y (h\<lparr>h_console_input_count := v18\<rparr>) = handler_ok Y h"
  "handler_ok Y (h\<lparr>h_console_input_backpressure := v19\<rparr>) = handler_ok Y h"
  "handler_ok Y (h\<lparr>h_console_input_flushed := v20\<rparr>) = handler_ok Y h"
  "handler_ok Y (h\<lparr>h_console_input_opaque_dropped := v21\<rparr>) = handler_ok Y h"
  "handler_ok Y (h\<lparr>h_console_output_count := v22\<rparr>) = handler_ok Y h"
  "handler_ok Y (h\<lparr>h_console_output_dropped := v23\<rparr>) = handler_ok Y h"
  "handler_ok Y (h\<lparr>h_pad_output_seen := v24\<rparr>) = handler_ok Y h"
  "handler_ok Y (h\<lparr>h_gaps := v25\<rparr>) = handler_ok Y h"
  "handler_ok Y (h\<lparr>h_cmd_queue := v26\<rparr>) = handler_ok Y h"
  "handler_ok Y (h\<lparr>h_link_quality := v27\<rparr>) = handler_ok Y h"
  "handler_ok Y (h\<lparr>h_link_rssi := v28\<rparr>) = handler_ok Y h"
  "handler_ok Y (h\<lparr>h_afh_channels := v29\<rparr>) = handler_ok Y h"
  "handler_ok Y (h\<lparr>h_afh_enabled := v30\<rparr>) = handler_ok Y h"
  "handler_ok Y (h\<lparr>h_radio_read := v31\<rparr>) = handler_ok Y h"
  "handler_ok Y (h\<lparr>h_input_feed := v32\<rparr>) = handler_ok Y h"
  "handler_ok Y (h\<lparr>h_on_play_link := v33\<rparr>) = handler_ok Y h"
  "handler_ok Y (h\<lparr>h_scan_suppressed := v34\<rparr>) = handler_ok Y h"
  "handler_ok Y (h\<lparr>h_link_sniffing := v35\<rparr>) = handler_ok Y h"
  "handler_ok Y (h\<lparr>h_console_full_reports := v36\<rparr>) = handler_ok Y h"
  "handler_ok Y (h\<lparr>h_sdp_answer_cache := v37\<rparr>) = handler_ok Y h"
  "handler_ok Y (h\<lparr>h_spoof_addr := v38\<rparr>) = handler_ok Y h"
  "handler_ok Y (h\<lparr>h_bd_addr_confirmed := v39\<rparr>) = handler_ok Y h"
  "handler_ok Y (h\<lparr>h_link_peer_addr := v40\<rparr>) = handler_ok Y h"
  "handler_ok Y (h\<lparr>h_console_addr := v41\<rparr>) = handler_ok Y h"
  "handler_ok Y (h\<lparr>h_console_link_key := v42\<rparr>) = handler_ok Y h"
  "handler_ok Y (h\<lparr>h_console_pairing_seen := v43\<rparr>) = handler_ok Y h"
  "handler_ok Y (h\<lparr>h_local_addr := v44\<rparr>) = handler_ok Y h"
  "handler_ok Y (h\<lparr>h_link_key := v45\<rparr>) = handler_ok Y h"
  "handler_ok Y (h\<lparr>h_negotiated_link_key := v46\<rparr>) = handler_ok Y h"
  by (simp_all add: handler_ok_def)

lemma reconnects_simps [simp]:
  "reconnects s [] = 0"
  "reconnects s (a @ b) = reconnects s a + reconnects s b"
  "reconnects s ((d, s', t) # ts) = (if s' = s \<and> t = TReconnect then 1 else 0) + reconnects s ts"
  by (simp_all add: reconnects_def)

lemma trace_ok_simps [simp]:
  "trace_ok []"
  "trace_ok (a @ b) \<longleftrightarrow> trace_ok a \<and> trace_ok b"
  "trace_ok [(s, e)] \<longleftrightarrow> (\<forall>f. e = AclWrite f \<longrightarrow> frame_ok f)"
  "trace_ok (map (\<lambda>c. (s, HciCmd (cmd_ogf c) (cmd_ocf c) (cmd_param c))) cs)"
  by (auto simp: trace_ok_def)

section \<open>The primitives keep it\<close>

lemma relay_ok_upd [relay_intros]:
  "relay_ok X r \<Longrightarrow> (handler_ok (X `` {s}) (r_h r s) \<Longrightarrow> handler_ok (X `` {s}) (f (r_h r s))) \<Longrightarrow>
    h_reconnect_pending (f (r_h r s)) = h_reconnect_pending (r_h r s) \<Longrightarrow> relay_ok X (upd s f r)"
  by (simp add: relay_ok_def tasks_ok_def)

lemma relay_ok_emit [relay_intros]:
  "relay_ok X r \<Longrightarrow> (\<And>f. e = AclWrite f \<Longrightarrow> frame_ok f) \<Longrightarrow> relay_ok X (emit s e r)"
  by (simp add: relay_ok_def tasks_ok_def)

lemma relay_ok_spawn [relay_intros]:
  "relay_ok X r \<Longrightarrow> t \<noteq> TReconnect \<Longrightarrow> relay_ok X (spawn s d t r)"
  by (simp add: relay_ok_def tasks_ok_def)

lemma relay_ok_io [simp]: "relay_ok X (r\<lparr>r_io := n\<rparr>) = relay_ok X r"
  by (simp add: relay_ok_def tasks_ok_def)

lemma relay_ok_battery [simp]: "relay_ok X (r\<lparr>r_battery := b\<rparr>) = relay_ok X r"
  by (simp add: relay_ok_def tasks_ok_def)

lemma relay_ok_now [simp]: "relay_ok X (r\<lparr>r_now := n\<rparr>) = relay_ok X r"
  by (simp add: relay_ok_def tasks_ok_def)

lemma relay_ok_pump [relay_intros]: "relay_ok X r \<Longrightarrow> relay_ok X (pump_commands E s r)"
proof -
  assume "relay_ok X r"
  then have "relay_ok X (upd s (\<lambda>h. h\<lparr>h_cmd_queue := q\<rparr>) r)" for q
    by (intro relay_intros) simp_all
  then show ?thesis
    by (simp add: pump_commands_def Let_def relay_ok_def tasks_ok_def)
qed

lemma relay_ok_send_cmd [relay_intros]: "relay_ok X r \<Longrightarrow> relay_ok X (send_cmd E s ogf ocf p r)"
  by (simp add: send_cmd_def Let_def relay_intros)

lemma handler_ok_on_sent:
  "handler_ok Y h \<Longrightarrow> handler_ok Y (h\<lparr>h_acl := AclFlowControl_on_sent n (h_acl h)\<rparr>)"
  by (simp add: handler_ok_def fc_ok_ops)

lemma frame_ok_acl:
  "9 + length payload \<le> 4096 \<Longrightarrow> frame_ok (acl_frame handle cid payload)"
  by (auto simp: frame_ok_def acl_frame_def WRITE_BUFFER_SIZE_def)

lemma relay_ok_send_frame [relay_intros]:
  "relay_ok X r \<Longrightarrow> relay_ok X (l2cap_send_frame E s cid p d r)"
  by (auto simp: l2cap_send_frame_def Let_def consts_def
      intro!: relay_intros handler_ok_on_sent frame_ok_acl)

section \<open>Every operation keeps it\<close>

lemmas cmd_defs = write_simple_pairing_enabled_def write_auth_enabled_def write_event_mask_def
  write_class_of_device_def write_extended_inquiry_result_def write_page_timeout_def
  write_page_scan_activity_def write_default_link_policy_def write_scan_enable_def
  read_bd_addr_def read_buffer_size_def request_central_role_def request_authentication_def
  request_encryption_def

lemma relay_ok_commands [relay_intros]:
  assumes "relay_ok X r"
  shows "relay_ok X (write_simple_pairing_enabled E s r)" "relay_ok X (write_auth_enabled E s r)"
    "relay_ok X (write_event_mask E s r)" "relay_ok X (write_class_of_device E s c r)"
    "relay_ok X (write_extended_inquiry_result E s d r)" "relay_ok X (write_page_timeout E s n r)"
    "relay_ok X (write_page_scan_activity E s n m r)" "relay_ok X (write_default_link_policy E s n r)"
    "relay_ok X (write_scan_enable E s b r)" "relay_ok X (read_bd_addr E s r)"
    "relay_ok X (read_buffer_size E s r)" "relay_ok X (request_central_role E s a r)"
    "relay_ok X (request_authentication E s n r)" "relay_ok X (request_encryption E s n r)"
    "relay_ok X (set_suppress s q r)"
  using assms by (simp_all add: cmd_defs set_suppress_def relay_intros)

lemma relay_ok_fold:
  "relay_ok X r \<Longrightarrow> (\<And>x r. relay_ok X r \<Longrightarrow> relay_ok X (f x r)) \<Longrightarrow> relay_ok X (fold f xs r)"
  by (induction xs arbitrary: r) simp_all

lemma relay_ok_settings [relay_intros]:
  assumes "relay_ok X r"
  shows "relay_ok X (read_radio_quality E s r)" "relay_ok X (spoof_bd_addr E s a r)"
    "relay_ok X (watch_commands E s r)" "relay_ok X (publish_stage s r)"
    "relay_ok X (disconnect_link E s r)" "relay_ok X (send_connection_request E s a r)"
    "relay_ok X (release_commands E s r)"
  using assms
  by (auto simp: read_radio_quality_def spoof_bd_addr_def watch_commands_def publish_stage_def
      disconnect_link_def send_connection_request_def release_commands_def Let_def
      intro!: relay_intros relay_ok_fold split: option.split)

lemma relay_ok_identity [relay_intros]:
  "relay_ok X r \<Longrightarrow> relay_ok X (apply_console_side_identity E s r)"
  by (auto simp: apply_console_side_identity_def Let_def intro!: relay_intros)

lemma relay_ok_side_settings [relay_intros]:
  "relay_ok X r \<Longrightarrow> relay_ok X (apply_side_settings E s r)"
  by (auto simp: apply_side_settings_def Let_def intro!: relay_intros)

lemma relay_ok_await_reset [relay_intros]:
  "relay_ok X r \<Longrightarrow> relay_ok X (snd (await_reset E s ps r))"
  by (induction ps) (auto intro!: relay_intros)

lemma relay_ok_reset [relay_intros]: "relay_ok X r \<Longrightarrow> relay_ok X (snd (reset_controller E s ps r))"
  by (auto simp: reset_controller_def Let_def intro!: relay_intros)

lemma relay_ok_l2cap_send [relay_intros]:
  assumes "relay_ok X r"
  shows "relay_ok X (l2cap_send_framed E s ch p d r)" "relay_ok X (l2cap_send_data E s ch d r)"
    "relay_ok X (l2cap_send_hid E s ch b d r)" "relay_ok X (l2cap_send_cmd E s i c d r)"
    "relay_ok X (l2cap_send_cmd_request E s c d r)" "relay_ok X (l2cap_send_cmd_response E s i c d r)"
    "relay_ok X (l2cap_send_conn_request E s psm scid r)"
    "relay_ok X (l2cap_send_configure_mtu_request E s dcid mtu r)" "relay_ok X (open_channel E s ch r)"
  using assms
  by (auto simp: l2cap_send_framed_def l2cap_send_data_def l2cap_send_hid_def l2cap_send_cmd_def
      l2cap_send_cmd_request_def l2cap_send_cmd_response_def l2cap_send_conn_request_def
      l2cap_send_configure_mtu_request_def open_channel_def Let_def intro!: relay_intros)

lemma handler_ok_output_seq:
  "handler_ok Y h \<Longrightarrow> handler_ok Y (h\<lparr>h_output_seq := x AND 0x0f\<rparr>)"
proof -
  have "x AND 0x0f < (16 :: byte)"
    using and_mask_less' [of 4 x] by (simp add: mask_eq_exp_minus_1)
  then show "handler_ok Y h \<Longrightarrow> ?thesis" by (simp add: handler_ok_def)
qed

lemma relay_ok_pad_backend [relay_intros]:
  assumes "relay_ok X r"
  shows "relay_ok X (l2cap_get_report E s i r)" "relay_ok X (l2cap_send_hid_feature_set E s d r)"
    "relay_ok X (l2cap_send_output_report E s d r)" "relay_ok X (take_pairing_set s d r)"
  using assms
  by (auto simp: l2cap_get_report_def l2cap_send_hid_feature_set_def l2cap_send_output_report_def
      take_pairing_set_def Let_def intro!: relay_intros handler_ok_output_seq split: option.split)

lemma relay_ok_feature_set [relay_intros]:
  "relay_ok X r \<Longrightarrow> relay_ok X (l2cap_send_feature_set E s d r)"
  by (auto simp: l2cap_send_feature_set_def Let_def intro!: relay_intros)

lemma relay_ok_handover [relay_intros]:
  assumes "relay_ok X r"
  shows "relay_ok X (connect_to_console E s a k r)" "relay_ok X (end_handover_paging E s r)"
    "relay_ok X (quiet_the_radio E s r)"
  using assms
  by (auto simp: connect_to_console_def end_handover_paging_def quiet_the_radio_def Let_def
      intro!: relay_intros)

lemma handler_ok_gadget:
  "handler_ok Y h \<Longrightarrow> usb_wf u \<Longrightarrow> handler_ok Y (h\<lparr>h_gadget := u\<rparr>)"
  by (simp add: handler_ok_def)

lemma handler_ok_wf: "handler_ok Y h \<Longrightarrow> usb_wf (h_gadget h)"
  by (simp add: handler_ok_def)

lemma relay_ok_run_handover [relay_intros]: "relay_ok X r \<Longrightarrow> relay_ok X (run_handover E s r)"
  by (auto simp: run_handover_def Let_def disable_gadget_wf handler_ok_wf
      intro!: relay_intros handler_ok_gadget split: option.split)

lemma relay_ok_sdp [relay_intros]:
  assumes "relay_ok X r"
  shows "relay_ok X (handle_sdp_answer_from_pad E s p r)" "relay_ok X (handle_sdp_request E s p r)"
    "pred_option (relay_ok X) (handle_sdp_query E s p r)"
  using assms
  by (auto simp: handle_sdp_answer_from_pad_def handle_sdp_request_def handle_sdp_query_def Let_def
      intro!: relay_intros split: option.splits if_splits)

lemma relay_ok_has_room [relay_intros]: "relay_ok X r \<Longrightarrow> relay_ok X (snd (has_room s r))"
  by (auto simp: has_room_def Let_def handler_ok_def fc_ok_ops intro!: relay_intros)

lemma handler_ok_held:
  "handler_ok Y h \<Longrightarrow> handler_ok Y (h\<lparr>h_held := HeldFrame_store p (h_held h)\<rparr>)"
  "handler_ok Y h \<Longrightarrow> handler_ok Y (h\<lparr>h_held := HeldFrame_clear (h_held h)\<rparr>)"
  by (simp_all add: handler_ok_def slot.invar_store slot.invar_clear)

lemma handler_ok_held_seen:
  "handler_ok Y h \<Longrightarrow> handler_ok Y (h\<lparr>h_console_input_backpressure := n, h_held := HeldFrame_store p (h_held h)\<rparr>)"
  using handler_ok_held(1) [of Y "h\<lparr>h_console_input_backpressure := n\<rparr>" p] by simp

lemma relay_ok_features [relay_intros]:
  assumes "relay_ok X r"
  shows "pred_option (relay_ok X) (handle_feature_answer_from_pad E s p r)"
    "relay_ok X (handle_feature_request_from_console E s p r)"
  using assms
  by (auto simp: handle_feature_answer_from_pad_def handle_feature_request_from_console_def Let_def
      handler_ok_wf on_feature_report_wf intro!: relay_intros handler_ok_gadget
      split: option.split)

lemma relay_ok_output [relay_intros]:
  assumes "relay_ok X r"
  shows "relay_ok X (note_handover_target s p r)" "relay_ok X (relay_console_output_to_pad E s p r)"
proof -
  have note_ok: "relay_ok X (note_handover_target s p r)" if "relay_ok X r" for r
    using that by (auto simp: note_handover_target_def Let_def intro!: relay_intros)
  show "relay_ok X (note_handover_target s p r)" by (rule note_ok [OF assms])
  show "relay_ok X (relay_console_output_to_pad E s p r)"
    using assms
    by (auto simp: relay_console_output_to_pad_def Let_def intro!: relay_intros note_ok
        split: option.split)
qed

lemma relay_ok_input_side [relay_intros]:
  assumes "relay_ok X r"
  shows "relay_ok X (log_pad_battery s p r)" "relay_ok X (publish_input E s p r)"
    "relay_ok X (relay_pad_input_to_usb E s p r)" "relay_ok X (note_input_sent s r)"
  using assms
  by (auto simp: log_pad_battery_def publish_input_def relay_pad_input_to_usb_def note_input_sent_def
      Let_def handler_ok_wf send_input_wf intro!: relay_intros handler_ok_gadget
      split: option.split)

lemma relay_ok_send_report [relay_intros]:
  "relay_ok X r \<Longrightarrow> pred_option (relay_ok X) (send_report_to_console E s p r)"
  by (auto simp: send_report_to_console_def send_full_report_to_console_def
      send_cut_down_report_to_console_def intro!: relay_intros split: option.split)

lemma relay_ok_input_to_console [relay_intros]:
  "relay_ok X r \<Longrightarrow> pred_option (relay_ok X) (relay_pad_input_to_console E s p r)"
  by (auto simp: relay_pad_input_to_console_def Let_def
      intro!: relay_intros handler_ok_held handler_ok_held_seen split: option.split)

lemma relay_ok_input [relay_intros]:
  "relay_ok X r \<Longrightarrow> pred_option (relay_ok X) (relay_pad_input E s p r)"
  by (auto simp: relay_pad_input_def Let_def intro!: relay_intros)

lemma relay_ok_flush [relay_intros]:
  "relay_ok X r \<Longrightarrow> pred_option (relay_ok X) (flush_held_report E s r)"
  by (auto simp: flush_held_report_def Let_def intro!: relay_intros handler_ok_held)

lemma relay_ok_start_usb [relay_intros]:
  assumes "relay_ok X r"
  shows "relay_ok X (start_usb_gadget E s r)" "relay_ok X (start_usb_gadget2 udc bind s r)"
proof -
  have "handler_ok Y (h\<lparr>h_usb_started := x, h_gadget := snd (enable_gadget udc bind (h_gadget h))\<rparr>)"
    if "handler_ok Y h" for Y h x
    using that handler_ok_gadget [of Y "h\<lparr>h_usb_started := x\<rparr>"]
    by (simp add: enable_gadget_wf handler_ok_wf)
  then show "relay_ok X (start_usb_gadget E s r)" "relay_ok X (start_usb_gadget2 udc bind s r)"
    using assms
    by (auto simp: start_usb_gadget_def start_usb_gadget2_def Let_def intro!: relay_intros)
qed

section \<open>Reception keeps it\<close>

lemma relay_ok_set_dcid [relay_intros]: "relay_ok X r \<Longrightarrow> relay_ok X (set_dcid s ch d r)"
  by (auto simp: set_dcid_def intro!: relay_intros)

lemma relay_ok_signalling [relay_intros]:
  assumes "relay_ok X r"
  shows "relay_ok X (handle_conn_response E s pc r)" "relay_ok X (handle_conf_response E s pc r)"
    "relay_ok X (conf_chain E s ch r)" "relay_ok X (handle_conn_req E s i pc r)"
    "relay_ok X (handle_disconn_req E s i pc r)"
  using assms
  by (auto simp: handle_conn_response_def handle_conf_response_def conf_chain_def handle_conn_req_def
      handle_disconn_req_def Let_def intro!: relay_intros split: option.split)

lemma relay_ok_conf_request [relay_intros]:
  "relay_ok X r \<Longrightarrow> relay_ok X (handle_conf_request E s pc r)"
  by (auto simp: handle_conf_request_def Let_def intro!: relay_intros split: option.split prod.split)

lemma relay_ok_l2cap_cmd [relay_intros]: "relay_ok X r \<Longrightarrow> relay_ok X (handle_l2cap_cmd E s pc r)"
  by (auto simp: handle_l2cap_cmd_def Let_def intro!: relay_intros split: option.split prod.split)

lemma relay_ok_route [relay_intros]:
  assumes "relay_ok X r"
  shows "pred_option (relay_ok X) (route_l2cap_pdu E s pdu r)"
proof -
  have "pred_option (relay_ok X) (route_payload E s cid p r)" for cid p
    using assms by (auto simp: route_payload_def intro!: relay_intros)
  with assms show ?thesis
    by (auto simp: route_l2cap_pdu_def Let_def intro!: relay_intros split: option.split prod.split)
qed

lemma relay_ok_set_reasm_None [relay_intros]: "relay_ok X r \<Longrightarrow> relay_ok X (set_reasm s handle None r)"
  by (auto simp: set_reasm_def handler_ok_def reasm_ok_def intro!: relay_intros)

lemma relay_ok_set_reasm:
  "relay_ok X r \<Longrightarrow> 4 \<le> length buf \<Longrightarrow> length buf < expected \<Longrightarrow> expected = 4 + unat (le16_at buf 0) \<Longrightarrow>
    relay_ok X (set_reasm s handle (Some (buf, expected)) r)"
  by (auto simp: set_reasm_def handler_ok_def reasm_ok_def intro!: relay_intros)

lemma relay_ok_exempt:
  "relay_ok {} r \<Longrightarrow> relay_ok {(s, Some handle)} (set_reasm s handle x r)"
  by (auto simp: relay_ok_def tasks_ok_def set_reasm_def handler_ok_def reasm_ok_def)

lemma relay_ok_erase:
  assumes "relay_ok {(s, Some handle)} r"
  shows "relay_ok {} (set_reasm s handle None r)"
proof -
  have img: "{(s, Some handle)} `` {s'} = (if s' = s then {Some handle} else {})" for s'
    by auto
  have ok: "handler_ok (if s' = s then {Some handle} else {}) (r_h r s')" for s'
    using assms unfolding relay_ok_def img by blast
  have "handler_ok {} (r_h (set_reasm s handle None r) s')" for s'
  proof (cases "s' = s")
    case True
    then show ?thesis using ok [of s] by (simp add: set_reasm_def handler_ok_def reasm_ok_def)
  next
    case False
    then show ?thesis using ok [of s'] by (simp add: set_reasm_def)
  qed
  with assms show ?thesis
    by (simp add: relay_ok_def tasks_ok_def set_reasm_def)
qed

lemma reasm_entry:
  "relay_ok {} r \<Longrightarrow> h_acl_reasm (r_h r s) handle = Some (buf, expected) \<Longrightarrow>
    4 \<le> length buf \<and> length buf < expected \<and> expected = 4 + unat (le16_at buf 0)"
  by (auto simp: relay_ok_def handler_ok_def reasm_ok_def)

lemma relay_ok_acl_continue [relay_intros]:
  assumes "relay_ok {} r"
  shows "pred_option (relay_ok {}) (acl_continue E s handle p r)"
proof (cases "h_acl_reasm (r_h r s) handle")
  case None
  with assms show ?thesis by (simp add: acl_continue_def)
next
  case (Some x)
  obtain buf expected where x: "x = (buf, expected)" by (cases x)
  note entry = reasm_entry [OF assms, of s handle, unfolded Some x, OF refl]
  let ?r = "set_reasm s handle (Some (buf @ p, expected)) r"
  have "relay_ok {} ?r" if "length (buf @ p) < expected"
    using assms that entry by (intro relay_ok_set_reasm) (auto simp: nth_append)
  moreover have "pred_option (relay_ok {(s, Some handle)}) (route_l2cap_pdu E s pdu ?r)" for pdu
    by (intro relay_intros relay_ok_exempt assms)
  ultimately show ?thesis
    by (auto simp: acl_continue_def Some x Let_def option.pred_map comp_def
        intro: relay_ok_erase option.pred_mono_strong)
qed

lemma relay_ok_acl_start [relay_intros]:
  "relay_ok {} r \<Longrightarrow> pred_option (relay_ok {}) (acl_start E s handle p r)"
  by (auto simp: acl_start_def Let_def intro!: relay_intros relay_ok_set_reasm)

lemma relay_ok_close_ghost [relay_intros]: "relay_ok X r \<Longrightarrow> relay_ok X (close_ghost E s handle r)"
  by (auto simp: close_ghost_def handler_ok_def distinct_insort intro!: relay_intros)

lemma relay_ok_acl [relay_intros]: "relay_ok {} r \<Longrightarrow> pred_option (relay_ok {}) (handle_acl E s pc r)"
  by (auto simp: handle_acl_def Let_def intro!: relay_intros split: option.split prod.split)

section \<open>Events keep it\<close>

lemma relay_ok_schedule [relay_intros]: "relay_ok X r \<Longrightarrow> relay_ok X (schedule_reconnect s d r)"
  by (auto simp: schedule_reconnect_def relay_ok_def tasks_ok_def)

lemma relay_ok_reset_channels [relay_intros]: "relay_ok X r \<Longrightarrow> relay_ok X (reset_channels s r)"
  by (auto simp: reset_channels_def intro!: relay_intros)

lemma relay_ok_failure [relay_intros]:
  assumes "relay_ok X r"
  shows "relay_ok X (console_page_failed E s b r)" "relay_ok X (handle_connection_failure E s b a r)"
  using assms
  by (auto simp: console_page_failed_def handle_connection_failure_def Let_def intro!: relay_intros)

lemma sorted_handle_insert:
  "sorted xs \<Longrightarrow> distinct xs \<Longrightarrow> sorted (handle_insert n xs) \<and> distinct (handle_insert n xs)"
  by (auto simp: handle_insert_def sorted_insort distinct_insort)

lemma set_handle_insert [simp]: "set (handle_insert n xs) = insert n (set xs)"
  by (auto simp: handle_insert_def set_insort_key)

lemma handler_ok_take:
  "handler_ok Y h \<Longrightarrow> handler_ok Y (h\<lparr>h_connection_handle := n, h_link_peer_addr := a,
    h_open_handles := handle_insert n (h_open_handles h), h_page_failures := 0\<rparr>)"
  by (simp add: handler_ok_def sorted_handle_insert)

lemma relay_ok_take_link [relay_intros]: "relay_ok X r \<Longrightarrow> relay_ok X (take_link E s n a r)"
  by (auto simp: take_link_def Let_def intro!: relay_intros handler_ok_take)

lemma relay_ok_conn_complete [relay_intros]:
  "relay_ok X r \<Longrightarrow> relay_ok X (handle_connection_complete E s pc r)"
  by (auto simp: handle_connection_complete_def Let_def intro!: relay_intros split: option.split)

lemma handler_ok_forget:
  "handler_ok Y h \<Longrightarrow> handler_ok (insert None Y) (h\<lparr>h_open_handles := removeAll handle (h_open_handles h),
    h_acl := AclFlowControl_on_disconnect handle (h_acl h),
    h_ghost_handles := removeAll handle (h_ghost_handles h),
    h_acl_reasm := (h_acl_reasm h)(handle := None)\<rparr>)"
  by (auto simp: handler_ok_def reasm_ok_def fc_ok_on_disconnect distinct_removeAll
      sorted_wrt_filter removeAll_filter_not_eq)

end
