(* ===== verification/RelayStep.thy ===== *)
theory RelayStep
  imports RelayInv
begin

unbundle bit_operations_syntax

text \<open>
  The rest of the invariance proof: the events of the controller, the timers, the gadget, and
  the steps of the whole program.
\<close>

section \<open>Links going down\<close>

lemma relay_ok_weaken: "relay_ok X r \<Longrightarrow> X \<subseteq> X' \<Longrightarrow> relay_ok X' r"
  unfolding relay_ok_def handler_ok_def reasm_ok_def by blast

lemma relay_ok_forget:
  assumes "relay_ok {} r"
  shows "relay_ok {(s, None)} (forget_handle s handle r)"
  unfolding forget_handle_def
proof (rule relay_ok_upd)
  show "relay_ok {(s, None)} r" using assms by (rule relay_ok_weaken) simp
  have "{(s, None)} `` {s} = insert (None :: u16 option) {}" by auto
  moreover have "handler_ok {} (r_h r s)" using assms by (simp add: relay_ok_def)
  ultimately show "handler_ok ({(s, None)} `` {s}) ((r_h r s)\<lparr>
      h_open_handles := removeAll handle (h_open_handles (r_h r s)),
      h_acl := AclFlowControl_on_disconnect handle (h_acl (r_h r s)),
      h_ghost_handles := removeAll handle (h_ghost_handles (r_h r s)),
      h_acl_reasm := (h_acl_reasm (r_h r s))(handle := None)\<rparr>)"
    using handler_ok_forget [of "{}" "r_h r s" handle] by simp
qed simp

lemma relay_ok_relink:
  assumes "relay_ok {(s, None)} r"
    and "h_connection_handle (f (r_h r s)) \<noteq> 0 \<longrightarrow>
      h_connection_handle (f (r_h r s)) \<in> set (h_open_handles (f (r_h r s)))"
    and "handler_ok {None} (r_h r s) \<Longrightarrow> handler_ok {None} (f (r_h r s))"
    and "h_reconnect_pending (f (r_h r s)) = h_reconnect_pending (r_h r s)"
  shows "relay_ok {} (upd s f r)"
proof -
  have img: "{(s, None)} `` {s'} = (if s' = s then {None :: u16 option} else {})" for s'
    by auto
  have ok: "handler_ok (if s' = s then {None} else {}) (r_h r s')" for s'
    using assms(1) unfolding relay_ok_def img by blast
  have "handler_ok {} (r_h (upd s f r) s')" for s'
  proof (cases "s' = s")
    case True
    then show ?thesis using ok [of s] assms(2,3) by (simp add: handler_ok_def reasm_ok_def)
  next
    case False
    then show ?thesis using ok [of s'] by simp
  qed
  with assms show ?thesis by (simp add: relay_ok_def tasks_ok_def)
qed

lemma handler_ok_quiet:
  "handler_ok Y h \<Longrightarrow> handler_ok Y (h\<lparr>h_link_sniffing := x, h_held := HeldFrame_clear (h_held h)\<rparr>)"
  using handler_ok_held(2) [of Y "h\<lparr>h_link_sniffing := x\<rparr>"] by simp

lemma relay_ok_if: "relay_ok X a \<Longrightarrow> relay_ok X b \<Longrightarrow> relay_ok X (if c then a else b)"
  by simp

lemma relay_ok_case_option:
  "relay_ok X a \<Longrightarrow> (\<And>q. relay_ok X (f q)) \<Longrightarrow> relay_ok X (case x of None \<Rightarrow> a | Some q \<Rightarrow> f q)"
  by (simp split: option.split)

lemma relay_ok_unlinked:
  assumes "relay_ok {(s, None)} r"
  shows "relay_ok {} (upd s (\<lambda>h. h\<lparr>h_connection_handle := 0, h_incoming_link := False\<rparr>) r)"
  using assms by (rule relay_ok_relink) (simp_all add: handler_ok_def)

lemma relay_ok_link_lost:
  assumes "relay_ok {(s, None)} r"
  shows "relay_ok {} (link_lost E s reason r)"
proof -
  have quiet: "relay_ok {(s, None)}
      (upd s (\<lambda>h. h\<lparr>h_link_sniffing := False, h_held := HeldFrame_clear (h_held h)\<rparr>) r)"
    using assms by (rule relay_ok_upd) (simp_all add: handler_ok_quiet)
  have play: "relay_ok {(s, None)} (upd s (\<lambda>h. h\<lparr>h_on_play_link := False\<rparr>) r)"
    if "relay_ok {(s, None)} r" for r
    using that by (rule relay_ok_upd) simp_all
  show ?thesis
    unfolding link_lost_def Let_def
    by (intro relay_ok_if relay_ok_schedule relay_ok_reset_channels relay_ok_unlinked
        relay_ok_commands play quiet)
qed

lemma relay_ok_disconnect_complete [relay_intros]:
  assumes "relay_ok {} r"
  shows "relay_ok {} (handle_disconnect_complete E s pc r)"
proof -
  have other_link: "relay_ok {} (forget_handle s handle r)"
    if "handle \<noteq> h_connection_handle (r_h (forget_handle s handle r) s)" for handle
  proof -
    have "h_connection_handle (r_h r s) \<noteq> 0 \<longrightarrow>
        h_connection_handle (r_h r s) \<in> set (h_open_handles (r_h r s))"
      using assms by (simp add: relay_ok_def handler_ok_def)
    then have "relay_ok {} (upd s id (forget_handle s handle r))"
      using that by (intro relay_ok_relink relay_ok_forget assms) (simp_all add: forget_handle_def)
    then show ?thesis by (simp add: upd_def)
  qed
  show ?thesis
  proof (cases "fst (PacketContents_get 4 pc)")
    case None
    with assms show ?thesis by (simp add: handle_disconnect_complete_def)
  next
    case (Some p)
    then show ?thesis
      using other_link [of "le16_at p 1"] relay_ok_link_lost [OF relay_ok_forget [OF assms]]
      by (simp add: handle_disconnect_complete_def Let_def)
  qed
qed

section \<open>The other events\<close>

lemma relay_ok_set:
  assumes "relay_ok X r" "\<And>Y h. handler_ok Y h \<Longrightarrow> handler_ok Y (f h)"
    "\<And>h. h_reconnect_pending (f h) = h_reconnect_pending h"
  shows "relay_ok X (upd s f r)"
  using assms by (intro relay_ok_upd)

lemma relay_ok_conn_request [relay_intros]:
  assumes "relay_ok X r"
  shows "relay_ok X (handle_conn_request E s pc r)"
  unfolding handle_conn_request_def Let_def
  by (intro relay_ok_case_option relay_ok_if relay_ok_send_cmd relay_ok_set assms) simp_all

lemma relay_ok_pairing_events [relay_intros]:
  assumes "relay_ok X r"
  shows "relay_ok X (handle_link_key_request E s pc r)"
    "relay_ok X (handle_io_capability_request E s pc r)"
    "relay_ok X (handle_user_confirm_request E s pc r)"
  unfolding handle_link_key_request_def handle_io_capability_request_def handle_user_confirm_request_def
  by (intro relay_ok_case_option relay_ok_send_cmd assms)+

lemma relay_ok_link_key_notify [relay_intros]:
  assumes "relay_ok X r"
  shows "relay_ok X (handle_link_key_notify s pc r)"
  unfolding handle_link_key_notify_def Let_def
  by (intro relay_ok_case_option relay_ok_if relay_ok_emit relay_ok_set assms) simp_all

lemma relay_ok_mode_change [relay_intros]:
  assumes "relay_ok X r"
  shows "relay_ok X (handle_mode_change s pc r)"
  unfolding handle_mode_change_def
  by (intro relay_ok_case_option relay_ok_if relay_ok_set assms) simp_all

lemma relay_ok_auth_complete [relay_intros]:
  assumes "relay_ok X r"
  shows "relay_ok X (handle_auth_complete E s pc r)"
  unfolding handle_auth_complete_def Let_def
  by (intro relay_ok_case_option relay_ok_if relay_ok_emit relay_ok_set relay_ok_commands
      relay_ok_l2cap_send assms) simp_all

lemma relay_ok_encrypt_change [relay_intros]:
  assumes "relay_ok X r"
  shows "relay_ok X (handle_encrypt_change E s pc r)"
  unfolding handle_encrypt_change_def Let_def
  by (intro relay_ok_case_option relay_ok_if relay_ok_commands relay_ok_l2cap_send assms)

lemma relay_ok_answered [relay_intros]: "relay_ok X r \<Longrightarrow> relay_ok X (commands_answered E s n r)"
  by (simp add: commands_answered_def relay_intros)

lemma relay_ok_sweep [relay_intros]: "relay_ok X r \<Longrightarrow> relay_ok X (sweep_stale_links E s r)"
proof -
  assume "relay_ok X r"
  then have "relay_ok X (upd s (\<lambda>h. h\<lparr>h_stale_link_reset := True, h_suppress_cmd_errors := True\<rparr>) r)"
    by (rule relay_ok_upd) simp_all
  then have "relay_ok X (fold (\<lambda>handle. send_cmd E s OGF_LINK_CTL OCF_DISCONNECT (disconnect_cp (of_nat handle)))
      [1 ..< 13] (upd s (\<lambda>h. h\<lparr>h_stale_link_reset := True, h_suppress_cmd_errors := True\<rparr>) r))"
    by (rule relay_ok_fold) (rule relay_ok_send_cmd)
  then show ?thesis
    unfolding sweep_stale_links_def Let_def
    by (rule relay_ok_schedule [OF relay_ok_spawn]) simp
qed

lemma relay_ok_cmd_status [relay_intros]: "relay_ok X r \<Longrightarrow> relay_ok X (handle_cmd_status E s pc r)"
  by (auto simp: handle_cmd_status_def Let_def intro!: relay_intros split: option.split)

lemma handler_ok_max_packets:
  "handler_ok Y h \<Longrightarrow> handler_ok Y (h\<lparr>h_acl := AclFlowControl_set_max_packets n (h_acl h)\<rparr>)"
  by (simp add: handler_ok_def fc_ok_ops)

lemma relay_ok_cmd_complete [relay_intros]:
  assumes "relay_ok X r"
  shows "relay_ok X (handle_cmd_complete E s pc r)"
proof -
  obtain p pc' where get: "PacketContents_get 3 pc = (p, pc')" by (cases "PacketContents_get 3 pc")
  show ?thesis
  proof (cases p)
    case None
    with assms get show ?thesis by (simp add: handle_cmd_complete_def)
  next
    case (Some q)
    show ?thesis
      unfolding handle_cmd_complete_def get Some Let_def prod.case option.case
      by (intro relay_ok_if relay_ok_case_option relay_ok_set relay_ok_answered assms)
        (simp_all add: handler_ok_max_packets)
  qed
qed

lemma relay_ok_completed [relay_intros]: "relay_ok X r \<Longrightarrow> relay_ok X (apply_completed s p r)"
  by (auto simp: apply_completed_def handler_ok_def fc_ok_on_completed intro!: relay_intros)

lemma relay_ok_num_completed [relay_intros]:
  "relay_ok X r \<Longrightarrow> pred_option (relay_ok X) (handle_num_completed_packets E s pc n r)"
  by (auto simp: handle_num_completed_packets_def intro!: relay_intros relay_ok_fold split: option.split)

lemma relay_ok_event [relay_intros]:
  "relay_ok {} r \<Longrightarrow> pred_option (relay_ok {}) (handle_event E s pc r)"
  by (auto simp: handle_event_def Let_def intro!: relay_intros split: option.split prod.split)

lemma relay_ok_packet [relay_intros]:
  "relay_ok {} r \<Longrightarrow> pred_option (relay_ok {}) (handle_bluetooth_data E s p r)"
  by (auto simp: handle_bluetooth_data_def intro!: relay_intros split: option.split prod.split)

section \<open>Timers\<close>

lemma relay_ok_drop_task:
  assumes "relay_ok X r" "r_tasks r = before @ (due, s, t) # after" "t \<noteq> TReconnect"
  shows "relay_ok X (r\<lparr>r_tasks := before @ after\<rparr>)"
  using assms by (auto simp: relay_ok_def tasks_ok_def)

lemma relay_ok_reconnect_task:
  assumes "relay_ok X r" "r_tasks r = before @ (due, s, TReconnect) # after"
  shows "relay_ok X (reconnect_now E s (r\<lparr>r_tasks := before @ after\<rparr>))"
proof -
  have ok: "handler_ok (X `` {s'}) (r_h r s')" "trace_ok (r_trace r)"
    "reconnects s' (r_tasks r) = (if h_reconnect_pending (r_h r s') then 1 else 0)" for s'
    using assms(1) by (simp_all add: relay_ok_def tasks_ok_def)
  have "reconnects s' (before @ after) =
      (if h_reconnect_pending (r_h r s') \<and> s' \<noteq> s then 1 else 0)" for s'
    using ok(3) [of s'] assms(2) by (auto split: if_splits)
  then have "relay_ok X (upd s (\<lambda>h. h\<lparr>h_reconnect_pending := False\<rparr>) (r\<lparr>r_tasks := before @ after\<rparr>))"
    using ok by (simp add: relay_ok_def tasks_ok_def)
  then show ?thesis
    unfolding reconnect_now_def Let_def by (intro relay_ok_if relay_ok_settings)
qed

lemma relay_ok_run_task:
  assumes "relay_ok X r" "r_tasks r = before @ (due, s, t) # after"
  shows "relay_ok X (run_task E udc bind s t (r\<lparr>r_tasks := before @ after\<rparr>))"
proof (cases "t = TReconnect")
  case True
  with assms show ?thesis by (simp add: relay_ok_reconnect_task)
next
  case False
  have dropped: "relay_ok X (r\<lparr>r_tasks := before @ after\<rparr>)"
    using assms False by (rule relay_ok_drop_task)
  show ?thesis
  proof (cases t)
    case (TInterruptFallback link)
    then show ?thesis
      unfolding TInterruptFallback run_task.simps
      by (intro relay_ok_if relay_ok_l2cap_send dropped)
  qed (use False dropped in \<open>auto intro!: relay_intros\<close>)
qed

section \<open>The pad as the gadget sees it\<close>

text \<open>
  \<^verbatim>\<open>IPadBackend\<close>: the gadget hands the pad's implementation three calls. All it relies on is
  that each keeps what the implementation needs to hold between calls; then any batch of
  calls does.
\<close>

locale pad_backend =
  fixes ok :: "'s \<Rightarrow> bool"
    and send_output :: "bytes \<Rightarrow> 's \<Rightarrow> 's"
    and get_report :: "byte \<Rightarrow> 's \<Rightarrow> 's"
    and feature_set :: "bytes \<Rightarrow> 's \<Rightarrow> 's"
  assumes ok_send_output: "ok r \<Longrightarrow> ok (send_output d r)"
    and ok_get_report: "ok r \<Longrightarrow> ok (get_report i r)"
    and ok_feature_set: "ok r \<Longrightarrow> ok (feature_set d r)"
begin

definition call :: "pad_call \<Rightarrow> 's \<Rightarrow> 's" where
  "call c = (case c of PadSendOutput d \<Rightarrow> send_output d | PadGetReport i \<Rightarrow> get_report i
    | PadFeatureSet d \<Rightarrow> feature_set d)"

lemma ok_calls: "ok r \<Longrightarrow> ok (fold call cs r)"
  by (induction cs arbitrary: r)
    (auto simp: call_def ok_send_output ok_get_report ok_feature_set split: pad_call.split)

end

interpretation bt: pad_backend "relay_ok X" "l2cap_send_output_report E s" "l2cap_get_report E s"
    "l2cap_send_feature_set E s" for X E s
  by unfold_locales (auto intro: relay_intros)

lemma pad_call_is_backend: "pad_call E s = bt.call E s"
proof
  fix c
  show "pad_call E s c = bt.call E s c" by (cases c) (simp_all add: bt.call_def)
qed

lemma gadget_step_wf: "usb_wf u \<Longrightarrow> usb_wf (fst (gadget_step E now g u))"
  by (cases g) (simp_all add: handle_events_wf get_report_timed_out_wf on_input_done_wf on_output_done_wf)

lemma relay_ok_gadget:
  assumes "relay_ok X r"
  shows "relay_ok X (run_gadget E g r)"
proof -
  let ?x = "gadget_step E (r_now r) g (h_gadget (r_h r to_dualsense))"
  have "relay_ok X (upd to_dualsense (\<lambda>h. h\<lparr>h_gadget := fst ?x\<rparr>) r)"
    using assms
    by (rule relay_ok_upd) (auto intro!: handler_ok_gadget gadget_step_wf dest: handler_ok_wf)
  then show ?thesis
    unfolding run_gadget_def Let_def pad_call_is_backend by (rule bt.ok_calls)
qed

section \<open>The program\<close>

lemma relay_step_ok: "relay_step E r r' \<Longrightarrow> relay_ok {} r \<Longrightarrow> relay_ok {} r'"
proof (induction rule: relay_step.induct)
  case (packet p s r r')
  then show ?case using relay_ok_packet [of r E s p] by simp
next
  case (task r before due s t after udc bind)
  then show ?case by (simp add: relay_ok_run_task)
next
  case (shutdown r s)
  then show ?case by (rule relay_ok_settings)
qed (simp_all add: relay_ok_gadget)

lemma handler_ok_start:
  "usb_wf u \<Longrightarrow> handler_ok Y (handler_init s now local key u feed)"
  by (auto simp: handler_ok_def handler_init_def fc_ok_init fc_ok_ops reasm_ok_def)

lemma handler_init_reconnect [simp]:
  "\<not> h_reconnect_pending (handler_init s now local key u feed)"
  by (simp add: handler_init_def)

lemma init_gadget_wf: "usb_wf (snd (init_gadget st USBHandler_init))"
  by (simp add: init_gadget_def open_function_def USBHandler_init_def usb_wf_def answers_ok_def
      u_log_def Let_def)

lemma relay_ok_start: "relay_ok {} (relay_start m)"
proof -
  have "usb_wf USBHandler_init" by (simp add: USBHandler_init_def usb_wf_def answers_ok_def)
  note ok = handler_ok_start [OF this] handler_ok_start [OF init_gadget_wf]
  have "handler_ok {} (r_h (relay_start m) s) \<and> \<not> h_reconnect_pending (r_h (relay_start m) s)" for s
    using ok
    by (cases s; cases "m_console m")
      (auto simp: relay_start_def Let_def with_pairing_def set_console_pairing_def set_spoof_addr_def)
  moreover have "r_tasks (relay_start m) = []" "r_trace (relay_start m) = []"
    by (simp_all add: relay_start_def Let_def)
  ultimately show ?thesis by (simp add: relay_ok_def tasks_ok_def)
qed

lemma relay_ok_start_handler:
  "relay_ok X r \<Longrightarrow> relay_ok X (start_handler E s ps r)"
  unfolding start_handler_def Let_def
  by (intro relay_ok_spawn relay_ok_if relay_ok_settings relay_ok_side_settings relay_ok_commands
      relay_ok_reset) simp_all

lemma relay_ok_run_start: "relay_ok {} (relay_run_start E m packets)"
  unfolding relay_run_start_def Let_def
  by (intro relay_ok_start_handler relay_ok_if relay_ok_start)

lemma reachable_ok: "(relay_step E)\<^sup>*\<^sup>* (relay_run_start E m packets) r \<Longrightarrow> relay_ok {} r"
  by (induction rule: rtranclp_induct) (auto simp: relay_ok_run_start intro: relay_step_ok)

end
