(* ===== verification/SeqLock.thy ===== *)
theory SeqLock
  imports InputFeed
begin

unbundle bit_operations_syntax

text \<open>
  The sequence lock of \<^verbatim>\<open>src/src/input/InputFeed.h\<close> under concurrency: \<^verbatim>\<open>Writer::publish\<close>
  and \<^verbatim>\<open>Writer::publish_link\<close> as the sequence of single stores they perform, and
  \<^verbatim>\<open>Reader::latest\<close> as the sequence of its single loads, interleaved in any way. The
  protected part of the page is a list of cells, each written and read on its own: the 63
  bytes of the body, the time stamp, the report count, and the fields of the link block.

  Two step relations differ only in the order in which the writer's stores reach memory:
  program order, and the order \<^verbatim>\<open>memory_order_relaxed\<close> leaves free, in which two stores to
  different locations may be exchanged.
\<close>

section \<open>Cells and stores\<close>

definition link_cells :: "Link \<Rightarrow> u64 list" where
  "link_cells l = [of_nat (stage_code (l_stage l)), ucast (l_call_attempt l), l_console_sent l,
    l_output_sent l, l_output_dropped l, ucast (l_gap_window l), ucast (l_gap_count l),
    ucast (l_gap_max_us l), of_bool (l_console_live l), ucast (l_link_quality l),
    ucast (l_link_rssi l), ucast (l_afh_channels l), of_bool (l_radio_read l)]"

definition page_cells :: "bytes \<Rightarrow> u64 \<Rightarrow> u64 \<Rightarrow> Link \<Rightarrow> u64 list" where
  "page_cells body mono_ns reports link = map ucast body @ [mono_ns, reports] @ link_cells link"

definition CELLS :: nat where [consts_def]: "CELLS = 78"

datatype store =
    StSeq u64
  | StCell nat u64

fun cell_stores :: "nat \<Rightarrow> u64 list \<Rightarrow> store list" where
  "cell_stores at [] = []"
| "cell_stores at (v # vs) = StCell at v # cell_stores (Suc at) vs"

record page =
  pg_seq :: u64
  pg_cells :: "u64 list"

primrec do_store :: "store \<Rightarrow> page \<Rightarrow> page" where
  "do_store (StSeq v) p = p\<lparr>pg_seq := v\<rparr>"
| "do_store (StCell i v) p = p\<lparr>pg_cells := (pg_cells p)[i := v]\<rparr>"

text \<open>The stores of \<^verbatim>\<open>publish\<close> and of \<^verbatim>\<open>publish_link\<close>, in program order.\<close>

definition publish_stores :: "u64 \<Rightarrow> bytes \<Rightarrow> Link \<Rightarrow> page \<Rightarrow> store list" where
  "publish_stores mono_ns body link p =
    (let seq = pg_seq p; reports = pg_cells p ! 64
     in [StSeq (seq + 1)] @ cell_stores 0 (page_cells body mono_ns (reports + 1) link)
        @ [StSeq (seq + 2)])"

definition publish_link_stores :: "Link \<Rightarrow> page \<Rightarrow> store list" where
  "publish_link_stores link p =
    (let seq = pg_seq p
     in [StSeq (seq + 1)] @ cell_stores 65 (link_cells link) @ [StSeq (seq + 2)])"

text \<open>
  The reader: \<^verbatim>\<open>latest\<close> loads the sequence number, starts over when it is odd, copies the
  cells, loads the number again and starts over when it has changed; sixteen attempts.
\<close>

datatype reader =
    RAttempt nat
  | RCopy nat u64 "u64 list"
  | RDone "u64 list option"

definition next_attempt :: "nat \<Rightarrow> reader" where
  "next_attempt n = (if n + 1 < 16 then RAttempt (n + 1) else RDone None)"

definition reader_load :: "page \<Rightarrow> reader \<Rightarrow> reader" where
  "reader_load p r =
    (case r of
       RAttempt n \<Rightarrow> if pg_seq p AND 1 \<noteq> 0 then next_attempt n else RCopy n (pg_seq p) []
     | RCopy n before acc \<Rightarrow>
         if length acc < CELLS then RCopy n before (acc @ [pg_cells p ! length acc])
         else if pg_seq p = before then RDone (Some acc) else next_attempt n
     | RDone x \<Rightarrow> RDone x)"

section \<open>Interleavings\<close>

text \<open>
  \<open>sl_pending\<close> are the stores of the publication under way that have not reached memory;
  \<open>sl_published\<close> records what each publication is to leave in the cells, the initial
  content first, and \<open>sl_count\<close> counts the stores to the sequence number.
\<close>

record seqlock =
  sl_page :: page
  sl_pending :: "store list"
  sl_reader :: reader
  sl_published :: "u64 list list"
  sl_count :: nat

definition same_location :: "store \<Rightarrow> store \<Rightarrow> bool" where
  "same_location a b \<longleftrightarrow>
    (case (a, b) of (StSeq _, StSeq _) \<Rightarrow> True | (StCell i _, StCell j _) \<Rightarrow> i = j | _ \<Rightarrow> False)"

definition counts :: "store \<Rightarrow> nat" where
  "counts st = (case st of StSeq _ \<Rightarrow> 1 | StCell _ _ \<Rightarrow> 0)"

inductive sl_step :: "bool \<Rightarrow> seqlock \<Rightarrow> seqlock \<Rightarrow> bool" for relaxed where
  begin_publish:
    "sl_pending s = [] \<Longrightarrow> length body = BODY_LEN \<Longrightarrow>
     sl_step relaxed s (s\<lparr>sl_pending := publish_stores mono_ns body link (sl_page s),
       sl_published := sl_published s @
         [page_cells body mono_ns (pg_cells (sl_page s) ! 64 + 1) link]\<rparr>)"
| begin_publish_link:
    "sl_pending s = [] \<Longrightarrow>
     sl_step relaxed s (s\<lparr>sl_pending := publish_link_stores link (sl_page s),
       sl_published := sl_published s @ [take 65 (pg_cells (sl_page s)) @ link_cells link]\<rparr>)"
| store:
    "sl_pending s = before @ st # after \<Longrightarrow>
     (if relaxed then \<forall>b \<in> set before. \<not> same_location b st else before = []) \<Longrightarrow>
     sl_step relaxed s (s\<lparr>sl_pending := before @ after, sl_page := do_store st (sl_page s),
       sl_count := sl_count s + counts st\<rparr>)"
| load:
    "sl_step relaxed s (s\<lparr>sl_reader := reader_load (sl_page s) (sl_reader s)\<rparr>)"

definition sl_start :: seqlock where
  "sl_start = \<lparr>sl_page = \<lparr>pg_seq = 0, pg_cells = replicate CELLS 0\<rparr>, sl_pending = [],
    sl_reader = RAttempt 0, sl_published = [replicate CELLS 0], sl_count = 0\<rparr>"

section \<open>Program order: the invariant\<close>

definition only_cells :: "store list \<Rightarrow> bool" where
  "only_cells = list_all (\<lambda>st. case st of StCell i _ \<Rightarrow> i < CELLS | StSeq _ \<Rightarrow> False)"

definition writer_ok :: "seqlock \<Rightarrow> bool" where
  "writer_ok s \<longleftrightarrow> length (pg_cells (sl_page s)) = CELLS \<and> pg_seq (sl_page s) = of_nat (sl_count s) \<and>
    (let n = sl_count s; cells = pg_cells (sl_page s); pubs = sl_published s
     in even n \<and> sl_pending s = [] \<and> length pubs = n div 2 + 1 \<and> cells = pubs ! (n div 2)
      \<or> even n \<and> length pubs = n div 2 + 2 \<and> cells = pubs ! (n div 2) \<and>
          (\<exists>cs. only_cells cs \<and> sl_pending s = StSeq (of_nat (n + 1)) # cs @ [StSeq (of_nat (n + 2))] \<and>
            pg_cells (fold do_store cs (sl_page s)) = pubs ! (n div 2 + 1))
      \<or> odd n \<and> length pubs = n div 2 + 2 \<and>
          (\<exists>cs. only_cells cs \<and> sl_pending s = cs @ [StSeq (of_nat (n + 1))] \<and>
            pg_cells (fold do_store cs (sl_page s)) = pubs ! (n div 2 + 1)))"

definition reader_ok :: "seqlock \<Rightarrow> bool" where
  "reader_ok s \<longleftrightarrow>
    (case sl_reader s of
       RAttempt _ \<Rightarrow> True
     | RCopy _ before acc \<Rightarrow> length acc \<le> CELLS \<and>
         (\<exists>b. before = of_nat b \<and> even b \<and> b \<le> sl_count s \<and>
           (sl_count s = b \<longrightarrow> acc = take (length acc) (sl_published s ! (b div 2))))
     | RDone None \<Rightarrow> True
     | RDone (Some acc) \<Rightarrow> acc \<in> set (sl_published s))"

lemma fold_do_store_seq [simp]:
  "only_cells cs \<Longrightarrow> pg_seq (fold do_store cs p) = pg_seq p"
  by (induction cs arbitrary: p) (auto simp: only_cells_def split: store.splits)

lemma length_do_store [simp]: "length (pg_cells (do_store st p)) = length (pg_cells p)"
  by (cases st) simp_all

lemma only_cells_cell_stores: "at + length vs \<le> CELLS \<Longrightarrow> only_cells (cell_stores at vs)"
  by (induction at vs rule: cell_stores.induct) (auto simp: only_cells_def)

lemma fold_cell_stores:
  "at + length vs \<le> length (pg_cells p) \<Longrightarrow>
    pg_cells (fold do_store (cell_stores at vs) p) = overwrite at vs (pg_cells p)"
proof (induction at vs arbitrary: p rule: cell_stores.induct)
  case (2 at v vs)
  have "overwrite (Suc at) vs ((pg_cells p)[at := v]) = overwrite at (v # vs) (pg_cells p)"
    using "2.prems"
    by (simp add: overwrite_def take_Suc_conv_app_nth drop_update_cancel take_update_cancel)
  then show ?case using 2 by simp
qed (simp add: overwrite_def)

lemma length_link_cells [simp]: "length (link_cells l) = 13"
  by (simp add: link_cells_def)

lemma overwrite_all: "length src = length buf \<Longrightarrow> overwrite 0 src buf = src"
  by (simp add: overwrite_def)

lemma even_seq:
  assumes "n < 2 ^ 64"
  shows "(of_nat n :: u64) AND 1 = 0 \<longleftrightarrow> even n"
proof -
  have "unat (of_nat n AND 1 :: u64) = n mod 2"
    using assms by (simp add: and_one_eq unat_mod unat_of_nat)
  then show ?thesis by (metis even_iff_mod_2_eq_zero unat_eq_zero)
qed

lemma cells_fold_seq:
  "only_cells cs \<Longrightarrow>
    pg_cells (fold do_store cs (p\<lparr>pg_seq := w\<rparr>)) = pg_cells (fold do_store cs p)"
proof (induction cs arbitrary: p)
  case (Cons st cs)
  then obtain i x where st: "st = StCell i x" by (auto simp: only_cells_def split: store.splits)
  from Cons.IH [of "p\<lparr>pg_cells := (pg_cells p)[i := x]\<rparr>"] Cons.prems st show ?case
    by (cases p) (simp add: only_cells_def)
qed simp

lemma writer_ok_begin:
  assumes "writer_ok s" and "sl_pending s = []" and "only_cells cs"
    and "pg_cells (fold do_store cs ((sl_page s)\<lparr>pg_seq := v\<rparr>)) = target"
    and "pend = StSeq (pg_seq (sl_page s) + 1) # cs @ [StSeq (pg_seq (sl_page s) + 2)]"
  shows "writer_ok (s\<lparr>sl_pending := pend, sl_published := sl_published s @ [target]\<rparr>)"
proof -
  from assms have "even (sl_count s)" "length (sl_published s) = sl_count s div 2 + 1"
    "pg_cells (sl_page s) = sl_published s ! (sl_count s div 2)"
    by (auto simp: writer_ok_def Let_def)
  with assms show ?thesis
    by (auto simp: cells_fold_seq writer_ok_def Let_def nth_append intro!: exI [of _ cs])
qed

lemma writer_ok_step:
  assumes "sl_step False s s'" and "writer_ok s"
  shows "writer_ok s'"
  using assms(1)
proof cases
  case (begin_publish body mono_ns link)
  let ?cells = "page_cells body mono_ns (pg_cells (sl_page s) ! 64 + 1) link"
  have len: "length ?cells = CELLS"
    using begin_publish(3) by (simp add: page_cells_def CELLS_def BODY_LEN_def)
  have "pg_cells (fold do_store (cell_stores 0 ?cells) ((sl_page s)\<lparr>pg_seq := 0\<rparr>)) = ?cells"
    using len assms(2) by (simp add: fold_cell_stores overwrite_all writer_ok_def)
  with begin_publish len assms(2) show ?thesis
    by (auto intro!: writer_ok_begin simp: publish_stores_def Let_def only_cells_cell_stores)
next
  case (begin_publish_link link)
  have len: "length (pg_cells (sl_page s)) = 78"
    using assms(2) by (simp add: writer_ok_def CELLS_def)
  have "pg_cells (fold do_store (cell_stores 65 (link_cells link)) ((sl_page s)\<lparr>pg_seq := 0\<rparr>)) =
      take 65 (pg_cells (sl_page s)) @ link_cells link"
    using len by (simp add: fold_cell_stores overwrite_def)
  with begin_publish_link len assms(2) show ?thesis
    by (auto intro!: writer_ok_begin simp: publish_link_stores_def Let_def only_cells_cell_stores
        CELLS_def)
next
  case (store before st after)
  then have pend: "sl_pending s = st # after" and before: "before = []" by auto
  let ?n = "sl_count s"
  have len: "length (pg_cells (sl_page s)) = CELLS" "pg_seq (sl_page s) = of_nat ?n"
    using assms(2) by (simp_all add: writer_ok_def)
  consider (odd_store) cs where "even ?n" "length (sl_published s) = ?n div 2 + 2" "only_cells cs"
      "st = StSeq (of_nat (?n + 1))" "after = cs @ [StSeq (of_nat (?n + 2))]"
      "pg_cells (fold do_store cs (sl_page s)) = sl_published s ! (?n div 2 + 1)"
      "pg_cells (sl_page s) = sl_published s ! (?n div 2)"
    | (in_lock) cs where "odd ?n" "length (sl_published s) = ?n div 2 + 2" "only_cells cs"
      "st # after = cs @ [StSeq (of_nat (?n + 1))]"
      "pg_cells (fold do_store cs (sl_page s)) = sl_published s ! (?n div 2 + 1)"
    using assms(2) pend by (auto simp: writer_ok_def Let_def)
  then show ?thesis
  proof cases
    case odd_store
    with odd_store store len before show ?thesis
      by (auto simp: cells_fold_seq writer_ok_def Let_def counts_def intro!: exI [of _ cs])
  next
    case in_lock
    then show ?thesis
    proof (cases cs)
      case Nil
      with in_lock store len before show ?thesis
        by (auto simp: writer_ok_def Let_def counts_def elim!: oddE)
    next
      case (Cons x cs')
      with in_lock store len before show ?thesis
        by (auto simp: writer_ok_def Let_def counts_def only_cells_def split: store.splits)
    qed
  qed
next
  case load
  with assms(2) show ?thesis by (simp add: writer_ok_def)
qed

lemma writer_published:
  assumes "writer_ok s" and "even (sl_count s)"
  shows "pg_cells (sl_page s) = sl_published s ! (sl_count s div 2)"
    and "sl_count s div 2 < length (sl_published s)"
  using assms by (auto simp: writer_ok_def Let_def)

lemma reader_ok_load:
  assumes "writer_ok s" and "reader_ok s" and "sl_count s < 2 ^ 64"
  shows "reader_ok (s\<lparr>sl_reader := reader_load (sl_page s) (sl_reader s)\<rparr>)"
proof (cases "sl_reader s")
  case (RAttempt k)
  show ?thesis
    using RAttempt assms even_seq [OF assms(3)]
    by (auto simp: reader_ok_def reader_load_def next_attempt_def writer_ok_def split: if_splits)
next
  case (RCopy k before acc)
  obtain b where b: "before = of_nat b" "even b" "b \<le> sl_count s" "length acc \<le> CELLS"
    "sl_count s = b \<Longrightarrow> acc = take (length acc) (sl_published s ! (b div 2))"
    using assms(2) RCopy by (auto simp: reader_ok_def)
  have len: "length (pg_cells (sl_page s)) = CELLS" "pg_seq (sl_page s) = of_nat (sl_count s)"
    using assms(1) by (simp_all add: writer_ok_def)
  show ?thesis
  proof (cases "length acc < CELLS")
    case True
    have "sl_count s = b \<Longrightarrow>
        acc @ [pg_cells (sl_page s) ! length acc] = take (length acc + 1) (sl_published s ! (b div 2))"
      using b writer_published(1) [OF assms(1)] len(1) True by (simp add: take_Suc_conv_app_nth)
    then show ?thesis
      using True b RCopy by (auto simp: reader_ok_def reader_load_def)
  next
    case False
    have "acc \<in> set (sl_published s)" if "pg_seq (sl_page s) = before"
    proof -
      have "unat (of_nat (sl_count s) :: u64) = unat (of_nat b :: u64)" using that len b by simp
      then have eq: "sl_count s = b" using assms(3) b(3) by (simp add: unat_of_nat)
      with b writer_published [OF assms(1)] len(1) False show ?thesis by simp
    qed
    then show ?thesis
      using False RCopy by (auto simp: reader_ok_def reader_load_def next_attempt_def)
  qed
next
  case (RDone x)
  with assms(2) show ?thesis
    by (simp add: reader_ok_def reader_load_def split: option.splits)
qed

lemma reader_ok_more:
  assumes "reader_ok s" and "sl_reader s' = sl_reader s" and "sl_count s \<le> sl_count s'"
    and "\<exists>more. sl_published s' = sl_published s @ more"
    and "writer_ok s"
  shows "reader_ok s'"
proof (cases "sl_reader s")
  case (RCopy k before acc)
  with assms writer_published(2) [OF assms(5)] show ?thesis
    by (fastforce simp: reader_ok_def nth_append)
qed (use assms in \<open>auto simp: reader_ok_def split: option.splits\<close>)

lemma seqlock_step_ok:
  assumes "sl_step False s s'" and "writer_ok s" and "reader_ok s" and "sl_count s < 2 ^ 64"
  shows "writer_ok s'" and "reader_ok s'" and "sl_count s \<le> sl_count s'"
proof -
  show "writer_ok s'" by (rule writer_ok_step [OF assms(1,2)])
  show "sl_count s \<le> sl_count s'" using assms(1) by cases auto
  show "reader_ok s'"
    using assms(1)
  proof cases
    case load
    with reader_ok_load assms(2-4) show ?thesis by simp
  qed (rule reader_ok_more [OF assms(3) _ _ _ assms(2)], auto)+
qed

lemma seqlock_reachable:
  assumes "(sl_step False)\<^sup>*\<^sup>* sl_start s" and "sl_count s < 2 ^ 64"
  shows "writer_ok s \<and> reader_ok s"
  using assms
proof (induction rule: rtranclp_induct)
  case base
  show ?case by (simp add: sl_start_def writer_ok_def reader_ok_def CELLS_def)
next
  case (step s s')
  have "sl_count s \<le> sl_count s'" using step.hyps(2) by cases auto
  with step seqlock_step_ok [of s s'] show ?case by auto
qed

section \<open>A reader left alone\<close>

lemma reader_runs:
  assumes "sl_reader s = RCopy k (pg_seq (sl_page s)) (take n (pg_cells (sl_page s)))"
    and "length (pg_cells (sl_page s)) = CELLS" and "n \<le> CELLS"
  shows "(sl_step relaxed)\<^sup>*\<^sup>* s (s\<lparr>sl_reader := RDone (Some (pg_cells (sl_page s)))\<rparr>)"
  using assms
proof (induction "CELLS - n" arbitrary: n s)
  case 0
  then have "reader_load (sl_page s) (sl_reader s) = RDone (Some (pg_cells (sl_page s)))"
    by (simp add: reader_load_def)
  with load [of relaxed s] show ?case by simp
next
  case (Suc m)
  let ?s = "s\<lparr>sl_reader := RCopy k (pg_seq (sl_page s)) (take (Suc n) (pg_cells (sl_page s)))\<rparr>"
  have "n < CELLS" using Suc.hyps(2) by simp
  then have "reader_load (sl_page s) (sl_reader s) =
      RCopy k (pg_seq (sl_page s)) (take (Suc n) (pg_cells (sl_page s)))"
    using Suc.prems by (simp add: reader_load_def take_Suc_conv_app_nth)
  then have "sl_step relaxed s ?s" using load [of relaxed s] by simp
  moreover have "(sl_step relaxed)\<^sup>*\<^sup>* ?s (?s\<lparr>sl_reader := RDone (Some (pg_cells (sl_page ?s)))\<rparr>)"
    using Suc.hyps(2) Suc.prems \<open>n < CELLS\<close> by (intro Suc.hyps(1) [of "Suc n"]) auto
  ultimately show ?case by simp
qed

lemma reader_reads_page:
  assumes "sl_reader s = RAttempt k" and "pg_seq (sl_page s) AND 1 = 0"
    and "length (pg_cells (sl_page s)) = CELLS"
  shows "(sl_step relaxed)\<^sup>*\<^sup>* s (s\<lparr>sl_reader := RDone (Some (pg_cells (sl_page s)))\<rparr>)"
proof -
  let ?s = "s\<lparr>sl_reader := RCopy k (pg_seq (sl_page s)) []\<rparr>"
  have "sl_step relaxed s ?s" using load [of relaxed s] assms(1,2) by (simp add: reader_load_def)
  moreover have "(sl_step relaxed)\<^sup>*\<^sup>* ?s (?s\<lparr>sl_reader := RDone (Some (pg_cells (sl_page ?s)))\<rparr>)"
    using assms(3) by (intro reader_runs [where n = 0]) simp_all
  ultimately show ?thesis by simp
qed

section \<open>Properties\<close>

text \<open>
  C32 (a snapshot is never torn, in program order). When the writer's stores reach memory in
  the order they are written, any snapshot \<^verbatim>\<open>latest\<close> returns, however its loads interleave
  with publications and with updates of the link block, is the complete content one of them
  left (or the initial content), as long as the 64-bit sequence number has not wrapped.
\<close>

theorem snapshot_not_torn:
  assumes "(sl_step False)\<^sup>*\<^sup>* sl_start s" and "sl_count s < 2 ^ 64"
    and "sl_reader s = RDone (Some snap)"
  shows "snap \<in> set (sl_published s)"
  using seqlock_reachable [OF assms(1,2)] assms(3) by (simp add: reader_ok_def)

theorem snapshot_not_torn_witness:
  "replicate CELLS 0 \<in> set (sl_published (sl_start\<lparr>sl_reader := RDone (Some (replicate CELLS 0))\<rparr>))"
proof -
  have "(sl_step False)\<^sup>*\<^sup>* sl_start (sl_start\<lparr>sl_reader := RDone (Some (replicate CELLS 0))\<rparr>)"
    using reader_reads_page [of sl_start 0 False] by (simp add: sl_start_def)
  from snapshot_not_torn [OF this] show ?thesis by (simp add: sl_start_def)
qed

text \<open>
  C40 (the guarantee needs an order the code does not ask for). Every access to the sequence
  number is \<^verbatim>\<open>memory_order_relaxed\<close> and there is no fence, so nothing keeps a store to the
  protected fields behind the store that makes the number odd. With stores to different
  locations free to be exchanged, as on the ARM cores the relay runs on, a reader can accept
  a snapshot that no publication ever left: part of a new link block over the old one.
\<close>

theorem relaxed_snapshot_can_tear:
  "\<exists>s snap. (sl_step True)\<^sup>*\<^sup>* sl_start s \<and> sl_reader s = RDone (Some snap) \<and>
    snap \<notin> set (sl_published s)"
proof -
  let ?link = "Link_init\<lparr>l_call_attempt := 1, l_console_sent := 1\<rparr>"
  let ?new = "replicate 65 0 @ link_cells ?link"
  let ?s1 = "sl_start\<lparr>sl_pending := publish_link_stores ?link (sl_page sl_start),
    sl_published := [replicate CELLS 0, ?new]\<rparr>"
  have "sl_step True sl_start ?s1"
    using begin_publish_link [of sl_start True ?link] by (simp add: sl_start_def CELLS_def)
  moreover
  let ?torn = "(replicate CELLS 0)[66 := (1 :: u64)]"
  obtain after where pend: "sl_pending ?s1 = [StSeq 1, StCell 65 0] @ StCell 66 1 # after"
    by (simp add: publish_link_stores_def sl_start_def link_cells_def Link_init_def Let_def
        numeral_nat)
  let ?s2 = "?s1\<lparr>sl_pending := [StSeq 1, StCell 65 0] @ after,
    sl_page := do_store (StCell 66 1) (sl_page ?s1), sl_count := sl_count ?s1 + counts (StCell 66 1)\<rparr>"
  have "sl_step True ?s1 ?s2"
    by (rule store [OF pend]) (simp add: same_location_def)
  moreover have cells: "pg_cells (sl_page ?s2) = ?torn" "pg_seq (sl_page ?s2) = 0"
    by (simp_all add: sl_start_def)
  then have "(sl_step True)\<^sup>*\<^sup>* ?s2 (?s2\<lparr>sl_reader := RDone (Some ?torn)\<rparr>)"
    using reader_reads_page [of ?s2 0 True] by (simp add: sl_start_def)
  ultimately have "(sl_step True)\<^sup>*\<^sup>* sl_start (?s2\<lparr>sl_reader := RDone (Some ?torn)\<rparr>)"
    by (meson converse_rtranclp_into_rtranclp)
  moreover have "?torn ! 66 \<noteq> replicate CELLS 0 ! 66" "?torn ! 67 \<noteq> ?new ! 67"
    by (simp_all add: CELLS_def nth_append link_cells_def numeral_nat)
  then have "?torn \<noteq> replicate CELLS 0" "?torn \<noteq> ?new" by (metis, metis)
  then have "?torn \<notin> set (sl_published (?s2\<lparr>sl_reader := RDone (Some ?torn)\<rparr>))"
    by simp
  moreover have "sl_reader (?s2\<lparr>sl_reader := RDone (Some ?torn)\<rparr>) = RDone (Some ?torn)" by simp
  ultimately show ?thesis by blast
qed

end
