(* ===== verification/Reception.thy ===== *)
theory Reception
  imports BluetoothHandler
begin

unbundle bit_operations_syntax

text \<open>
  What the receive path does with whole packets: the frames the relay itself would send, PDUs
  that arrive in fragments, traffic on links it never opened, and the payloads it reads past
  the end of.
\<close>

section \<open>An ACL packet through the first two layers\<close>

text \<open>The packet type, the ACL header (handle with boundary flag, length), then the data.\<close>

definition acl_packet :: "u16 \<Rightarrow> u16 \<Rightarrow> bytes \<Rightarrow> bytes" where
  "acl_packet field dlen payload = HCI_ACLDATA_PKT # put_le16 field @ put_le16 dlen @ payload"

definition receive :: "env \<Rightarrow> EConnectionSide \<Rightarrow> bytes list \<Rightarrow> relay \<Rightarrow> relay option" where
  "receive E s ps r = fold (\<lambda>p x. Option.bind x (handle_bluetooth_data E s p)) ps (Some r)"

lemma receive_None [simp]: "fold (\<lambda>p x. Option.bind x (handle_bluetooth_data E s p)) ps None = None"
  by (induction ps) simp_all

lemma receive_simps [simp]:
  "receive E s [] = Some"
  "receive E s (p # ps) r = Option.bind (handle_bluetooth_data E s p r) (receive E s ps)"
  by (cases "handle_bluetooth_data E s p r"; simp add: receive_def fun_eq_iff)+

lemma receive_append:
  "receive E s (ps @ qs) r = Option.bind (receive E s ps r) (receive E s qs)"
  by (induction ps arbitrary: r) (simp_all add: Option.bind_assoc split: bind_split)

lemma put_le16_nth: "put_le16 w = [ucast w, ucast (drop_bit 8 w)]"
  by (simp add: put_le16_def)

lemma put_le16_nonempty [simp]: "put_le16 w \<noteq> []"
  by (simp add: put_le16_def)

lemma recv_acl_packet:
  "handle_bluetooth_data E s (acl_packet field dlen payload) r =
    (if acl_handle_pack_handle field \<notin> set (h_open_handles (r_h r s))
     then Some (close_ghost E s (acl_handle_pack_handle field) r)
     else if payload = [] then Some r
     else if acl_boundary_flag field = ACL_PB_CONT
     then acl_continue E s (acl_handle_pack_handle field) payload r
     else acl_start E s (acl_handle_pack_handle field) payload r)"
proof -
  let ?pc = "PacketContents_init (acl_packet field dlen payload)"
  obtain pc1 where 1: "PacketContents_get 1 ?pc = (Some [HCI_ACLDATA_PKT], pc1)"
      "ahead pc1 = put_le16 field @ put_le16 dlen @ payload"
    using pc.get_total [of 1 ?pc] by (auto simp: acl_packet_def)
  obtain pc2 where 2: "PacketContents_get HCI_ACL_HDR_SIZE pc1 = (Some (put_le16 field @ put_le16 dlen), pc2)"
      "ahead pc2 = payload"
    using pc.get_total [of HCI_ACL_HDR_SIZE pc1] 1(2) by (auto simp: HCI_ACL_HDR_SIZE_def put_le16_nth)
  have field: "le16_at (put_le16 field @ put_le16 dlen) 0 = field"
    by (simp add: put_le16_nth)
  have "fst (PacketContents_get (PacketContents_remaining pc2) pc2) = Some payload"
    using 2(2) by (simp add: pc.get_eq remaining_ahead)
  with 1 2(1) field show ?thesis
    by (simp add: handle_bluetooth_data_def handle_acl_def HCI_ACLDATA_PKT_def HCI_EVENT_PKT_def Let_def)
qed

lemma acl_frame_packet:
  "acl_frame handle cid payload =
    acl_packet (acl_header_handle handle ACL_START_FLUSHABLE) (of_nat (L2CAP_HDR_SIZE + length payload))
      (put_le16 (of_nat (length payload)) @ put_le16 cid @ payload)"
  by (simp add: acl_frame_def acl_packet_def)

lemma route_pdu:
  assumes "length payload < 65536"
  shows "cid \<noteq> L2CAP_CID_SIGNALLING \<Longrightarrow>
      route_l2cap_pdu E s (put_le16 (of_nat (length payload)) @ put_le16 cid @ payload) r =
      route_payload E s cid payload r"
    and "\<exists>pc. ahead pc = payload \<and>
      route_l2cap_pdu E s (put_le16 (of_nat (length payload)) @ put_le16 L2CAP_CID_SIGNALLING @ payload) r =
      Some (handle_l2cap_cmd E s pc r)"
proof -
  let ?hdr = "\<lambda>cid. put_le16 (of_nat (length payload)) @ put_le16 cid"
  let ?pc = "\<lambda>cid. PacketContents_init (put_le16 (of_nat (length payload)) @ put_le16 cid @ payload)"
  have get: "\<exists>pc1. PacketContents_get 4 (?pc cid) = (Some (?hdr cid), pc1) \<and> ahead pc1 = payload" for cid
    using pc.get_total [of 4 "?pc cid"] by (auto simp: put_le16_nth)
  have len: "unat (of_nat (length payload) :: u16) = length payload"
    using assms by (simp add: unat_of_nat)
  have fields: "le16_at (?hdr cid) 0 = of_nat (length payload)" "le16_at (?hdr cid) 2 = cid" for cid
    by (simp_all add: put_le16_nth numeral_2_eq_2)
  show "route_l2cap_pdu E s (put_le16 (of_nat (length payload)) @ put_le16 cid @ payload) r = route_payload E s cid payload r"
    if "cid \<noteq> L2CAP_CID_SIGNALLING" for cid
    using get [of cid] fields [of cid] len that
    by (auto simp: route_l2cap_pdu_def pc.get_eq Let_def)
  show "\<exists>pc. ahead pc = payload \<and>
      route_l2cap_pdu E s (put_le16 (of_nat (length payload)) @ put_le16 L2CAP_CID_SIGNALLING @ payload) r =
      Some (handle_l2cap_cmd E s pc r)"
    using get [of L2CAP_CID_SIGNALLING] fields [of L2CAP_CID_SIGNALLING]
    by (auto simp: route_l2cap_pdu_def Let_def)
qed

lemma acl_start_whole:
  assumes "length payload < 65536"
  shows "acl_start E s handle (put_le16 (of_nat (length payload)) @ put_le16 cid @ payload) r =
    route_l2cap_pdu E s (put_le16 (of_nat (length payload)) @ put_le16 cid @ payload)
      (set_reasm s handle None r)"
  using assms by (simp add: acl_start_def put_le16_nth unat_of_nat Let_def)

section \<open>Fragments\<close>

lemma set_reasm_again [simp]: "set_reasm s handle x (set_reasm s handle y r) = set_reasm s handle x r"
  by (simp add: set_reasm_def upd_def)

lemma set_reasm_simps [simp]:
  "h_open_handles (r_h (set_reasm s handle x r) s') = h_open_handles (r_h r s')"
  "h_acl_reasm (r_h (set_reasm s handle x r) s) handle = x"
  by (simp_all add: set_reasm_def)

abbreviation start_packet :: "u16 \<Rightarrow> bytes \<Rightarrow> bytes" where
  "start_packet handle data \<equiv>
    acl_packet (acl_header_handle handle ACL_START_FLUSHABLE) (of_nat (length data)) data"

abbreviation continue_packet :: "u16 \<Rightarrow> bytes \<Rightarrow> bytes" where
  "continue_packet handle data \<equiv>
    acl_packet (acl_header_handle handle (ucast ACL_PB_CONT)) (of_nat (length data)) data"

lemma boundary_flags [simp]:
  "acl_boundary_flag (acl_header_handle handle ACL_START_FLUSHABLE) \<noteq> ACL_PB_CONT"
  "acl_boundary_flag (acl_header_handle handle (ucast ACL_PB_CONT)) = ACL_PB_CONT"
  by (simp_all add: boundary_of_header ACL_START_FLUSHABLE_def ACL_PB_CONT_def)

lemma frame_received:
  assumes "9 + length payload \<le> WRITE_BUFFER_SIZE"
    and "handle AND 0x0fff \<in> set (h_open_handles (r_h r s))"
    and "cid \<noteq> L2CAP_CID_SIGNALLING"
  shows "handle_bluetooth_data E s (acl_frame handle cid payload) r =
    route_payload E s cid payload (set_reasm s (handle AND 0x0fff) None r)"
proof -
  have "length payload < 65536" using assms(1) by (simp add: WRITE_BUFFER_SIZE_def)
  with assms(2,3) show ?thesis
    by (simp add: acl_frame_packet recv_acl_packet pack_handle_of_header acl_start_whole route_pdu(1))
qed

lemma receive_rest:
  assumes "handle AND 0x0fff = handle" "handle \<in> set (h_open_handles (r_h r s))"
    and "h_acl_reasm (r_h r s) handle = Some (buf, length pdu)"
    and "pdu = buf @ concat rest" "rest \<noteq> []" "\<forall>f \<in> set rest. f \<noteq> []"
  shows "receive E s (map (continue_packet handle) rest) r =
    map_option (set_reasm s handle None)
      (route_l2cap_pdu E s pdu (set_reasm s handle (Some (pdu, length pdu)) r))"
  using assms(2-)
proof (induction rest arbitrary: buf r)
  case (Cons f fs)
  have open': "acl_handle_pack_handle (acl_header_handle handle flag) = handle" for flag
    using assms(1) by (simp add: pack_handle_of_header)
  let ?r = "set_reasm s handle (Some (buf @ f, length pdu)) r"
  show ?case
  proof (cases "fs = []")
    case True
    with Cons.prems open' show ?thesis
      by (simp add: recv_acl_packet acl_continue_def Let_def)
  next
    case False
    then obtain g gs where fs: "fs = g # gs" by (cases fs) auto
    from Cons.prems(5) fs have "length (buf @ f) < length pdu"
      unfolding Cons.prems(3) by simp
    then have "handle_bluetooth_data E s (continue_packet handle f) r = Some ?r"
      using Cons.prems open' by (simp add: recv_acl_packet acl_continue_def Let_def)
    then show ?thesis
      using Cons.IH [of ?r "buf @ f"] Cons.prems False by simp
  qed
qed simp

section \<open>Links the relay never opened\<close>

lemma send_cmd_simps [simp]:
  "h_open_handles (r_h (send_cmd E s ogf ocf p r) s') = h_open_handles (r_h r s')"
  "h_ghost_handles (r_h (send_cmd E s ogf ocf p r) s') = h_ghost_handles (r_h r s')"
  by (simp_all add: send_cmd_def pump_commands_def Let_def)

lemma close_ghost_simps [simp]:
  "h_open_handles (r_h (close_ghost E s handle r) s') = h_open_handles (r_h r s')"
  "close_ghost E s handle (close_ghost E s handle r) = close_ghost E s handle r"
  by (simp_all add: close_ghost_def set_insort_key)

lemma receive_ghost:
  assumes "handle \<notin> set (h_open_handles (r_h r s))"
    and "\<forall>(field, _) \<in> set ps. acl_handle_pack_handle field = handle"
  shows "receive E s (map (\<lambda>(field, dlen, payload). acl_packet field dlen payload) ps)
      (close_ghost E s handle r) = Some (close_ghost E s handle r)"
  using assms(2) by (induction ps) (use assms(1) in \<open>auto simp: recv_acl_packet\<close>)

section \<open>Reads past the end of a payload\<close>

lemma log_pad_battery_keeps [simp]:
  "r_h (log_pad_battery s p r) = r_h r" "r_linked (log_pad_battery s p r) = r_linked r"
  "r_now (log_pad_battery s p r) = r_now r"
  by (simp_all add: log_pad_battery_def Let_def)

lemma publish_input_keeps [simp]:
  "s' \<noteq> s \<Longrightarrow> r_h (publish_input E s p r) s' = r_h r s'"
  "r_linked (publish_input E s p r) = r_linked r" "r_now (publish_input E s p r) = r_now r"
  by (simp_all add: publish_input_def)

lemma relay_pad_input_to_usb_keeps [simp]:
  "s' \<noteq> s \<Longrightarrow> r_h (relay_pad_input_to_usb E s p r) s' = r_h r s'"
  "r_linked (relay_pad_input_to_usb E s p r) = r_linked r"
  "r_now (relay_pad_input_to_usb E s p r) = r_now r"
  by (simp_all add: relay_pad_input_to_usb_def Let_def split: option.split)

lemma send_report_None:
  "send_report_to_console E os p r = None \<longleftrightarrow> \<not> h_console_full_reports (r_h r os) \<and> length p \<le> 12"
  by (auto simp: send_report_to_console_def send_cut_down_report_to_console_def make_cut_down_report_def
      BT_BODY_OFF_eq Let_def)

text \<open>When a report of the pad goes out to the console at once.\<close>

definition console_takes_input :: "relay \<Rightarrow> bool" where
  "console_takes_input r \<longleftrightarrow> r_linked r \<and> h_dcid (r_h r to_playstation) hid_interrupt_channel \<noteq> 0 \<and>
    fst (AclFlowControl_has_room (r_now r) (r_now r) (h_acl (r_h r to_playstation)))"

lemma input_to_console_None:
  "relay_pad_input_to_console E to_dualsense p r = None \<longleftrightarrow>
    console_takes_input r \<and> \<not> h_console_full_reports (r_h r to_playstation) \<and> length p \<le> 12"
  by (auto simp: relay_pad_input_to_console_def console_takes_input_def other_def has_room_def
      note_input_sent_def send_report_None opaque_frame_def INPUT_BT_SIZE_def Let_def
      simp del: not_None_eq)

lemma relay_pad_input_None:
  "relay_pad_input E to_dualsense p r = None \<longleftrightarrow>
    console_takes_input r \<and> \<not> h_console_full_reports (r_h r to_playstation) \<and> length p \<le> 12"
  by (simp add: relay_pad_input_def Let_def input_to_console_None) (simp add: console_takes_input_def)

lemma feature_answer_None:
  "handle_feature_answer_from_pad E s p r = None \<longleftrightarrow> hd p = HIDP_DATA_FEATURE \<and> length p < 2"
  by (simp add: handle_feature_answer_from_pad_def Let_def)

lemma sdp_query_None:
  "handle_sdp_query E s p r = None \<longleftrightarrow> s = to_playstation \<and> length p < 3 \<and>
    p ! 0 = SDP_SERVICE_SEARCH_ATTR_REQUEST \<and> 3 \<le> length (h_sdp_answer_cache (r_h r s)) \<and>
    \<not> (r_linked r \<and> h_dcid (r_h r to_dualsense) sdp_client_channel \<noteq> 0)"
  by (cases s) (auto simp: handle_sdp_query_def other_def Let_def)

section \<open>A concrete relay\<close>

text \<open>Both adapters, a pad at a known address, a willing kernel; and the links it has then.\<close>

definition demo_pad :: bdaddr where
  "demo_pad = addr_of [0x66, 0x55, 0x44, 0x33, 0x22, 0x11]"

definition demo_setup :: main_setup where
  "demo_setup = \<lparr>m_now = seconds 1, m_linked = True, m_ds_addr = demo_pad,
    m_ps5_side_addr = demo_pad, m_link_key = None, m_console = None,
    m_local = (\<lambda>_. addr_any), m_usb_steps = all_steps, m_feed_mapped = True\<rparr>"

definition demo_env :: env where
  "demo_env = \<lparr>e_zcrc = crc32_bitwise, e_io_ok = (\<lambda>_. True), e_kernel = willing_kernel,
    e_time_of_day = (\<lambda>now. word_of_int (1000 * now))\<rparr>"

text \<open>Both links up, under handle 11, with all channels of both sides open.\<close>

definition demo_relay :: relay where
  "demo_relay = (let link = (\<lambda>h. h\<lparr>h_connection_handle := 11, h_open_handles := [11],
      h_dcid := (\<lambda>c. ch_scid c + 1)\<rparr>)
    in upd to_dualsense link (upd to_playstation link (relay_start demo_setup)))"

lemma demo_relay_simps [simp]:
  "h_open_handles (r_h demo_relay s) = [11]"
  "h_connection_handle (r_h demo_relay s) = 11"
  "h_dcid (r_h demo_relay s) = (\<lambda>c. ch_scid c + 1)"
  "h_link_key (r_h demo_relay s) = None"
  "h_ghost_handles (r_h demo_relay s) = []"
  by (cases s; simp add: demo_relay_def Let_def relay_start_def demo_setup_def with_pairing_def
      handler_init_def set_spoof_addr_def)+

section \<open>Properties\<close>

text \<open>
  C16 (the relay reads back its own frames). A frame as \<^verbatim>\<open>l2cap_send_frame\<close> puts it into the
  4096-byte write buffer, received on an open link, hands exactly its payload to the handler
  of its channel: header and length fields agree with what the receive path expects, whatever
  the payload, and whatever fragments were pending on that link are discarded.
\<close>

theorem frame_read_back:
  assumes "9 + length payload \<le> WRITE_BUFFER_SIZE"
    and "handle AND 0x0fff \<in> set (h_open_handles (r_h r s))"
    and "cid \<noteq> L2CAP_CID_SIGNALLING"
  shows "handle_bluetooth_data E s (acl_frame handle cid payload) r =
    route_payload E s cid payload (set_reasm s (handle AND 0x0fff) None r)"
  by (rule frame_received [OF assms])

theorem frame_read_back_witness:
  "handle_bluetooth_data demo_env to_playstation
      (acl_frame 11 (ch_scid hid_interrupt_channel) [0xa2, 0x31, 0x02]) demo_relay =
    route_payload demo_env to_playstation (ch_scid hid_interrupt_channel) [0xa2, 0x31, 0x02]
      (set_reasm to_playstation 11 None demo_relay)"
  using frame_read_back [of "[0xa2, 0x31, 0x02]" 11 demo_relay to_playstation
      "ch_scid hid_interrupt_channel" demo_env]
  by (simp add: WRITE_BUFFER_SIZE_def L2CAP_CID_SIGNALLING_def)

text \<open>
  C6 (fragments are put together). A PDU that arrives on an open link in any number of
  fragments, the first long enough for the L2CAP header and none of the others empty, is
  routed exactly once, whole, when the last fragment arrives; nothing of it stays behind, and
  before that nothing is routed.
\<close>

theorem fragments_reassembled:
  assumes "handle AND 0x0fff = handle" "handle \<in> set (h_open_handles (r_h r s))"
    and "length pdu = 4 + unat (le16_at pdu 0)"
    and "pdu = first @ concat rest" "4 \<le> length first" "rest \<noteq> []" "\<forall>f \<in> set rest. f \<noteq> []"
  shows "receive E s (start_packet handle first # map (continue_packet handle) rest) r =
    map_option (set_reasm s handle None)
      (route_l2cap_pdu E s pdu (set_reasm s handle (Some (pdu, length pdu)) r))"
proof -
  obtain g gs where rest: "rest = g # gs" using assms(6) by (cases rest) auto
  have le16: "le16_at first 0 = le16_at pdu 0"
    using assms(4,5) by (cases first) (auto simp: nth_append)
  have shorter: "length first < length pdu"
    using assms(7) unfolding assms(4) rest by simp
  have "length pdu \<le> L2CAP_MAX_PDU"
    using unsigned_less [of "le16_at pdu 0", where ?'a = nat] assms(3) by (simp add: L2CAP_MAX_PDU_def)
  then have "handle_bluetooth_data E s (start_packet handle first) r =
      Some (set_reasm s handle (Some (first, length pdu)) r)"
    using assms(1,2,5) shorter
    by (auto simp: recv_acl_packet pack_handle_of_header acl_start_def le16 [simplified] assms(3) Let_def)
  moreover have "receive E s (map (continue_packet handle) rest)
      (set_reasm s handle (Some (first, length pdu)) r) =
    map_option (set_reasm s handle None)
      (route_l2cap_pdu E s pdu (set_reasm s handle (Some (pdu, length pdu)) r))"
    using receive_rest [of handle "set_reasm s handle (Some (first, length pdu)) r" s first pdu rest E] assms
    by simp
  ultimately show ?thesis by simp
qed

theorem fragments_reassembled_witness:
  "receive demo_env to_dualsense
      [start_packet 11 [3, 0, 0x0f, 0x72, 0xa1], continue_packet 11 [0x31], continue_packet 11 [7]]
      demo_relay =
    map_option (set_reasm to_dualsense 11 None)
      (route_l2cap_pdu demo_env to_dualsense [3, 0, 0x0f, 0x72, 0xa1, 0x31, 7]
        (set_reasm to_dualsense 11 (Some ([3, 0, 0x0f, 0x72, 0xa1, 0x31, 7], 7)) demo_relay))"
proof -
  have "receive demo_env to_dualsense
      (start_packet 11 [3, 0, 0x0f, 0x72, 0xa1] # map (continue_packet 11) [[0x31], [7]]) demo_relay =
    map_option (set_reasm to_dualsense 11 None)
      (route_l2cap_pdu demo_env to_dualsense [3, 0, 0x0f, 0x72, 0xa1, 0x31, 7]
        (set_reasm to_dualsense 11 (Some ([3, 0, 0x0f, 0x72, 0xa1, 0x31, 7],
          length [3, 0, 0x0f, 0x72, 0xa1, 0x31, 7 :: byte])) demo_relay))"
    by (rule fragments_reassembled) (simp_all add: le16_def)
  then show ?thesis by (simp del: receive_simps add: eval_nat_numeral)
qed

text \<open>
  C24 (a link left behind is closed once). Packets on a handle this run never opened, however
  many, with whatever flags and contents, have one effect together: on the first of them one
  Disconnect command for that handle, unless it was already sent; none of their contents is
  routed anywhere.
\<close>

theorem ghost_link_closed_once:
  assumes "handle \<notin> set (h_open_handles (r_h r s))" "ps \<noteq> []"
    and "\<forall>(field, _) \<in> set ps. acl_handle_pack_handle field = handle"
  shows "receive E s (map (\<lambda>(field, dlen, payload). acl_packet field dlen payload) ps) r =
    Some (if handle \<in> set (h_ghost_handles (r_h r s)) then r
      else send_cmd E s OGF_LINK_CTL OCF_DISCONNECT (disconnect_cp handle)
        (upd s (\<lambda>h. h\<lparr>h_ghost_handles := insort handle (h_ghost_handles h)\<rparr>) r))"
proof -
  obtain p qs where ps: "ps = p # qs" using assms(2) by (cases ps) auto
  obtain field dlen payload where p: "p = (field, dlen, payload)" by (cases p)
  have "handle_bluetooth_data E s (acl_packet field dlen payload) r = Some (close_ghost E s handle r)"
    using assms ps p by (simp add: recv_acl_packet)
  moreover have "receive E s (map (\<lambda>(field, dlen, payload). acl_packet field dlen payload) qs)
      (close_ghost E s handle r) = Some (close_ghost E s handle r)"
    using receive_ghost [OF assms(1)] assms(3) ps by simp
  ultimately show ?thesis
    by (simp add: ps p close_ghost_def)
qed

theorem ghost_link_closed_once_witness:
  "receive demo_env to_playstation [acl_packet 0x200c 2 [1, 2], acl_packet 0x100c 1 [3]] demo_relay =
    Some (send_cmd demo_env to_playstation OGF_LINK_CTL OCF_DISCONNECT (disconnect_cp 12)
      (upd to_playstation (\<lambda>h. h\<lparr>h_ghost_handles := insort 12 (h_ghost_handles h)\<rparr>) demo_relay))"
  using ghost_link_closed_once [of 12 demo_relay to_playstation "[(0x200c, 2, [1, 2]), (0x100c, 1, [3])]" demo_env]
  by (simp add: acl_handle_pack_handle_def)


end
