(* ===== verification/InputPath.thy ===== *)
theory InputPath
  imports Reception
begin

unbundle bit_operations_syntax

text \<open>
  The path of an input report from the pad to the console: what is held while the console's
  controller has no room, what goes out when it has, and what never goes out.
\<close>

section \<open>Holding and flushing\<close>

abbreviation console :: "relay \<Rightarrow> handler" where
  "console r \<equiv> r_h r to_playstation"

text \<open>Reports of the pad, one after the other, towards the console.\<close>

definition feed :: "env \<Rightarrow> bytes list \<Rightarrow> relay \<Rightarrow> relay option" where
  "feed E ps r = fold (\<lambda>p x. Option.bind x (relay_pad_input_to_console E to_dualsense p)) ps (Some r)"

lemma feed_None [simp]:
  "fold (\<lambda>p x. Option.bind x (relay_pad_input_to_console E to_dualsense p)) ps None = None"
  by (induction ps) simp_all

lemma feed_simps [simp]:
  "feed E [] = Some"
  "feed E (p # ps) r = Option.bind (relay_pad_input_to_console E to_dualsense p r) (feed E ps)"
  by (cases "relay_pad_input_to_console E to_dualsense p r"; simp add: feed_def fun_eq_iff)+

lemma feed_append: "feed E (ps @ qs) r = Option.bind (feed E ps r) (feed E qs)"
  by (induction ps arbitrary: r) (simp_all split: Option.bind_split)

text \<open>The console's channel is open but its controller has no room.\<close>

definition blocked :: "relay \<Rightarrow> bool" where
  "blocked r \<longleftrightarrow> r_linked r \<and> h_dcid (console r) hid_interrupt_channel \<noteq> 0 \<and>
    \<not> fst (AclFlowControl_has_room (r_now r) (r_now r) (h_acl (console r)))"

lemma no_room_keeps:
  "\<not> fst (AclFlowControl_has_room t t' a) \<Longrightarrow> snd (AclFlowControl_has_room t t' a) = a"
  by (auto simp: AclFlowControl_has_room_def split: if_splits)

lemma blocked_report:
  assumes "blocked r" "\<not> opaque_frame p"
  obtains r' where "relay_pad_input_to_console E to_dualsense p r = Some r'" "blocked r'"
    "r_trace r' = r_trace r" "h_held (console r') = HeldFrame_store p (h_held (console r))"
proof
  let ?r = "upd to_playstation (\<lambda>h. h\<lparr>h_console_input_backpressure := h_console_input_backpressure h + 1,
      h_held := HeldFrame_store p (h_held h)\<rparr>)
    (snd (has_room to_playstation (upd to_playstation (\<lambda>h. h\<lparr>h_console_input_seen := True\<rparr>) r)))"
  show "relay_pad_input_to_console E to_dualsense p r = Some ?r"
    using assms by (simp add: relay_pad_input_to_console_def blocked_def other_def has_room_def Let_def)
  show "blocked ?r" "r_trace ?r = r_trace r" "h_held (console ?r) = HeldFrame_store p (h_held (console r))"
    using assms by (simp_all add: blocked_def has_room_def no_room_keeps Let_def)
qed

lemma feed_blocked:
  assumes "blocked r" "\<forall>p \<in> set ps. \<not> opaque_frame p"
  shows "\<exists>r'. feed E ps r = Some r' \<and> blocked r' \<and> r_trace r' = r_trace r \<and>
    h_held (console r') = fold HeldFrame_store ps (h_held (console r))"
  using assms
proof (induction ps arbitrary: r)
  case (Cons p ps)
  from Cons.prems obtain r1 where r1: "relay_pad_input_to_console E to_dualsense p r = Some r1" "blocked r1"
    "r_trace r1 = r_trace r" "h_held (console r1) = HeldFrame_store p (h_held (console r))"
    by (auto elim: blocked_report [of r p E])
  with Cons.IH [of r1] Cons.prems show ?case by simp
qed simp

text \<open>What a report leaves in the trace when it goes out to the console now.\<close>

lemma send_report_trace:
  assumes "h_dcid (console r) = h_dcid (console r')" "h_connection_handle (console r) = h_connection_handle (console r')"
    "h_console_full_reports (console r) = h_console_full_reports (console r')"
    "r_io r = r_io r'" "r_trace r = r_trace r'"
  shows "map_option r_trace (send_report_to_console E to_playstation p r) =
    map_option r_trace (send_report_to_console E to_playstation p r')"
  using assms
  by (simp add: send_report_to_console_def send_full_report_to_console_def
      send_cut_down_report_to_console_def l2cap_send_hid_def l2cap_send_framed_def l2cap_send_frame_def
      Let_def split: option.split)

lemma flush_as_direct:
  assumes "console_takes_input r" "held_ok (h_held (console r))" "HeldFrame_view (h_held (console r)) = p"
    and "p \<noteq> []" "\<not> opaque_frame p"
  shows "map_option r_trace (flush_held_report E to_playstation r) =
    map_option r_trace (relay_pad_input_to_console E to_dualsense p r)"
proof -
  let ?room = "\<lambda>r. snd (has_room to_playstation r)"
  let ?clear = "upd to_playstation (\<lambda>h. h\<lparr>h_held := HeldFrame_clear (h_held h)\<rparr>)"
  let ?a = "upd to_playstation (\<lambda>h. h\<lparr>h_console_input_flushed := h_console_input_flushed h + 1\<rparr>)
    (note_input_sent to_playstation (?clear (?room r)))"
  let ?b = "note_input_sent to_playstation (?clear (?room
    (upd to_playstation (\<lambda>h. h\<lparr>h_console_input_seen := True\<rparr>) r)))"
  have "flush_held_report E to_playstation r = send_report_to_console E to_playstation p ?a"
    using assms slot.valid_view [OF assms(2)]
    by (simp add: flush_held_report_def console_takes_input_def other_def has_room_def Let_def)
  moreover have "relay_pad_input_to_console E to_dualsense p r = send_report_to_console E to_playstation p ?b"
    using assms
    by (simp add: relay_pad_input_to_console_def console_takes_input_def other_def has_room_def Let_def)
  moreover have "map_option r_trace (send_report_to_console E to_playstation p ?a) =
      map_option r_trace (send_report_to_console E to_playstation p ?b)"
    by (rule send_report_trace) (simp_all add: has_room_def note_input_sent_def Let_def)
  ultimately show ?thesis by simp
qed

section \<open>The opaque stream\<close>

lemma log_pad_battery_trace:
  "filter (\<lambda>(s', _). s' = to_playstation) (r_trace (log_pad_battery to_dualsense p r)) =
    filter (\<lambda>(s', _). s' = to_playstation) (r_trace r)"
  by (simp add: log_pad_battery_def Let_def)

lemma publish_input_trace [simp]: "r_trace (publish_input E s p r) = r_trace r"
  by (simp add: publish_input_def)

lemma relay_pad_input_to_usb_trace [simp]:
  "r_trace (relay_pad_input_to_usb E s p r) = r_trace r"
  "h_input_feed (r_h (relay_pad_input_to_usb E s p r) s') = h_input_feed (r_h r s')"
  by (simp_all add: relay_pad_input_to_usb_def Let_def split: option.split)

lemma opaque_not_state: "opaque_frame p \<Longrightarrow> \<not> carries_controller_state p"
  by (simp add: opaque_frame_def split: if_splits)

section \<open>Properties\<close>


definition demo_blocked :: relay where
  "demo_blocked = upd to_playstation (\<lambda>h. h\<lparr>h_acl := (h_acl h)\<lparr>fc_max_packets := 8, fc_depth := 0\<rparr>\<rparr>) demo_relay"


text \<open>
  The opaque stream never reaches the console over Bluetooth, nor the viewer: A frame
  that carries no controller state is neither written to the console nor held for it, does
  not touch the input feed, and is counted.
\<close>

theorem opaque_frame_kept_from_console:
  assumes "opaque_frame p" "r_linked r" "h_dcid (console r) hid_interrupt_channel \<noteq> 0"
  shows "\<exists>r'. relay_pad_input E to_dualsense p r = Some r' \<and>
    filter (\<lambda>(s, _). s = to_playstation) (r_trace r') = filter (\<lambda>(s, _). s = to_playstation) (r_trace r) \<and>
    h_held (console r') = h_held (console r) \<and>
    h_console_input_opaque_dropped (console r') = h_console_input_opaque_dropped (console r) + 1 \<and>
    h_input_feed (r_h r' to_dualsense) = h_input_feed (r_h r to_dualsense)"
  using assms opaque_not_state [OF assms(1)]
  by (auto simp: relay_pad_input_def relay_pad_input_to_console_def other_def publish_input_def
      log_pad_battery_trace Let_def)

theorem opaque_frame_kept_from_console_witness:
  "\<exists>r'. relay_pad_input demo_env to_dualsense (0xa1 # 0x31 # replicate 77 0) demo_relay = Some r' \<and>
    filter (\<lambda>(s, _). s = to_playstation) (r_trace r') =
      filter (\<lambda>(s, _). s = to_playstation) (r_trace demo_relay) \<and>
    h_held (console r') = h_held (console demo_relay) \<and>
    h_console_input_opaque_dropped (console r') = h_console_input_opaque_dropped (console demo_relay) + 1 \<and>
    h_input_feed (r_h r' to_dualsense) = h_input_feed (r_h demo_relay to_dualsense)"
proof (rule opaque_frame_kept_from_console)
  show "opaque_frame (0xa1 # 0x31 # replicate 77 0)"
    by (simp add: opaque_frame_def carries_controller_state_def INPUT_BT_SIZE_def BT_FLAGS_OFF_def
        FLAG_HAS_HID_def)
  show "r_linked demo_relay"
    by (simp add: demo_relay_def relay_start_def demo_setup_def Let_def)
qed simp

text \<open>
  But it does reach the console over USB: While the gadget is attached the same frames
  are re-framed and submitted as input reports: the host is told to read the bytes of an
  opaque frame as sticks and buttons. The comment on the feed next to it says such bytes would
  read as random presses.
\<close>

theorem opaque_frame_sent_over_usb:
  assumes "opaque_frame p" "p ! 0 = HIDP_DATA_INPUT" "p ! 1 = REPORT_BT"
    and "usb_wf (h_gadget (r_h r s))" "transport_open (h_gadget (r_h r s))"
    "u_endpoints_enabled (h_gadget (r_h r s))" "\<not> u_in_busy (h_gadget (r_h r s))"
    "h_pair_command_seen (r_h r s)"
  shows "\<exists>usb. make_usb_report p = Some usb \<and>
    u_io (h_gadget (r_h (relay_pad_input_to_usb E s p r) s)) = u_io (h_gadget (r_h r s)) @ [AioWrite usb]"
proof -
  have len: "length p = 79"
    using assms(1) by (simp add: opaque_frame_def INPUT_BT_SIZE_def split: if_splits)
  then have "make_usb_report p \<noteq> None"
    by (simp add: make_usb_report_def BT_BODY_OFF_eq INPUT_BODY_LEN_def Let_def)
  then obtain usb where usb: "make_usb_report p = Some usb" by blast
  note usb_len = make_usb_report_length [OF usb]
  have "take 64 (overwrite 0 (take 64 usb) (u_in_buf (h_gadget (r_h r s)))) = usb"
    using usb_len assms(4) by (simp add: usb_wf_def REPORT_LENGTH_def overwrite_def)
  then show ?thesis
    using assms usb usb_len len
    by (simp add: relay_pad_input_to_usb_def send_input_def usb_wf_def u_log_def REPORT_LENGTH_def
        INPUT_BODY_OFF_BT_def INPUT_BODY_LEN_def Let_def)
qed

definition demo_on_usb :: relay where
  "demo_on_usb = upd to_dualsense (\<lambda>h. h\<lparr>h_pair_command_seen := True,
    h_gadget := USBHandler_init\<lparr>u_bound := True, u_endpoints_enabled := True\<rparr>\<rparr>) demo_relay"

theorem opaque_frame_sent_over_usb_witness:
  "\<exists>usb. make_usb_report (0xa1 # 0x31 # replicate 77 0) = Some usb \<and>
    u_io (h_gadget (r_h (relay_pad_input_to_usb demo_env to_dualsense (0xa1 # 0x31 # replicate 77 0)
      demo_on_usb) to_dualsense)) = u_io (h_gadget (r_h demo_on_usb to_dualsense)) @ [AioWrite usb]"
proof (rule opaque_frame_sent_over_usb)
  show "opaque_frame (0xa1 # 0x31 # replicate 77 0)"
    by (simp add: opaque_frame_def carries_controller_state_def INPUT_BT_SIZE_def BT_FLAGS_OFF_def
        FLAG_HAS_HID_def)
qed (simp_all add: demo_on_usb_def USBHandler_init_def usb_wf_def answers_ok_def transport_open_def
    HIDP_DATA_INPUT_def REPORT_BT_def)

end
