(* ===== verification/PadPath.thy ===== *)
theory PadPath
  imports Reception
begin

unbundle bit_operations_syntax

text \<open>
  The path from the console to the pad: feature reports re-framed for Bluetooth, the pairing
  commands that are taken out, numbered output reports; and the pad's feature answers on
  their way back.
\<close>

section \<open>Sending on a HID channel\<close>

lemma send_hid_trace:
  "r_trace (l2cap_send_hid E s ch b d r) = r_trace r @
    (if h_dcid (r_h r s) ch = 0 \<or> 4086 < length d \<or> \<not> e_io_ok E (r_io r) then []
     else [(s, AclWrite (acl_frame (h_connection_handle (r_h r s)) (h_dcid (r_h r s) ch) (b # d)))])"
  by (auto simp: l2cap_send_hid_def l2cap_send_framed_def l2cap_send_frame_def Let_def
      WRITE_BUFFER_SIZE_def HCI_ACL_HDR_SIZE_def L2CAP_HDR_SIZE_def)

lemma send_hid_keeps [simp]:
  "h_dcid (r_h (l2cap_send_hid E s ch b d r) s') = h_dcid (r_h r s')"
  "h_connection_handle (r_h (l2cap_send_hid E s ch b d r) s') = h_connection_handle (r_h r s')"
  "h_output_seq (r_h (l2cap_send_hid E s ch b d r) s') = h_output_seq (r_h r s')"
  "h_gadget (r_h (l2cap_send_hid E s ch b d r) s') = h_gadget (r_h r s')"
  by (simp_all add: l2cap_send_hid_def l2cap_send_framed_def l2cap_send_frame_def Let_def)

section \<open>Closing a report with its checksum\<close>

definition crc_closed :: "zlib \<Rightarrow> byte \<Rightarrow> bytes \<Rightarrow> bytes" where
  "crc_closed zcrc seed body = body @ put_le32 (crc32_seeded zcrc seed body)"

definition padded :: "nat \<Rightarrow> bytes \<Rightarrow> bytes" where
  "padded n d = take n d @ replicate (n - length d) 0"

lemma length_padded [simp]: "length (padded n d) = n"
  by (simp add: padded_def)

lemma take_overwrite_padded:
  assumes "m \<le> n" "k = min (length d) m"
  shows "take m (overwrite 0 (take k d) (replicate n 0)) = padded m d"
  using assms by (cases "length d \<le> m") (simp_all add: overwrite_def padded_def min_def)

lemma append_crc32_closed:
  "4 \<le> n \<Longrightarrow> length report = n \<Longrightarrow>
    append_crc32 zcrc seed report n = Some (crc_closed zcrc seed (take (n - 4) report))"
  using append_crc32_full [of report zcrc seed] by (simp add: crc_closed_def)

lemma small_feature_sizes:
  "0 < feature_report_size i \<and> feature_report_size i < 5 \<longleftrightarrow> i = 0x85 \<or> i = 0xa0 \<or> i = 0xf5"
  by (auto simp: feature_report_size_def feature_report_sizes_def)

section \<open>Numbered output reports\<close>

definition numbered_output :: "zlib \<Rightarrow> byte \<Rightarrow> bytes \<Rightarrow> bytes" where
  "numbered_output zcrc n usb = crc_closed zcrc CRC_SEED_OUTPUT
    ([REPORT_BT, push_bit 4 n, OUTPUT_TAG] @ padded 71 (take OUTPUT_COMMON_SIZE (tl usb)))"

lemma bt_output_report_eq: "bt_output_report zcrc n usb = Some (numbered_output zcrc n usb)"
proof -
  let ?c = "take OUTPUT_COMMON_SIZE (tl usb)"
  have c: "take (min (length usb - 1) OUTPUT_COMMON_SIZE) (drop 1 usb) = ?c"
    by (cases usb) (simp_all add: min_def)
  have "length ?c \<le> 47" by (simp add: OUTPUT_COMMON_SIZE_def)
  then have "overwrite 3 ?c ([REPORT_BT, push_bit 4 n, OUTPUT_TAG] @ replicate 75 0) =
      [REPORT_BT, push_bit 4 n, OUTPUT_TAG] @ ?c @ replicate (75 - length ?c) 0"
    by (simp add: overwrite_def numeral_3_eq_3)
  moreover have "take 74 ([REPORT_BT, push_bit 4 n, OUTPUT_TAG] @ ?c @ replicate (75 - length ?c) 0) =
      [REPORT_BT, push_bit 4 n, OUTPUT_TAG] @ padded 71 ?c"
    using \<open>length ?c \<le> 47\<close> by (simp add: padded_def)
  ultimately show ?thesis
    using \<open>length ?c \<le> 47\<close>
    by (simp add: bt_output_report_def c [simplified] OUTPUT_BT_SIZE_def append_crc32_closed
        numbered_output_def Let_def)
qed

lemma length_numbered_output [simp]: "length (numbered_output zcrc n usb) = 78"
  by (simp add: numbered_output_def crc_closed_def)

lemma next_number: "((x AND 0x0f) + 1) AND 0x0f = (x + 1) AND (0x0f :: byte)"
proof -
  have low: "uint (w AND 0x0f) = uint w mod 16" for w :: byte
    using and_mask_bintr [of w 4] by (simp add: mask_numeral uint_word_of_int take_bit_eq_mod)
  have "((uint x mod 16 + 1) mod 256) mod 16 = ((uint x + 1) mod 256) mod 16"
    by (simp add: mod_mod_cancel mod_add_left_eq)
  then have "uint (((x AND 0x0f) + 1) AND 0x0f) = uint ((x + 1) AND 0x0f)"
    by (simp add: low uint_word_ariths)
  then show ?thesis by (rule word_uint_eqI)
qed

lemma send_output_trace:
  assumes "2 \<le> length d" "h_dcid (r_h r s) hid_interrupt_channel \<noteq> 0" "\<forall>n. e_io_ok E n"
  shows "r_trace (l2cap_send_output_report E s d r) = r_trace r @ [(s, AclWrite
      (acl_frame (h_connection_handle (r_h r s)) (h_dcid (r_h r s) hid_interrupt_channel)
        (HIDP_DATA_OUTPUT # numbered_output (e_zcrc E) (h_output_seq (r_h r s)) d)))]"
    and "h_output_seq (r_h (l2cap_send_output_report E s d r) s) = (h_output_seq (r_h r s) + 1) AND 0x0f"
    and "h_dcid (r_h (l2cap_send_output_report E s d r) s) = h_dcid (r_h r s)"
    and "h_connection_handle (r_h (l2cap_send_output_report E s d r) s) = h_connection_handle (r_h r s)"
  using assms by (simp_all add: l2cap_send_output_report_def bt_output_report_eq send_hid_trace Let_def)

lemma send_outputs_trace:
  assumes "\<forall>d \<in> set ds. 2 \<le> length d" "\<forall>n. e_io_ok E n"
    and "h_dcid (r_h r s) hid_interrupt_channel \<noteq> 0" "h_output_seq (r_h r s) = (n0 + of_nat k) AND 0x0f"
  shows "r_trace (fold (l2cap_send_output_report E s) ds r) = r_trace r @
    map (\<lambda>(k, d). (s, AclWrite (acl_frame (h_connection_handle (r_h r s))
        (h_dcid (r_h r s) hid_interrupt_channel)
        (HIDP_DATA_OUTPUT # numbered_output (e_zcrc E) ((n0 + of_nat k) AND 0x0f) d)))) (enumerate k ds)"
  using assms
proof (induction ds arbitrary: r k)
  case (Cons d ds)
  note sent = send_output_trace [of d r s E]
  have "h_output_seq (r_h (l2cap_send_output_report E s d r) s) = (n0 + of_nat (Suc k)) AND 0x0f"
    using Cons.prems sent(2) next_number [of "n0 + of_nat k"] by (simp add: ac_simps)
  with Cons.IH [of "l2cap_send_output_report E s d r" "Suc k"] Cons.prems sent show ?case
    by simp
qed simp

section \<open>The pad's feature answers\<close>

lemma rewrite_address_length [simp]: "length (rewrite_address a p) = length p"
  by (simp add: rewrite_address_def)

lemma rewrite_address_nth:
  "rewrite_address a p ! i =
    (if p ! 0 = HIDP_DATA_FEATURE \<and> (p ! 1 = REPORT_PAIRING_INFO \<or> p ! 1 = REPORT_PAIRING_LIST) \<and>
        8 \<le> length p \<and> addr_is_set a \<and> 2 \<le> i \<and> i < 8
     then addr_bytes a ! (i - 2) else p ! i)"
  by (auto simp: rewrite_address_def nth_overwrite)

lemma rewrite_address_Cons:
  assumes "p \<noteq> []"
  obtains q where "rewrite_address a p = hd p # q" "length q = length p - 1"
proof
  have ne: "rewrite_address a p \<noteq> []" using assms by (metis length_0_conv rewrite_address_length)
  moreover have "hd (rewrite_address a p) = hd p"
    using ne assms rewrite_address_nth [of a p 0] by (simp add: hd_conv_nth)
  ultimately show "rewrite_address a p = hd p # tl (rewrite_address a p)" by (metis list.collapse)
qed simp

lemma on_feature_report_answers:
  "d \<noteq> [] \<Longrightarrow> u_answers (on_feature_report k d u) (hd d) = Some (take REPORT_LENGTH d)"
  by (auto simp: on_feature_report_def finish_get_report_def ep0_reply_def ep0_stage_failed_def
      ep0_stall_def u_log_def min_def Let_def split: option.split)

section \<open>Properties\<close>



text \<open>
  Pairing data and the unpair command never reach the pad: Report 0x0a, which carries the
  console's link key, and the unpair form of report 0x08 are absorbed: no packet is written
  for them, whatever the state of the links.
\<close>

theorem pairing_commands_absorbed:
  assumes "report = REPORT_PAIRING_SET # d \<or> report = REPORT_TRANSPORT # TRANSPORT_UNPAIR # d"
  shows "(s', AclWrite f) \<in> set (r_trace (l2cap_send_feature_set E s report r)) \<longleftrightarrow>
    (s', AclWrite f) \<in> set (r_trace r)"
  using assms
  by (auto simp: l2cap_send_feature_set_def take_pairing_set_def REPORT_PAIRING_SET_def
      REPORT_TRANSPORT_def Let_def)

theorem pairing_commands_absorbed_witness:
  "(to_dualsense, AclWrite [1]) \<notin>
    set (r_trace (l2cap_send_feature_set demo_env to_dualsense (REPORT_PAIRING_SET # replicate 26 7) demo_relay))"
  using pairing_commands_absorbed [of "REPORT_PAIRING_SET # replicate 26 7" "replicate 26 7" to_dualsense
      "[1]" demo_env to_dualsense demo_relay]
  by (simp add: demo_relay_def relay_start_def Let_def)

text \<open>
  C20 (output reports for the pad are numbered in order). Output reports of the gadget reach
  the pad one packet each, in order, 78 bytes with tag and checksum, carrying the first 47
  bytes behind the report id and consecutive sequence numbers modulo 16 in the high nibble.
\<close>

theorem output_reports_numbered:
  assumes "\<forall>d \<in> set ds. 2 \<le> length d" "\<forall>n. e_io_ok E n"
    and "h_dcid (r_h r s) hid_interrupt_channel \<noteq> 0" "h_output_seq (r_h r s) < 16"
  shows "r_trace (fold (l2cap_send_output_report E s) ds r) = r_trace r @
    map (\<lambda>(k, d). (s, AclWrite (acl_frame (h_connection_handle (r_h r s))
        (h_dcid (r_h r s) hid_interrupt_channel)
        (HIDP_DATA_OUTPUT # crc_closed (e_zcrc E) CRC_SEED_OUTPUT
          ([REPORT_BT, push_bit 4 ((h_output_seq (r_h r s) + of_nat k) AND 0x0f), OUTPUT_TAG] @
           padded 71 (take OUTPUT_COMMON_SIZE (tl d))))))) (enumerate 0 ds)"
proof -
  have "h_output_seq (r_h r s) AND 0x0f = h_output_seq (r_h r s)"
    using and_mask_less' [of 4] less_mask_eq [of "h_output_seq (r_h r s)" 4] assms(4)
    by (simp add: mask_numeral)
  with send_outputs_trace [OF assms(1,2,3), of "h_output_seq (r_h r s)" 0]
  show ?thesis by (simp add: numbered_output_def)
qed

theorem output_reports_numbered_witness:
  "r_trace (fold (l2cap_send_output_report demo_env to_dualsense) [[2, 5], [2, 6]] demo_relay) =
    r_trace demo_relay @
    map (\<lambda>(k, d). (to_dualsense, AclWrite (acl_frame (h_connection_handle (r_h demo_relay to_dualsense))
        (h_dcid (r_h demo_relay to_dualsense) hid_interrupt_channel)
        (HIDP_DATA_OUTPUT # crc_closed (e_zcrc demo_env) CRC_SEED_OUTPUT
          ([REPORT_BT, push_bit 4 ((h_output_seq (r_h demo_relay to_dualsense) + of_nat k) AND 0x0f),
            OUTPUT_TAG] @
           padded 71 (take OUTPUT_COMMON_SIZE (tl d))))))) (enumerate 0 [[2, 5], [2, 6]])"
proof (rule output_reports_numbered)
  show "h_output_seq (r_h demo_relay to_dualsense) < 16"
    by (simp add: demo_relay_def relay_start_def demo_setup_def with_pairing_def handler_init_def Let_def)
qed (simp_all add: demo_env_def)

text \<open>
  A feature answer keeps everything but the controller's address: An answer of the pad
  goes on to the console as one packet of the same length in which, for reports 0x09 and 0x0b,
  the six address bytes are those of the console-facing adapter and every other byte is the
  pad's, the bonded host's address and the trailing checksum included; the same bytes are
  what the gadget keeps for GET_REPORT.
\<close>

theorem feature_answer_relayed:
  assumes "2 \<le> length p" "length p \<le> 4087"
    and "r_linked r" "h_dcid (r_h r to_playstation) hid_control_channel \<noteq> 0" "e_io_ok E (r_io r)"
  shows "\<exists>r' q. handle_feature_answer_from_pad E to_dualsense p r = Some r' \<and> length q = length p \<and>
    (\<forall>i < length p. q ! i =
      (if p ! 0 = HIDP_DATA_FEATURE \<and> (p ! 1 = REPORT_PAIRING_INFO \<or> p ! 1 = REPORT_PAIRING_LIST) \<and>
          8 \<le> length p \<and> addr_is_set (h_ps5_side_addr (r_h r to_dualsense)) \<and> 2 \<le> i \<and> i < 8
       then addr_bytes (h_ps5_side_addr (r_h r to_dualsense)) ! (i - 2) else p ! i)) \<and>
    r_trace r' = r_trace r @ [(to_playstation, AclWrite (acl_frame
      (h_connection_handle (r_h r to_playstation)) (h_dcid (r_h r to_playstation) hid_control_channel) q))] \<and>
    (p ! 0 = HIDP_DATA_FEATURE \<longrightarrow>
      u_answers (h_gadget (r_h r' to_dualsense)) (q ! 1) = Some (take REPORT_LENGTH (tl q)))"
proof -
  let ?a = "h_ps5_side_addr (r_h r to_dualsense)"
  have ne: "p \<noteq> []" using assms(1) by auto
  obtain q where q: "rewrite_address ?a p = hd p # q" "length q = length p - 1"
    using rewrite_address_Cons [OF ne, of ?a] by blast
  have q_ne: "q \<noteq> []" using q(2) assms(1) by auto
  have q_bytes: "(hd p # q) ! i = (if p ! 0 = HIDP_DATA_FEATURE \<and>
      (p ! 1 = REPORT_PAIRING_INFO \<or> p ! 1 = REPORT_PAIRING_LIST) \<and> 8 \<le> length p \<and> addr_is_set ?a \<and>
      2 \<le> i \<and> i < 8 then addr_bytes ?a ! (i - 2) else p ! i)" for i
    unfolding q(1) [symmetric] by (rule rewrite_address_nth)
  let ?sent = "l2cap_send_hid E to_playstation hid_control_channel (hd p) q r"
  let ?r' = "if hd p = HIDP_DATA_FEATURE
    then upd to_dualsense (\<lambda>h. h\<lparr>h_gadget := on_feature_report (e_kernel E) q (h_gadget h)\<rparr>) ?sent
    else ?sent"
  have "handle_feature_answer_from_pad E to_dualsense p r = Some ?r'"
    using assms by (simp add: handle_feature_answer_from_pad_def other_def q(1) Let_def)
  moreover have "r_trace ?r' = r_trace r @ [(to_playstation, AclWrite (acl_frame
      (h_connection_handle (r_h r to_playstation)) (h_dcid (r_h r to_playstation) hid_control_channel)
      (hd p # q)))]"
    using assms q(2) by (auto simp: send_hid_trace)
  moreover have "u_answers (h_gadget (r_h ?r' to_dualsense)) ((hd p # q) ! 1) =
      Some (take REPORT_LENGTH (tl (hd p # q)))" if "p ! 0 = HIDP_DATA_FEATURE"
    using that ne q_ne on_feature_report_answers [OF q_ne]
    by (simp add: hd_conv_nth)
  ultimately show ?thesis
    using q(2) q_bytes assms(1) by (intro exI [of _ ?r'] exI [of _ "hd p # q"]) simp
qed

theorem feature_answer_relayed_witness:
  "\<exists>r' q. handle_feature_answer_from_pad demo_env to_dualsense ([0xa3, 0x09] @ replicate 18 1) demo_relay = Some r' \<and>
    length q = 20 \<and> r_trace r' = r_trace demo_relay @ [(to_playstation, AclWrite (acl_frame
      (h_connection_handle (r_h demo_relay to_playstation))
      (h_dcid (r_h demo_relay to_playstation) hid_control_channel) q))]"
proof -
  have "r_linked demo_relay" by (simp add: demo_relay_def relay_start_def demo_setup_def Let_def)
  then show ?thesis
    using feature_answer_relayed [of "[0xa3, 0x09] @ replicate 18 1" demo_relay demo_env]
    by (simp add: demo_env_def) blast
qed

end
