(* ===== verification/GetReportPath.thy ===== *)
theory GetReportPath
  imports PadPath
begin

text \<open>
  A GET_REPORT of the console's on its whole way: from ep0 through the gadget to the pad's
  control channel, and the pad's answer back through the radio to ep0.
\<close>

definition pad_gadget :: "relay \<Rightarrow> usb" where
  "pad_gadget r = h_gadget (r_h r to_dualsense)"

text \<open>The pad's answer as the gadget hands it out: its address fields are the console-facing adapter's.\<close>

definition answer_body :: "bdaddr \<Rightarrow> byte \<Rightarrow> bytes \<Rightarrow> bytes" where
  "answer_body a i d =
    (if (i = REPORT_PAIRING_INFO \<or> i = REPORT_PAIRING_LIST) \<and> 6 \<le> length d \<and> addr_is_set a
     then addr_bytes a @ drop 6 d else d)"

lemma rewrite_address_answer:
  "rewrite_address a (HIDP_DATA_FEATURE # i # d) = HIDP_DATA_FEATURE # i # answer_body a i d"
proof (rule nth_equalityI)
  have six: "length (addr_bytes a) = 6" by (simp add: addr_bytes_def)
  then show "length (rewrite_address a (HIDP_DATA_FEATURE # i # d)) =
      length (HIDP_DATA_FEATURE # i # answer_body a i d)"
    by (simp add: answer_body_def)
  show "rewrite_address a (HIDP_DATA_FEATURE # i # d) ! j = (HIDP_DATA_FEATURE # i # answer_body a i d) ! j" for j
    using six by (auto simp: rewrite_address_nth answer_body_def nth_append nth_Cons split: nat.split)
qed

lemma finish_answers:
  assumes "u_pending_get u = Some (i, n)"
  shows "\<exists>rest. u_io (finish_get_report k a u) = u_io u @ Ep0Write (get_report_answer a n) # rest \<and>
      (rest = [] \<or> rest = [Ep0Read 0])"
    "u_pending_get (finish_get_report k a u) = None"
    "u_answers (finish_get_report k a u) = u_answers u"
  using assms
  by (auto simp: finish_get_report_def ep0_reply_def ep0_stage_failed_def ep0_stall_def u_log_def USB_DIR_IN_def Let_def
      split: option.split)

lemma forwarded_setup:
  assumes "classify (bRequestType p) (bRequest p) (wValue p) = get_report" "i = ucast (wValue p AND 0xff)"
    and "is_cacheable_feature i \<Longrightarrow> u_answers u i = None" "u_pad u"
  shows "handle_events k now [FUNCTIONFS_SETUP p] u =
    (u\<lparr>u_ctrl_count := u_ctrl_count u + 1, u_pending_get := Some (i, wLength p),
       u_get_report_timer := Some (now + GET_REPORT_TIMEOUT)\<rparr>, [PadGetReport i])"
  using assms by (auto simp: usb_handle_event_def handle_setup_def begin_get_report_def Let_def split: option.split)

lemma cached_setup:
  assumes "classify (bRequestType p) (bRequest p) (wValue p) = get_report" "i = ucast (wValue p AND 0xff)"
    and "is_cacheable_feature i" "u_answers u i = Some a"
  shows "snd (handle_events k now [FUNCTIONFS_SETUP p] u) = []"
    "\<exists>rest. u_io (fst (handle_events k now [FUNCTIONFS_SETUP p] u)) =
      u_io u @ Ep0Write (get_report_answer a (wLength p)) # rest \<and> (rest = [] \<or> rest = [Ep0Read 0])"
  using assms
  by (auto simp: usb_handle_event_def handle_setup_def begin_get_report_def ep0_reply_def ep0_stage_failed_def
      ep0_stall_def u_log_def USB_DIR_IN_def Let_def split: option.split)

lemma answered_report:
  assumes "u_pending_get u = Some (i, n)"
  shows "\<exists>rest. u_io (on_feature_report k (i # d) u) =
      u_io u @ Ep0Write (get_report_answer (take REPORT_LENGTH (i # d)) n) # rest \<and> (rest = [] \<or> rest = [Ep0Read 0])"
    "u_pending_get (on_feature_report k (i # d) u) = None"
    "u_answers (on_feature_report k (i # d) u) i = Some (take REPORT_LENGTH (i # d))"
proof -
  let ?slot = "take REPORT_LENGTH (i # d)" and ?u = "u\<lparr>u_answers := (u_answers u)(i \<mapsto> take REPORT_LENGTH (i # d))\<rparr>"
  have eq: "on_feature_report k (i # d) u = finish_get_report k ?slot ?u"
    using assms by (simp add: on_feature_report_def Let_def min_def)
  have "u_pending_get ?u = Some (i, n)" using assms by simp
  note finished = finish_answers [OF this, of k ?slot]
  show "\<exists>rest. u_io (on_feature_report k (i # d) u) =
      u_io u @ Ep0Write (get_report_answer ?slot n) # rest \<and> (rest = [] \<or> rest = [Ep0Read 0])"
    "u_pending_get (on_feature_report k (i # d) u) = None"
    "u_answers (on_feature_report k (i # d) u) i = Some ?slot"
    using finished unfolding eq by simp_all
qed

text \<open>The two halves in the relay.\<close>

lemma request_goes_out:
  assumes "handle_events (e_kernel E) (r_now r) [FUNCTIONFS_SETUP p] (pad_gadget r) = (u, [PadGetReport i])"
    and "h_dcid (r_h r to_dualsense) hid_control_channel \<noteq> 0" "e_io_ok E (r_io r)"
  shows "r_trace (run_gadget E (GEvents [FUNCTIONFS_SETUP p]) r) = r_trace r @
      [(to_dualsense, AclWrite (acl_frame (h_connection_handle (r_h r to_dualsense))
        (h_dcid (r_h r to_dualsense) hid_control_channel) [HIDP_GET_FEATURE, i]))]"
    "pad_gadget (run_gadget E (GEvents [FUNCTIONFS_SETUP p]) r) = u"
  using assms
  by (simp_all add: run_gadget_def pad_gadget_def l2cap_get_report_def send_hid_trace Let_def del: handle_events.simps)

lemma feature_answer_gadget:
  assumes "handle_feature_answer_from_pad E to_dualsense (HIDP_DATA_FEATURE # i # d) r = Some r2"
  shows "pad_gadget r2 = on_feature_report (e_kernel E)
    (i # answer_body (h_ps5_side_addr (r_h r to_dualsense)) i d) (pad_gadget r)"
  using assms
  by (auto simp: handle_feature_answer_from_pad_def rewrite_address_answer pad_gadget_def Let_def
      split: option.splits if_splits)

lemma answer_comes_in:
  assumes "length d \<le> 4085" "handle AND 0x0fff \<in> set (h_open_handles (r_h r to_dualsense))"
  obtains r2 where
    "handle_bluetooth_data E to_dualsense
      (acl_frame handle (ch_scid hid_control_channel) (HIDP_DATA_FEATURE # i # d)) r = Some r2"
    "pad_gadget r2 = on_feature_report (e_kernel E)
      (i # answer_body (h_ps5_side_addr (r_h r to_dualsense)) i d) (pad_gadget r)"
proof -
  let ?r = "set_reasm to_dualsense (handle AND 0x0fff) None r" and ?p = "HIDP_DATA_FEATURE # i # d"
  obtain r2 where r2: "handle_feature_answer_from_pad E to_dualsense ?p ?r = Some r2"
    by (auto simp: handle_feature_answer_from_pad_def Let_def)
  have "handle_bluetooth_data E to_dualsense (acl_frame handle (ch_scid hid_control_channel) ?p) r = Some r2"
    using assms r2
    by (simp add: frame_received WRITE_BUFFER_SIZE_def L2CAP_CID_SIGNALLING_def route_payload_def)
  moreover have "pad_gadget ?r = pad_gadget r" "h_ps5_side_addr (r_h ?r to_dualsense) = h_ps5_side_addr (r_h r to_dualsense)"
    by (simp_all add: pad_gadget_def set_reasm_def)
  ultimately show thesis using that feature_answer_gadget [OF r2] by simp
qed

lemma run_gadget_quiet:
  assumes "snd (handle_events (e_kernel E) (r_now r) es (pad_gadget r)) = []"
  shows "r_trace (run_gadget E (GEvents es) r) = r_trace r"
    "pad_gadget (run_gadget E (GEvents es) r) = fst (handle_events (e_kernel E) (r_now r) es (pad_gadget r))"
  using assms by (simp_all add: run_gadget_def pad_gadget_def Let_def del: handle_events.simps)

lemma request_keeps_link:
  assumes "handle_events (e_kernel E) (r_now r) es (pad_gadget r) = (u, [PadGetReport i])"
  shows "h_open_handles (r_h (run_gadget E (GEvents es) r) to_dualsense) = h_open_handles (r_h r to_dualsense)"
    "h_ps5_side_addr (r_h (run_gadget E (GEvents es) r) to_dualsense) = h_ps5_side_addr (r_h r to_dualsense)"
  using assms
  by (simp_all add: run_gadget_def pad_gadget_def l2cap_get_report_def l2cap_send_hid_def l2cap_send_framed_def
      l2cap_send_frame_def Let_def del: handle_events.simps)

section \<open>Properties\<close>

text \<open>
  C5 (a GET_REPORT makes its whole way). A GET_REPORT whose answer is not in the cache goes
  out on the pad's control channel as one GET_FEATURE of its id, ep0 untouched; the pad's answer,
  received on the open link, reaches the host as one data stage of the length it asked for, with
  the adapter's address in place of the pad's in the pairing reports and every other byte the
  pad's. From then on a cacheable report is answered at once, with the same bytes and without
  asking the pad.
\<close>

theorem get_report_round_trip:
  assumes "classify (bRequestType p) (bRequest p) (wValue p) = get_report" "i = ucast (wValue p AND 0xff)"
    and "is_cacheable_feature i \<Longrightarrow> u_answers (pad_gadget r) i = None" "u_pad (pad_gadget r)"
    and "h_dcid (r_h r to_dualsense) hid_control_channel \<noteq> 0" "e_io_ok E (r_io r)"
    and "handle AND 0x0fff \<in> set (h_open_handles (r_h r to_dualsense))" "length d \<le> 4085"
  shows "let ask = run_gadget E (GEvents [FUNCTIONFS_SETUP p]); r1 = ask r;
      body = i # answer_body (h_ps5_side_addr (r_h r to_dualsense)) i d;
      a = Ep0Write (get_report_answer (take REPORT_LENGTH body) (wLength p))
    in r_trace r1 = r_trace r @ [(to_dualsense, AclWrite (acl_frame (h_connection_handle (r_h r to_dualsense))
        (h_dcid (r_h r to_dualsense) hid_control_channel) [HIDP_GET_FEATURE, i]))] \<and>
      u_io (pad_gadget r1) = u_io (pad_gadget r) \<and>
      (\<exists>r2 rest. handle_bluetooth_data E to_dualsense
          (acl_frame handle (ch_scid hid_control_channel) (HIDP_DATA_FEATURE # i # d)) r1 = Some r2 \<and>
        u_pending_get (pad_gadget r2) = None \<and>
        u_io (pad_gadget r2) = u_io (pad_gadget r) @ a # rest \<and> (rest = [] \<or> rest = [Ep0Read 0]) \<and>
        (is_cacheable_feature i \<longrightarrow> r_trace (ask r2) = r_trace r2 \<and>
          (\<exists>rest. u_io (pad_gadget (ask r2)) = u_io (pad_gadget r2) @ a # rest \<and> (rest = [] \<or> rest = [Ep0Read 0]))))"
proof -
  let ?es = "[FUNCTIONFS_SETUP p]" and ?addr = "h_ps5_side_addr (r_h r to_dualsense)"
  let ?r1 = "run_gadget E (GEvents ?es) r" and ?body = "i # answer_body ?addr i d"
  note asked = forwarded_setup [OF assms(1,2,3,4), of "e_kernel E" "r_now r"]
  note out = request_goes_out [OF asked assms(5,6)] request_keeps_link [OF asked]
  have pending: "u_pending_get (pad_gadget ?r1) = Some (i, wLength p)" "u_io (pad_gadget ?r1) = u_io (pad_gadget r)"
    using out(2) by simp_all
  obtain r2 where r2: "handle_bluetooth_data E to_dualsense
      (acl_frame handle (ch_scid hid_control_channel) (HIDP_DATA_FEATURE # i # d)) ?r1 = Some r2"
      "pad_gadget r2 = on_feature_report (e_kernel E) ?body (pad_gadget ?r1)"
    using answer_comes_in [OF assms(8), of handle ?r1 E i] assms(7) out(3,4) by auto
  note answered = answered_report [OF pending(1), of "e_kernel E" "answer_body ?addr i d", folded r2(2), unfolded pending(2)]
  have again: "r_trace (run_gadget E (GEvents ?es) r2) = r_trace r2 \<and>
      (\<exists>rest. u_io (pad_gadget (run_gadget E (GEvents ?es) r2)) =
        u_io (pad_gadget r2) @ Ep0Write (get_report_answer (take REPORT_LENGTH ?body) (wLength p)) # rest \<and>
        (rest = [] \<or> rest = [Ep0Read 0]))" if "is_cacheable_feature i"
    using cached_setup [OF assms(1,2) that answered(3)] by (simp add: run_gadget_quiet del: handle_events.simps)
  show ?thesis
    unfolding Let_def using out(1) pending(2) r2(1) answered(1,2) again by blast
qed

theorem get_report_round_trip_witness:
  "\<exists>r2 rest. handle_bluetooth_data demo_env to_dualsense
      (acl_frame 11 (ch_scid hid_control_channel) [HIDP_DATA_FEATURE, 0xf1, 7])
      (run_gadget demo_env (GEvents [FUNCTIONFS_SETUP ask_f1]) demo_relay) = Some r2 \<and>
    u_io (pad_gadget r2) = u_io (pad_gadget demo_relay) @
      Ep0Write (get_report_answer [0xf1, 7] 64) # rest"
proof -
  have f1: "(0xf1 :: byte) = ucast (wValue ask_f1 AND 0xff)" "wLength ask_f1 = 64" by (simp_all add: ask_f1_def)
  have gadget: "u_pad (pad_gadget demo_relay)" "u_answers (pad_gadget demo_relay) 0xf1 = None"
    by (simp_all add: pad_gadget_def demo_relay_def relay_start_def demo_setup_def with_pairing_def handler_init_def
        init_gadget_def open_function_def all_steps_def USBHandler_init_def u_log_def Let_def)
  have "answer_body a 0xf1 [7] = [7]" for a by (simp add: answer_body_def)
  then show ?thesis
    using get_report_round_trip [OF classify_ask_f1 f1(1) _ gadget(1), of demo_env 11 "[7]"] gadget(2)
    by (auto simp: Let_def demo_env_def f1(2) REPORT_LENGTH_def)
qed

end
