(* ===== verification/Signalling.thy ===== *)
theory Signalling
  imports Reception
begin

unbundle bit_operations_syntax

text \<open>
  L2CAP signalling seen from the peer: how requests for a channel are answered, and how the
  channels towards the pad come up one after the other.
\<close>

section \<open>A signalling packet through the receive path\<close>

definition signal :: "u16 \<Rightarrow> byte \<Rightarrow> byte \<Rightarrow> bytes \<Rightarrow> bytes" where
  "signal handle code ident data =
    acl_frame handle L2CAP_CID_SIGNALLING ([code, ident] @ put_le16 (of_nat (length data)) @ data)"

text \<open>The state a signalling packet is handled in.\<close>

definition heard :: "EConnectionSide \<Rightarrow> u16 \<Rightarrow> byte \<Rightarrow> relay \<Rightarrow> relay" where
  "heard s handle ident r =
    upd s (\<lambda>h. h\<lparr>h_current_cmd_ident := ident\<rparr>) (set_reasm s (handle AND 0x0fff) None r)"

lemma recv_signal:
  assumes "length data < 4000" and "handle AND 0x0fff \<in> set (h_open_handles (r_h r s))"
  obtains pc where "ahead pc = data"
    "handle_bluetooth_data E s (signal handle code ident data) r =
      Some (let r = heard s handle ident r
        in if code = L2CAP_CONN_RSP then handle_conn_response E s pc r
           else if code = L2CAP_CONF_RSP then handle_conf_response E s pc r
           else if code = L2CAP_CONF_REQ then handle_conf_request E s pc r
           else if code = L2CAP_CONN_REQ then handle_conn_req E s ident pc r
           else if code = L2CAP_DISCONN_REQ then handle_disconn_req E s ident pc r
           else r)"
proof -
  let ?p = "[code, ident] @ put_le16 (of_nat (length data)) @ data"
  have len: "length ?p < 65536" using assms(1) by (simp add: put_le16_nth)
  obtain pc0 where pc0: "ahead pc0 = ?p"
      "route_l2cap_pdu E s (put_le16 (of_nat (length ?p)) @ put_le16 L2CAP_CID_SIGNALLING @ ?p)
        (set_reasm s (handle AND 0x0fff) None r) =
       Some (handle_l2cap_cmd E s pc0 (set_reasm s (handle AND 0x0fff) None r))"
    using route_pdu(2) [OF len] by blast
  obtain pc where pc: "PacketContents_get 4 pc0 = (Some (take 4 ?p), pc)" "ahead pc = data"
    using pc.get_total [of 4 pc0] pc0(1) by (auto simp: put_le16_nth)
  have "handle_bluetooth_data E s (signal handle code ident data) r =
      Some (handle_l2cap_cmd E s pc0 (set_reasm s (handle AND 0x0fff) None r))"
    using assms(2) pc0(2) acl_start_whole [OF len, of E s "handle AND 0x0fff" L2CAP_CID_SIGNALLING r]
    by (simp add: signal_def acl_frame_packet recv_acl_packet pack_handle_of_header)
  with pc show thesis
    by (intro that [of pc]) (simp_all add: handle_l2cap_cmd_def heard_def Let_def)
qed

text \<open>The write of one signalling command, when it succeeds.\<close>

lemma l2cap_send_cmd_ok:
  assumes "e_io_ok E = (\<lambda>_. True)" "length data \<le> 4000"
  shows "l2cap_send_cmd E s ident code data r =
    upd s (\<lambda>h. h\<lparr>h_acl := AclFlowControl_on_sent (h_connection_handle (r_h r s)) (h_acl h)\<rparr>)
      (emit s (AclWrite (signal (h_connection_handle (r_h r s)) code ident data)) (r\<lparr>r_io := r_io r + 1\<rparr>))"
  using assms by (simp add: l2cap_send_cmd_def l2cap_send_frame_def signal_def put_le16_nth
      WRITE_BUFFER_SIZE_def HCI_ACL_HDR_SIZE_def L2CAP_HDR_SIZE_def Let_def)

section \<open>What signalling reads and writes\<close>

text \<open>The part of the state that signalling on one side is about.\<close>

record sig_view =
  v_handle :: u16
  v_open :: "u16 list"
  v_incoming :: bool
  v_dcid :: "HciChannel \<Rightarrow> u16"
  v_ident :: byte
  v_new :: "bytes list"
  v_tasks :: "(time \<times> EConnectionSide \<times> task) list"
  v_now :: time

definition sees :: "EConnectionSide \<Rightarrow> (EConnectionSide \<times> effect) list \<Rightarrow> relay \<Rightarrow> sig_view \<Rightarrow> bool" where
  "sees s tr r v \<longleftrightarrow> h_connection_handle (r_h r s) = v_handle v \<and> h_open_handles (r_h r s) = v_open v \<and>
    h_incoming_link (r_h r s) = v_incoming v \<and> h_dcid (r_h r s) = v_dcid v \<and>
    h_cmd_request_ident (r_h r s) = v_ident v \<and> r_tasks r = v_tasks v \<and> r_now r = v_now v \<and>
    r_trace r = tr @ map (\<lambda>f. (s, AclWrite f)) (v_new v)"

text \<open>Sending a request, and sending a response, on the view.\<close>

definition v_request :: "byte \<Rightarrow> bytes \<Rightarrow> sig_view \<Rightarrow> sig_view" where
  "v_request code data v =
    v\<lparr>v_ident := v_ident v + 1, v_new := v_new v @ [signal (v_handle v) code (v_ident v) data]\<rparr>"

definition v_response :: "byte \<Rightarrow> byte \<Rightarrow> bytes \<Rightarrow> sig_view \<Rightarrow> sig_view" where
  "v_response ident code data v = v\<lparr>v_new := v_new v @ [signal (v_handle v) code ident data]\<rparr>"

lemma sees_heard [simp]: "sees s tr (heard s handle ident r) v = sees s tr r v"
  by (simp add: sees_def heard_def set_reasm_def)

lemma sees_request:
  assumes "e_io_ok E = (\<lambda>_. True)" "length data \<le> 4000" "sees s tr r v"
  shows "sees s tr (l2cap_send_cmd_request E s code data r) (v_request code data v)"
  using assms by (simp add: sees_def l2cap_send_cmd_request_def l2cap_send_cmd_ok v_request_def Let_def)

lemma sees_response:
  assumes "e_io_ok E = (\<lambda>_. True)" "length data \<le> 4000" "sees s tr r v"
  shows "sees s tr (l2cap_send_cmd_response E s ident code data r) (v_response ident code data v)"
  using assms by (simp add: sees_def l2cap_send_cmd_response_def l2cap_send_cmd_ok v_response_def)

lemma sees_set_dcid:
  "sees s tr r v \<Longrightarrow> sees s tr (set_dcid s channel d r) (v\<lparr>v_dcid := (v_dcid v)(channel := d)\<rparr>)"
  by (simp add: sees_def set_dcid_def)

lemma sees_spawn:
  "sees s tr r v \<Longrightarrow> sees s tr (spawn s delay t r) (v\<lparr>v_tasks := v_tasks v @ [(v_now v + delay, s, t)]\<rparr>)"
  by (simp add: sees_def spawn_def)

lemma seesD:
  "sees s tr r v \<Longrightarrow> h_incoming_link (r_h r s) = v_incoming v"
  "sees s tr r v \<Longrightarrow> h_open_handles (r_h r s) = v_open v"
  "sees s tr r v \<Longrightarrow> h_dcid (r_h r s) = v_dcid v"
  by (simp_all add: sees_def)

lemmas sees_intros = sees_request sees_response sees_set_dcid sees_spawn

section \<open>The packets of the peer\<close>

definition conn_rsp :: "u16 \<Rightarrow> u16 \<Rightarrow> bytes" where
  "conn_rsp dcid scid = put_le16 dcid @ put_le16 scid @ put_le16 L2CAP_CR_SUCCESS @ put_le16 0"

definition conf_req :: "u16 \<Rightarrow> u16 \<Rightarrow> bytes" where
  "conf_req dcid mtu = put_le16 dcid @ put_le16 0 @ [L2CAP_CONF_MTU, 2] @ put_le16 mtu"

definition conf_rsp :: "u16 \<Rightarrow> bytes" where
  "conf_rsp scid = put_le16 scid @ put_le16 0 @ put_le16 0"

lemma get_channel_by_scid_inv [simp]: "get_channel_by_scid (ch_scid c) = Some c"
  by (cases c) (simp_all add: get_channel_by_scid_def)

lemma le16_fields [simp]:
  "le16 ((put_le16 a @ xs) ! 0) ((put_le16 a @ xs) ! Suc 0) = a"
  "le16 ((put_le16 a @ put_le16 b @ xs) ! 2) ((put_le16 a @ put_le16 b @ xs) ! 3) = b"
  "le16 ((put_le16 a @ put_le16 b @ put_le16 c @ xs) ! 4) ((put_le16 a @ put_le16 b @ put_le16 c @ xs) ! 5) = c"
  by (simp_all add: put_le16_nth)

lemma get_prefix: "n \<le> length (ahead pc) \<Longrightarrow> fst (PacketContents_get n pc) = Some (take n (ahead pc))"
  by (simp add: pc.get_eq)

text \<open>The commands the relay sends in turn, on the view.\<close>

definition v_configure :: "HciChannel \<Rightarrow> u16 \<Rightarrow> sig_view \<Rightarrow> sig_view" where
  "v_configure channel dcid v = v_request L2CAP_CONF_REQ (conf_req dcid (ch_mtu channel))
    (v\<lparr>v_dcid := (v_dcid v)(channel := dcid)\<rparr>)"

definition v_accept :: "HciChannel \<Rightarrow> byte \<Rightarrow> u16 \<Rightarrow> sig_view \<Rightarrow> sig_view" where
  "v_accept channel ident mtu v = v_response ident L2CAP_CONF_RSP
    (conf_rsp (v_dcid v channel) @ [L2CAP_CONF_MTU, 2] @ put_le16 mtu) v"

definition v_open_channel :: "HciChannel \<Rightarrow> sig_view \<Rightarrow> sig_view" where
  "v_open_channel channel =
    v_request L2CAP_CONN_REQ (put_le16 (ch_psm channel) @ put_le16 (ch_scid channel))"

lemma recv_conn_rsp:
  assumes "e_io_ok E = (\<lambda>_. True)" "sees s tr r v" "handle AND 0x0fff \<in> set (v_open v)"
  shows "\<exists>r'. handle_bluetooth_data E s (signal handle L2CAP_CONN_RSP ident (conn_rsp dcid (ch_scid channel))) r =
      Some r' \<and> sees s tr r' (v_configure channel dcid v)"
proof -
  have "handle AND 0x0fff \<in> set (h_open_handles (r_h r s))" using assms(2,3) by (simp add: seesD)
  then obtain pc where pc: "ahead pc = conn_rsp dcid (ch_scid channel)"
      "handle_bluetooth_data E s (signal handle L2CAP_CONN_RSP ident (conn_rsp dcid (ch_scid channel))) r =
        Some (handle_conn_response E s pc (heard s handle ident r))"
    by (rule recv_signal [rotated, where data = "conn_rsp dcid (ch_scid channel)" and code = L2CAP_CONN_RSP])
      (simp_all add: conn_rsp_def put_le16_nth)
  have "fst (PacketContents_get 8 pc) = Some (conn_rsp dcid (ch_scid channel))"
    using get_prefix [of 8 pc] pc(1) by (simp add: conn_rsp_def put_le16_nth)
  then have "handle_conn_response E s pc r1 =
      l2cap_send_cmd_request E s L2CAP_CONF_REQ (conf_req dcid (ch_mtu channel)) (set_dcid s channel dcid r1)" for r1
    by (simp add: handle_conn_response_def l2cap_send_configure_mtu_request_def conn_rsp_def conf_req_def Let_def)
  then show ?thesis
    using pc(2) assms(1,2) by (simp add: v_configure_def sees_intros conf_req_def put_le16_nth)
qed

definition v_next :: "HciChannel \<Rightarrow> sig_view \<Rightarrow> sig_view" where
  "v_next channel = (case channel of
     sdp_client_channel \<Rightarrow> v_open_channel hid_control_channel
   | hid_control_channel \<Rightarrow> v_open_channel hid_interrupt_channel
   | _ \<Rightarrow> id)"

lemma sees_open_channel:
  "e_io_ok E = (\<lambda>_. True) \<Longrightarrow> sees s tr r v \<Longrightarrow>
    sees s tr (open_channel E s channel r) (v_open_channel channel v)"
  by (simp add: open_channel_def l2cap_send_conn_request_def v_open_channel_def sees_intros put_le16_nth)

lemma recv_conf_req:
  assumes "e_io_ok E = (\<lambda>_. True)" "sees to_dualsense tr r v" "handle AND 0x0fff \<in> set (v_open v)" "\<not> v_incoming v"
  shows "\<exists>r'. handle_bluetooth_data E to_dualsense
      (signal handle L2CAP_CONF_REQ ident (conf_req (ch_scid channel) mtu)) r = Some r' \<and>
    sees to_dualsense tr r' (v_next channel (v_accept channel ident mtu v))"
proof -
  let ?s = to_dualsense and ?data = "conf_req (ch_scid channel) mtu"
  let ?opt = "[L2CAP_CONF_MTU, 2] @ put_le16 mtu" and ?r = "heard to_dualsense handle ident r"
  have "handle AND 0x0fff \<in> set (h_open_handles (r_h r ?s))" using assms(2,3) by (simp add: seesD)
  then obtain pc where pc: "ahead pc = ?data"
      "handle_bluetooth_data E ?s (signal handle L2CAP_CONF_REQ ident ?data) r =
        Some (handle_conf_request E ?s pc ?r)"
    by (rule recv_signal [rotated, where data = ?data and code = L2CAP_CONF_REQ])
      (simp_all add: conf_req_def put_le16_nth consts_def)
  obtain pc' where pc': "PacketContents_get 4 pc = (Some (put_le16 (ch_scid channel) @ put_le16 0), pc')"
      "ahead pc' = ?opt"
    using pc.get_total [of 4 pc] pc(1) by (auto simp: conf_req_def put_le16_nth)
  moreover have "fst (PacketContents_get 4 pc') = Some ?opt"
    using get_prefix [of 4 pc'] pc'(2) by (simp add: put_le16_nth)
  moreover have "le16_at (put_le16 (ch_scid channel) @ put_le16 0) 0 = ch_scid channel" by simp
  moreover have "h_current_cmd_ident (r_h ?r ?s) = ident" "h_dcid (r_h ?r ?s) = v_dcid v"
    using assms(2) by (simp_all add: heard_def set_reasm_def sees_def)
  ultimately have "handle_conf_request E ?s pc ?r = conf_chain E ?s channel
      (l2cap_send_cmd_response E ?s ident L2CAP_CONF_RSP (conf_rsp (v_dcid v channel) @ ?opt) ?r)"
    by (simp add: handle_conf_request_def conf_rsp_def Let_def)
  moreover have sees: "sees ?s tr (l2cap_send_cmd_response E ?s ident L2CAP_CONF_RSP
      (conf_rsp (v_dcid v channel) @ ?opt) ?r) (v_accept channel ident mtu v)"
    using assms(1,2) by (simp add: v_accept_def sees_intros conf_rsp_def put_le16_nth)
  moreover have "sees ?s tr r1 v1 \<Longrightarrow> \<not> v_incoming v1 \<Longrightarrow>
      sees ?s tr (conf_chain E ?s channel r1) (v_next channel v1)" for r1 v1
    using assms(1) by (cases channel) (simp_all add: conf_chain_def v_next_def sees_open_channel seesD)
  ultimately show ?thesis
    using pc(2) assms(4) by (simp add: v_accept_def v_response_def)
qed

definition v_configured :: "HciChannel \<Rightarrow> sig_view \<Rightarrow> sig_view" where
  "v_configured channel v = (case channel of
     sdp_client_channel \<Rightarrow>
       if v_dcid v channel = 0 then v
       else v\<lparr>v_new := v_new v @ [acl_frame (v_handle v) (v_dcid v channel) sdp_browse]\<rparr>
   | hid_interrupt_channel \<Rightarrow>
       v\<lparr>v_tasks := v_tasks v @ [(v_now v, to_dualsense, TStartUsbGadget)]\<rparr>
   | _ \<Rightarrow> v)"

lemma recv_conf_rsp:
  assumes "e_io_ok E = (\<lambda>_. True)" "sees to_dualsense tr r v" "handle AND 0x0fff \<in> set (v_open v)"
  shows "\<exists>r'. handle_bluetooth_data E to_dualsense (signal handle L2CAP_CONF_RSP ident (conf_rsp (ch_scid channel))) r =
      Some r' \<and> sees to_dualsense tr r' (v_configured channel v)"
proof -
  let ?s = to_dualsense and ?data = "conf_rsp (ch_scid channel)"
  have "handle AND 0x0fff \<in> set (h_open_handles (r_h r ?s))" using assms(2,3) by (simp add: seesD)
  then obtain pc where pc: "ahead pc = ?data"
      "handle_bluetooth_data E ?s (signal handle L2CAP_CONF_RSP ident ?data) r =
        Some (handle_conf_response E ?s pc (heard ?s handle ident r))"
    by (rule recv_signal [rotated, where data = ?data and code = L2CAP_CONF_RSP])
      (simp_all add: conf_rsp_def put_le16_nth consts_def)
  have "fst (PacketContents_get 6 pc) = Some ?data"
    using get_prefix [of 6 pc] pc(1) by (simp add: conf_rsp_def put_le16_nth)
  then have "handle_conf_response E ?s pc r1 = (case channel of
      sdp_client_channel \<Rightarrow> l2cap_send_data E ?s sdp_client_channel sdp_browse r1
    | hid_interrupt_channel \<Rightarrow> spawn ?s 0 TStartUsbGadget r1 | _ \<Rightarrow> r1)" for r1
    by (cases channel) (simp_all add: handle_conf_response_def conf_rsp_def Let_def)
  moreover have "sees ?s tr r1 v \<Longrightarrow> sees ?s tr (l2cap_send_data E ?s sdp_client_channel sdp_browse r1)
      (v_configured sdp_client_channel v)" for r1
    using assms(1)
    by (auto simp: l2cap_send_data_def l2cap_send_framed_def l2cap_send_frame_def v_configured_def sees_def
        sdp_browse_def WRITE_BUFFER_SIZE_def HCI_ACL_HDR_SIZE_def L2CAP_HDR_SIZE_def Let_def)
  moreover have "sees ?s tr r1 v \<Longrightarrow> sees ?s tr (spawn ?s 0 TStartUsbGadget r1) (v_configured hid_interrupt_channel v)" for r1
    using sees_spawn [of ?s tr r1 v 0] by (simp add: v_configured_def)
  ultimately show ?thesis
    using pc(2) assms(2) by (cases channel) (simp_all add: v_configured_def)
qed

section \<open>A peer that grants everything\<close>

text \<open>
  The three packets of one channel: the connection granted, the peer's configuration, and
  its answer to the relay's. \<open>i\<close> numbers the packets.
\<close>

definition granted :: "u16 \<Rightarrow> (nat \<Rightarrow> byte) \<Rightarrow> nat \<Rightarrow> HciChannel \<Rightarrow> u16 \<Rightarrow> u16 \<Rightarrow> bytes list" where
  "granted handle i k channel dcid mtu =
    [signal handle L2CAP_CONN_RSP (i k) (conn_rsp dcid (ch_scid channel)),
     signal handle L2CAP_CONF_REQ (i (k + 1)) (conf_req (ch_scid channel) mtu),
     signal handle L2CAP_CONF_RSP (i (k + 2)) (conf_rsp (ch_scid channel))]"

definition v_granted :: "(nat \<Rightarrow> byte) \<Rightarrow> nat \<Rightarrow> HciChannel \<Rightarrow> u16 \<Rightarrow> u16 \<Rightarrow> sig_view \<Rightarrow> sig_view" where
  "v_granted i k channel dcid mtu v =
    v_configured channel (v_next channel (v_accept channel (i (k + 1)) mtu (v_configure channel dcid v)))"

lemmas v_granted_defs = v_granted_def v_configured_def v_next_def v_accept_def v_configure_def
  v_open_channel_def v_request_def v_response_def

lemma v_granted_keeps [simp]:
  "v_open (v_granted i k channel dcid mtu v) = v_open v"
  "v_incoming (v_granted i k channel dcid mtu v) = v_incoming v"
  by (cases channel; simp add: v_granted_defs)+

lemma receive_granted:
  assumes "e_io_ok E = (\<lambda>_. True)" "sees to_dualsense tr r v" "handle AND 0x0fff \<in> set (v_open v)" "\<not> v_incoming v"
  shows "\<exists>r'. receive E to_dualsense (granted handle i k channel dcid mtu) r = Some r' \<and>
    sees to_dualsense tr r' (v_granted i k channel dcid mtu v)"
proof -
  let ?v1 = "v_configure channel dcid v"
  let ?v2 = "v_next channel (v_accept channel (i (k + 1)) mtu ?v1)"
  have v1: "handle AND 0x0fff \<in> set (v_open ?v1)" "\<not> v_incoming ?v1"
    using assms(3,4) by (simp_all add: v_granted_defs)
  have v2: "handle AND 0x0fff \<in> set (v_open ?v2)"
    using assms(3) by (cases channel) (simp_all add: v_granted_defs)
  obtain r1 where r1: "handle_bluetooth_data E to_dualsense
      (signal handle L2CAP_CONN_RSP (i k) (conn_rsp dcid (ch_scid channel))) r = Some r1"
      "sees to_dualsense tr r1 ?v1"
    using recv_conn_rsp [OF assms(1-3)] by blast
  obtain r2 where r2: "handle_bluetooth_data E to_dualsense
      (signal handle L2CAP_CONF_REQ (i (k + 1)) (conf_req (ch_scid channel) mtu)) r1 = Some r2"
      "sees to_dualsense tr r2 ?v2"
    using recv_conf_req [OF assms(1) r1(2) v1] by blast
  obtain r3 where "handle_bluetooth_data E to_dualsense
      (signal handle L2CAP_CONF_RSP (i (k + 2)) (conf_rsp (ch_scid channel))) r2 = Some r3"
      "sees to_dualsense tr r3 (v_configured channel ?v2)"
    using recv_conf_rsp [OF assms(1) r2(2) v2] by blast
  with r1(1) r2(1) show ?thesis by (simp add: granted_def v_granted_def)
qed

section \<open>Properties\<close>

text \<open>
  A request for a channel is answered: On an open link the peer that asks for one of
  the three services gets a positive response naming the relay's end of that channel and the
  peer's own, followed by the relay's configuration request for it, and the peer's end is
  remembered; any other service is refused, and nothing is remembered.
\<close>

theorem conn_request_answered:
  assumes "e_io_ok E = (\<lambda>_. True)" and "handle AND 0x0fff \<in> set (h_open_handles (r_h r s))"
  shows "\<exists>r'. handle_bluetooth_data E s (signal handle L2CAP_CONN_REQ ident (put_le16 psm @ put_le16 scid)) r = Some r' \<and>
    (let answer = (\<lambda>code ident data. (s, AclWrite (signal (h_connection_handle (r_h r s)) code ident data)))
     in case get_channel_by_psm psm of
          Some channel \<Rightarrow>
            ch_psm channel = psm \<and> h_dcid (r_h r' s) = (h_dcid (r_h r s))(channel := scid) \<and>
            r_trace r' = r_trace r @
              [answer L2CAP_CONN_RSP ident (put_le16 (ch_scid channel) @ put_le16 scid @ put_le16 0 @ put_le16 0),
               answer L2CAP_CONF_REQ (h_cmd_request_ident (r_h r s)) (conf_req scid (ch_mtu channel))]
        | None \<Rightarrow>
            psm \<notin> {0x01, 0x11, 0x13} \<and> h_dcid (r_h r' s) = h_dcid (r_h r s) \<and>
            r_trace r' = r_trace r @
              [answer L2CAP_CONN_RSP ident (put_le16 0 @ put_le16 scid @ put_le16 2 @ put_le16 0)])"
proof -
  let ?data = "put_le16 psm @ put_le16 scid" and ?r = "heard s handle ident r"
  obtain pc where pc: "ahead pc = ?data"
      "handle_bluetooth_data E s (signal handle L2CAP_CONN_REQ ident ?data) r =
        Some (handle_conn_req E s ident pc ?r)"
    using assms(2) by (rule recv_signal [rotated, where data = ?data and code = L2CAP_CONN_REQ])
      (simp_all add: put_le16_nth consts_def)
  have "fst (PacketContents_get 4 pc) = Some ?data"
    using get_prefix [of 4 pc] pc(1) by (simp add: put_le16_nth)
  moreover have "le16_at ?data 0 = psm" "le16_at ?data 2 = scid"
    using le16_fields(1) [of psm "put_le16 scid"] le16_fields(2) [of psm scid "[]"] by simp_all
  moreover have "get_channel_by_psm psm = Some channel \<Longrightarrow> ch_psm channel = psm" for channel
    by (auto simp: get_channel_by_psm_def split: if_splits)
  moreover have "get_channel_by_psm psm = None \<Longrightarrow> psm \<notin> {0x01, 0x11, 0x13}"
    by (auto simp: get_channel_by_psm_def)
  ultimately show ?thesis
    using pc(2) assms(1)
    by (cases "get_channel_by_psm psm")
      (simp_all add: handle_conn_req_def l2cap_send_configure_mtu_request_def l2cap_send_cmd_request_def
        l2cap_send_cmd_response_def l2cap_send_cmd_ok set_dcid_def heard_def set_reasm_def conf_req_def
        put_le16_nth Let_def)
qed

theorem conn_request_answered_witness:
  "\<exists>r'. handle_bluetooth_data demo_env to_playstation
      (signal 11 L2CAP_CONN_REQ 5 (put_le16 0x11 @ put_le16 0x40)) demo_relay = Some r' \<and>
    h_dcid (r_h r' to_playstation) hid_control_channel = 0x40 \<and> length (r_trace r') = length (r_trace demo_relay) + 2"
proof -
  have "get_channel_by_psm 0x11 = Some hid_control_channel" by (simp add: get_channel_by_psm_def)
  with conn_request_answered [of demo_env 11 demo_relay to_playstation 5 "0x11" "0x40"]
  show ?thesis by (auto simp: demo_env_def Let_def)
qed

text \<open>
  C18 (the channels to the pad come up in order). Once the relay has asked for the service
  discovery channel, a pad that grants every request brings up all three channels: discovery,
  control, interrupt, each asked for only when the one before it is configured. The relay
  configures each, answers each configuration with the pad's own option, browses the pad's
  services, and starts the USB gadget once and only when the last channel is configured.
\<close>

theorem pad_channels_opened:
  assumes "e_io_ok E = (\<lambda>_. True)" "handle AND 0x0fff \<in> set (h_open_handles (r_h r to_dualsense))"
    and "h_connection_handle (r_h r to_dualsense) = handle" "\<not> h_incoming_link (r_h r to_dualsense)"
    and "h_cmd_request_ident (r_h r to_dualsense) = n" "d1 \<noteq> 0"
  shows "\<exists>r'. receive E to_dualsense (granted handle i 0 sdp_client_channel d1 m1 @
        granted handle i 3 hid_control_channel d2 m2 @ granted handle i 6 hid_interrupt_channel d3 m3) r = Some r' \<and>
    h_dcid (r_h r' to_dualsense) = (h_dcid (r_h r to_dualsense))
      (sdp_client_channel := d1, hid_control_channel := d2, hid_interrupt_channel := d3) \<and>
    r_tasks r' = r_tasks r @ [(r_now r, to_dualsense, TStartUsbGadget)] \<and>
    r_trace r' = r_trace r @ map (\<lambda>f. (to_dualsense, AclWrite f))
      [signal handle L2CAP_CONF_REQ n (conf_req d1 1000),
       signal handle L2CAP_CONF_RSP (i 1) (conf_rsp d1 @ [L2CAP_CONF_MTU, 2] @ put_le16 m1),
       signal handle L2CAP_CONN_REQ (n + 1) (put_le16 0x11 @ put_le16 0x7108),
       acl_frame handle d1 sdp_browse,
       signal handle L2CAP_CONF_REQ (n + 2) (conf_req d2 185),
       signal handle L2CAP_CONF_RSP (i 4) (conf_rsp d2 @ [L2CAP_CONF_MTU, 2] @ put_le16 m2),
       signal handle L2CAP_CONN_REQ (n + 3) (put_le16 0x13 @ put_le16 0x720f),
       signal handle L2CAP_CONF_REQ (n + 4) (conf_req d3 672),
       signal handle L2CAP_CONF_RSP (i 7) (conf_rsp d3 @ [L2CAP_CONF_MTU, 2] @ put_le16 m3)]"
proof -
  define v where "v = \<lparr>v_handle = handle, v_open = h_open_handles (r_h r to_dualsense), v_incoming = False,
    v_dcid = h_dcid (r_h r to_dualsense), v_ident = n, v_new = [], v_tasks = r_tasks r, v_now = r_now r\<rparr>"
  have v: "sees to_dualsense (r_trace r) r v" "handle AND 0x0fff \<in> set (v_open v)" "\<not> v_incoming v"
    using assms(2-5) by (simp_all add: v_def sees_def)
  obtain r1 where r1: "receive E to_dualsense (granted handle i 0 sdp_client_channel d1 m1) r = Some r1"
      "sees to_dualsense (r_trace r) r1 (v_granted i 0 sdp_client_channel d1 m1 v)"
    using receive_granted [OF assms(1) v] by blast
  obtain r2 where r2: "receive E to_dualsense (granted handle i 3 hid_control_channel d2 m2) r1 = Some r2"
      "sees to_dualsense (r_trace r) r2 (v_granted i 3 hid_control_channel d2 m2 (v_granted i 0 sdp_client_channel d1 m1 v))"
    using receive_granted [OF assms(1) r1(2), of handle] v by (simp, blast)
  obtain r3 where r3: "receive E to_dualsense (granted handle i 6 hid_interrupt_channel d3 m3) r2 = Some r3"
      "sees to_dualsense (r_trace r) r3 (v_granted i 6 hid_interrupt_channel d3 m3
        (v_granted i 3 hid_control_channel d2 m2 (v_granted i 0 sdp_client_channel d1 m1 v)))"
    using receive_granted [OF assms(1) r2(2), of handle] v by (simp, blast)
  have "receive E to_dualsense (granted handle i 0 sdp_client_channel d1 m1 @
      granted handle i 3 hid_control_channel d2 m2 @ granted handle i 6 hid_interrupt_channel d3 m3) r = Some r3"
    using r1(1) r2(1) r3(1) by (simp add: receive_append)
  then show ?thesis
    using r3(2) assms(6)
    by (simp add: sees_def v_def v_granted_defs add.assoc)
qed

theorem pad_channels_opened_witness:
  "\<exists>r'. receive demo_env to_dualsense (granted 11 of_nat 0 sdp_client_channel 0x40 672 @
      granted 11 of_nat 3 hid_control_channel 0x41 672 @ granted 11 of_nat 6 hid_interrupt_channel 0x42 672)
      demo_relay = Some r' \<and> h_dcid (r_h r' to_dualsense) hid_interrupt_channel = 0x42 \<and>
    r_tasks r' = [(seconds 1, to_dualsense, TStartUsbGadget)]"
proof -
  have "r_tasks demo_relay = []" "r_now demo_relay = seconds 1" "\<not> h_incoming_link (r_h demo_relay to_dualsense)"
    by (simp_all add: demo_relay_def relay_start_def demo_setup_def with_pairing_def handler_init_def Let_def)
  with pad_channels_opened [of demo_env 11 demo_relay _ "0x40" of_nat 672 "0x41" 672 "0x42" 672]
  show ?thesis by (auto simp: demo_env_def)
qed

end
