(* ===== verification/Battery.thy ===== *)
theory Battery
  imports HidRelay
begin

unbundle bit_operations_syntax

text \<open>
  The battery filter of \<^verbatim>\<open>log_pad_battery\<close> against what it is for: a line is printed for a
  status seen three times running, and not twice for the same one.
\<close>

text \<open>A status byte the filter takes at all: a known charging state and a level up to 10.\<close>

definition battery_valid :: "byte \<Rightarrow> bool" where
  "battery_valid x \<longleftrightarrow> charging_known (drop_bit 4 x) \<and> x AND 0x0f \<le> 10"

definition battery_init :: battery_filter where
  "battery_init = \<lparr>bf_candidate = 0xff, bf_seen = 0, bf_reported = 0xff\<rparr>"

text \<open>The lines printed for a sequence of samples, and the filter after them.\<close>

primrec battery_run :: "bytes \<Rightarrow> battery_filter \<Rightarrow> bytes \<times> battery_filter" where
  "battery_run [] b = ([], b)"
| "battery_run (x # xs) b =
    (let y = battery_sample x b; z = battery_run xs (snd y)
     in ((if fst y then [x] else []) @ fst z, snd z))"

lemma battery_run_append:
  "battery_run (xs @ ys) b =
    (let y = battery_run xs b; z = battery_run ys (snd y) in (fst y @ fst z, snd z))"
  by (induction xs arbitrary: b) (simp_all add: Let_def)

text \<open>How often the last valid sample has been repeated at the end.\<close>

definition run_length :: "byte \<Rightarrow> bytes \<Rightarrow> nat" where
  "run_length x xs = length (takeWhile (\<lambda>y. y = x) (rev (filter battery_valid xs)))"

definition last_line :: "bytes \<Rightarrow> byte" where
  "last_line ls = (if ls = [] then 0xff else last ls)"

lemma not_valid_ff: "\<not> battery_valid 0xff"
  by (simp add: battery_valid_def)

lemma battery_sample_eq:
  "battery_sample x b =
    (if \<not> battery_valid x then (False, b)
     else if x \<noteq> bf_candidate b then (False, b\<lparr>bf_candidate := x, bf_seen := 1\<rparr>)
     else if bf_seen b < 2 \<or> x = bf_reported b then (False, b\<lparr>bf_seen := bf_seen b + 1\<rparr>)
     else (True, b\<lparr>bf_seen := bf_seen b + 1, bf_reported := x\<rparr>))"
  by (auto simp: battery_sample_def battery_valid_def Let_def not_less)

lemma run_length_snoc:
  "run_length x (xs @ [y]) =
    (if \<not> battery_valid y then run_length x xs else if y = x then Suc (run_length x xs) else 0)"
  by (simp add: run_length_def)

text \<open>What the three statics hold after any samples.\<close>

definition battery_inv :: "bytes \<Rightarrow> battery_filter \<Rightarrow> bytes \<Rightarrow> bool" where
  "battery_inv xs b ls \<longleftrightarrow> bf_reported b = last_line ls \<and> 0 \<le> bf_seen b \<and>
    (if filter battery_valid xs = [] then bf_candidate b = 0xff
     else bf_candidate b = last (filter battery_valid xs) \<and>
       nat (bf_seen b) = run_length (bf_candidate b) xs)"

lemma battery_inv_snoc:
  assumes "battery_inv xs b ls"
  shows "battery_inv (xs @ [y]) (snd (battery_sample y b))
    (ls @ (if fst (battery_sample y b) then [y] else []))"
proof -
  consider (skip) "\<not> battery_valid y" | (new) "battery_valid y" "y \<noteq> bf_candidate b"
    | (again) "battery_valid y" "y = bf_candidate b" by blast
  then show ?thesis
  proof cases
    case skip
    with assms show ?thesis by (simp add: battery_inv_def battery_sample_eq run_length_snoc)
  next
    case new
    have "run_length y (xs @ [y]) = 1"
    proof (cases "filter battery_valid xs" rule: rev_cases)
      case Nil
      with new show ?thesis by (simp add: run_length_def)
    next
      case (snoc vs v)
      with assms new show ?thesis by (simp add: battery_inv_def run_length_def)
    qed
    with assms new show ?thesis by (simp add: battery_inv_def battery_sample_eq)
  next
    case again
    then have "filter battery_valid xs \<noteq> []"
      using assms not_valid_ff by (auto simp: battery_inv_def)
    with assms again have old: "nat (bf_seen b) = run_length y xs" "0 \<le> bf_seen b"
      "bf_reported b = last_line ls"
      by (simp_all add: battery_inv_def)
    then show ?thesis
      using again by (simp add: battery_inv_def battery_sample_eq run_length_snoc last_line_def nat_add_distrib)
  qed
qed

lemma battery_run_inv:
  "battery_inv xs (snd (battery_run xs battery_init)) (fst (battery_run xs battery_init))"
proof (induction xs rule: rev_induct)
  case Nil
  then show ?case by (simp add: battery_inv_def battery_init_def last_line_def)
next
  case (snoc y xs)
  from battery_inv_snoc [OF this, of y] show ?case
    by (simp add: battery_run_append Let_def)
qed

lemma run_length_last:
  "battery_valid x \<Longrightarrow> filter battery_valid xs \<noteq> [] \<Longrightarrow> x \<noteq> last (filter battery_valid xs) \<Longrightarrow>
    run_length x xs = 0"
  by (cases "filter battery_valid xs" rule: rev_cases) (simp_all add: run_length_def)

text \<open>
  The battery line is debounced: After any samples since the start, the next one prints
  a line exactly when it is a valid status, the last two valid samples were the same, and it
  is not the status printed last; samples that are no status bytes at all, as in the frames of
  the other stream, neither count nor interrupt.
\<close>

theorem battery_line_debounced:
  "fst (battery_sample x (snd (battery_run xs battery_init))) \<longleftrightarrow>
    battery_valid x \<and> 2 \<le> run_length x xs \<and> x \<noteq> last_line (fst (battery_run xs battery_init))"
proof -
  let ?b = "snd (battery_run xs battery_init)" and ?ls = "fst (battery_run xs battery_init)"
  have inv: "battery_inv xs ?b ?ls" by (rule battery_run_inv)
  show ?thesis
  proof (cases "battery_valid x \<and> x = bf_candidate ?b")
    case True
    then have "filter battery_valid xs \<noteq> []"
      using inv not_valid_ff by (auto simp: battery_inv_def)
    then have "nat (bf_seen ?b) = run_length x xs" "0 \<le> bf_seen ?b" "bf_reported ?b = last_line ?ls"
      using inv True by (auto simp: battery_inv_def)
    with True show ?thesis by (auto simp: battery_sample_eq)
  next
    case False
    then have "battery_valid x \<Longrightarrow> run_length x xs = 0"
      using inv run_length_last [of x xs] by (auto simp: battery_inv_def run_length_def split: if_splits)
    with False show ?thesis by (auto simp: battery_sample_eq)
  qed
qed

end
