(* ===== verification/Links.thy ===== *)
theory Links
  imports RelayStep Reception
begin

unbundle bit_operations_syntax

text \<open>
  The life of a link as events of the controller drive it: how a lost one is forgotten and
  retried, which failed pages are retried and when, which keys are answered with, and which
  connections are accepted.
\<close>

section \<open>An event through the first two layers\<close>

definition event_packet :: "byte \<Rightarrow> bytes \<Rightarrow> bytes" where
  "event_packet evt body = HCI_EVENT_PKT # evt # of_nat (length body) # body"

lemma recv_event:
  obtains pc1 pc where "handle_bluetooth_data E s (event_packet evt body) r = handle_event E s pc1 r"
    "PacketContents_get 2 pc1 = (Some [evt, of_nat (length body)], pc)" "ahead pc = body"
proof -
  let ?pc = "PacketContents_init (event_packet evt body)"
  obtain pc1 where 1: "PacketContents_get 1 ?pc = (Some [HCI_EVENT_PKT], pc1)"
      "ahead pc1 = evt # of_nat (length body) # body"
    using pc.get_total [of 1 ?pc] by (auto simp: event_packet_def)
  obtain pc2 where 2: "PacketContents_get 2 pc1 = (Some [evt, of_nat (length body)], pc2)" "ahead pc2 = body"
    using pc.get_total [of 2 pc1] 1(2) by auto
  have "handle_bluetooth_data E s (event_packet evt body) r = handle_event E s pc1 r"
    unfolding handle_bluetooth_data_def 1(1) by simp
  then show ?thesis using 2 by (rule that)
qed

lemma get_whole: "ahead pc = p \<Longrightarrow> fst (PacketContents_get (length p) pc) = Some p"
  by (simp add: pc.get_eq)

text \<open>The body of each event that matters below, with its fields in the controller's order.\<close>

definition disconn_complete :: "byte \<Rightarrow> u16 \<Rightarrow> byte \<Rightarrow> bytes" where
  "disconn_complete status handle reason =
    event_packet EVT_DISCONN_COMPLETE (status # put_le16 handle @ [reason])"

definition conn_complete :: "byte \<Rightarrow> u16 \<Rightarrow> bdaddr \<Rightarrow> bytes" where
  "conn_complete status handle addr =
    event_packet EVT_CONN_COMPLETE (status # put_le16 handle @ addr_bytes addr @ [1, 0])"

definition link_key_notify :: "bdaddr \<Rightarrow> bytes \<Rightarrow> bytes" where
  "link_key_notify addr key = event_packet EVT_LINK_KEY_NOTIFY (addr_bytes addr @ key @ [4])"

definition link_key_req :: "bdaddr \<Rightarrow> bytes" where
  "link_key_req addr = event_packet EVT_LINK_KEY_REQ (addr_bytes addr)"

lemmas evt_consts = EVT_CONN_COMPLETE_def EVT_CONN_REQUEST_def EVT_DISCONN_COMPLETE_def
  EVT_AUTH_COMPLETE_def EVT_ENCRYPT_CHANGE_def EVT_CMD_COMPLETE_def EVT_CMD_STATUS_def
  EVT_NUM_COMP_PKTS_def EVT_MODE_CHANGE_def EVT_LINK_KEY_REQ_def EVT_LINK_KEY_NOTIFY_def
  EVT_IO_CAPABILITY_REQUEST_def EVT_USER_CONFIRM_REQUEST_def

lemma recv_disconn_complete:
  "handle_bluetooth_data E s (disconn_complete status handle reason) r =
    Some (let r = forget_handle s handle r
      in if handle \<noteq> h_connection_handle (r_h r s) then r else link_lost E s reason r)"
proof -
  let ?body = "status # put_le16 handle @ [reason]"
  obtain pc1 pc where recv:
      "handle_bluetooth_data E s (event_packet EVT_DISCONN_COMPLETE ?body) r = handle_event E s pc1 r"
      "PacketContents_get 2 pc1 = (Some [EVT_DISCONN_COMPLETE, of_nat (length ?body)], pc)" "ahead pc = ?body"
    by (rule recv_event)
  have "fst (PacketContents_get 4 pc) = Some ?body"
    using get_whole [OF recv(3)] by (simp add: eval_nat_numeral)
  then have "handle_event E s pc1 r = Some (let r = forget_handle s handle r
      in if handle \<noteq> h_connection_handle (r_h r s) then r else link_lost E s reason r)"
    by (simp add: handle_event_def recv(2) handle_disconnect_complete_def evt_consts put_le16_nth Let_def)
  with recv(1) show ?thesis by (simp add: disconn_complete_def)
qed

lemma recv_conn_complete:
  "handle_bluetooth_data E s (conn_complete status handle addr) r = Some
    (let failed_incoming = (status \<noteq> HCI_SUCCESS \<and> h_accepted_incoming (r_h r s));
         r = (if failed_incoming then upd s (\<lambda>h. h\<lparr>h_accepted_incoming := False\<rparr>) r else r);
         r = (case other r s of
                Some os \<Rightarrow>
                  if \<not> failed_incoming \<and> s = to_dualsense \<and> h_scan_suppressed (r_h r os)
                  then write_scan_enable E os SCAN_PAGE_ONLY
                         (upd os (\<lambda>h. h\<lparr>h_scan_suppressed := False\<rparr>) r)
                  else r
              | None \<Rightarrow> r)
     in if status \<noteq> HCI_SUCCESS then handle_connection_failure E s status addr r
        else take_link E s handle addr r)"
proof -
  let ?body = "status # put_le16 handle @ addr_bytes addr @ [1, 0]"
  obtain pc1 pc where recv:
      "handle_bluetooth_data E s (event_packet EVT_CONN_COMPLETE ?body) r = handle_event E s pc1 r"
      "PacketContents_get 2 pc1 = (Some [EVT_CONN_COMPLETE, of_nat (length ?body)], pc)" "ahead pc = ?body"
    by (rule recv_event)
  have "fst (PacketContents_get 11 pc) = Some ?body"
    using get_whole [OF recv(3)] by (simp add: eval_nat_numeral)
  moreover have "addr_of (subspan 3 6 ?body) = addr"
    by (cases addr) (simp add: put_le16_nth subspan_def numeral_3_eq_3 addr_of_def addr_bytes_def eval_nat_numeral)
  ultimately have "handle_event E s pc1 r = Some (handle_connection_complete E s pc r)"
    "handle_connection_complete E s pc r = (let failed_incoming = (status \<noteq> HCI_SUCCESS \<and> h_accepted_incoming (r_h r s));
         r = (if failed_incoming then upd s (\<lambda>h. h\<lparr>h_accepted_incoming := False\<rparr>) r else r);
         r = (case other r s of
                Some os \<Rightarrow>
                  if \<not> failed_incoming \<and> s = to_dualsense \<and> h_scan_suppressed (r_h r os)
                  then write_scan_enable E os SCAN_PAGE_ONLY
                         (upd os (\<lambda>h. h\<lparr>h_scan_suppressed := False\<rparr>) r)
                  else r
              | None \<Rightarrow> r)
     in if status \<noteq> HCI_SUCCESS then handle_connection_failure E s status addr r
        else take_link E s handle addr r)"
    by (simp_all add: handle_event_def recv(2) handle_connection_complete_def evt_consts put_le16_nth Let_def)
  with recv(1) show ?thesis by (simp add: conn_complete_def)
qed

lemma recv_link_key_notify:
  assumes "length key = 16"
  shows "handle_bluetooth_data E s (link_key_notify addr key) r =
    Some (let r = upd s (\<lambda>h. h\<lparr>h_negotiated_link_key := key\<rparr>) r
      in if s = to_playstation
         then emit s (ConsolePairing (h_bt_addr (r_h r s)) key)
                (upd s (\<lambda>h. h\<lparr>h_console_link_key := key, h_console_pairing_seen := True\<rparr>) r)
         else emit s (LinkKeySaved key) r)"
proof -
  let ?body = "addr_bytes addr @ key @ [4]"
  obtain pc1 pc where recv:
      "handle_bluetooth_data E s (event_packet EVT_LINK_KEY_NOTIFY ?body) r = handle_event E s pc1 r"
      "PacketContents_get 2 pc1 = (Some [EVT_LINK_KEY_NOTIFY, of_nat (length ?body)], pc)" "ahead pc = ?body"
    by (rule recv_event)
  have "fst (PacketContents_get 23 pc) = Some ?body"
    using get_whole [OF recv(3)] assms by simp
  moreover have "subspan 6 16 ?body = key"
    using assms by (simp add: subspan_def)
  ultimately show ?thesis
    using recv(1)
    by (simp add: link_key_notify_def handle_event_def recv(2) handle_link_key_notify_def evt_consts Let_def)
qed

lemma recv_link_key_req:
  "handle_bluetooth_data E s (link_key_req addr) r =
    Some (case h_link_key (r_h r s) of
       Some key \<Rightarrow> send_cmd E s OGF_LINK_CTL OCF_LINK_KEY_REPLY (addr_bytes addr @ take 16 key) r
     | None \<Rightarrow> send_cmd E s OGF_LINK_CTL OCF_LINK_KEY_NEG_REPLY (addr_bytes addr) r)"
proof -
  let ?body = "addr_bytes addr"
  obtain pc1 pc where recv:
      "handle_bluetooth_data E s (event_packet EVT_LINK_KEY_REQ ?body) r = handle_event E s pc1 r"
      "PacketContents_get 2 pc1 = (Some [EVT_LINK_KEY_REQ, of_nat (length ?body)], pc)" "ahead pc = ?body"
    by (rule recv_event)
  have "fst (PacketContents_get 6 pc) = Some ?body"
    using get_whole [OF recv(3)] by simp
  then show ?thesis
    using recv(1)
    by (simp add: link_key_req_def handle_event_def recv(2) handle_link_key_request_def evt_consts Let_def
        split: option.split)
qed

section \<open>What commands leave alone\<close>

lemma send_cmd_keeps [simp]:
  "r_tasks (send_cmd E s ogf ocf p r) = r_tasks r"
  "r_now (send_cmd E s ogf ocf p r) = r_now r"
  "r_linked (send_cmd E s ogf ocf p r) = r_linked r"
  "h_dcid (r_h (send_cmd E s ogf ocf p r) s') = h_dcid (r_h r s')"
  "h_held (r_h (send_cmd E s ogf ocf p r) s') = h_held (r_h r s')"
  "h_acl (r_h (send_cmd E s ogf ocf p r) s') = h_acl (r_h r s')"
  "h_acl_reasm (r_h (send_cmd E s ogf ocf p r) s') = h_acl_reasm (r_h r s')"
  "h_reconnect_pending (r_h (send_cmd E s ogf ocf p r) s') = h_reconnect_pending (r_h r s')"
  "h_page_failures (r_h (send_cmd E s ogf ocf p r) s') = h_page_failures (r_h r s')"
  "h_handover_paging_since (r_h (send_cmd E s ogf ocf p r) s') = h_handover_paging_since (r_h r s')"
  "h_bt_addr (r_h (send_cmd E s ogf ocf p r) s') = h_bt_addr (r_h r s')"
  by (simp_all add: send_cmd_def pump_commands_def Let_def)

lemma other_send_cmd [simp]: "other (send_cmd E s ogf ocf p r) = other r"
  by (simp add: other_def fun_eq_iff)

lemma schedule_reconnect_keeps [simp]:
  "h_connection_handle (r_h (schedule_reconnect s d r) s') = h_connection_handle (r_h r s')"
  "h_dcid (r_h (schedule_reconnect s d r) s') = h_dcid (r_h r s')"
  "h_held (r_h (schedule_reconnect s d r) s') = h_held (r_h r s')"
  "h_open_handles (r_h (schedule_reconnect s d r) s') = h_open_handles (r_h r s')"
  "h_acl (r_h (schedule_reconnect s d r) s') = h_acl (r_h r s')"
  "h_acl_reasm (r_h (schedule_reconnect s d r) s') = h_acl_reasm (r_h r s')"
  by (simp_all add: schedule_reconnect_def)

lemma write_cmds_link_lost:
  "link_lost E s reason r =
    (let r = upd s (\<lambda>h. h\<lparr>h_link_sniffing := False, h_held := HeldFrame_clear (h_held h)\<rparr>) r;
         scan = (\<lambda>r. write_page_scan_activity E s PAGE_SCAN_INTERVAL_EAGER PAGE_SCAN_WINDOW_EAGER r);
         r = (if s = to_dualsense then scan r
              else write_scan_enable E s SCAN_PAGE_ONLY (scan (upd s (\<lambda>h. h\<lparr>h_on_play_link := False\<rparr>) r)));
         r = reset_channels s (upd s (\<lambda>h. h\<lparr>h_connection_handle := 0, h_incoming_link := False\<rparr>) r)
     in schedule_reconnect s
          (if s = to_playstation \<and> reason = DISCONNECT_REMOTE_USER then seconds 20 else seconds 3) r)"
  by (cases s) (simp_all add: link_lost_def Let_def)

lemma link_lost_state:
  "h_connection_handle (r_h (link_lost E s reason r) s) = 0"
  "h_dcid (r_h (link_lost E s reason r) s) c = 0"
  "h_held (r_h (link_lost E s reason r) s) = HeldFrame_clear (h_held (r_h r s))"
  "h_open_handles (r_h (link_lost E s reason r) s) = h_open_handles (r_h r s)"
  "h_acl (r_h (link_lost E s reason r) s) = h_acl (r_h r s)"
  "h_acl_reasm (r_h (link_lost E s reason r) s) = h_acl_reasm (r_h r s)"
  by (cases s; cases c; simp add: write_cmds_link_lost reset_channels_def write_page_scan_activity_def
      write_scan_enable_def Let_def)+

lemma link_lost_tasks:
  "r_tasks (link_lost E s reason r) = r_tasks r @
    (if h_reconnect_pending (r_h r s) then []
     else [(r_now r + (if s = to_playstation \<and> reason = DISCONNECT_REMOTE_USER then seconds 20 else seconds 3),
            s, TReconnect)])"
  by (cases s)
    (simp_all add: write_cmds_link_lost reset_channels_def write_page_scan_activity_def
      write_scan_enable_def schedule_reconnect_def Let_def)

lemma reconnects_pos: "0 < reconnects s ts \<Longrightarrow> \<exists>due. (due, s, TReconnect) \<in> set ts"
  by (auto simp: reconnects_def filter_empty_conv)

section \<open>Failed pages\<close>

text \<open>When the console-facing side pages again after a failure with \<open>status\<close>.\<close>

definition console_retry_delay :: "byte \<Rightarrow> time \<Rightarrow> handler \<Rightarrow> time" where
  "console_retry_delay status now h =
    (if h_handover_paging_since h \<noteq> time_unset \<and> now - h_handover_paging_since h < HANDOVER_PAGE_WINDOW \<and>
        status = HCI_PAGE_TIMEOUT
     then 0 else page_backoff (h_page_failures h + 1))"

lemma end_handover_paging_keeps [simp]:
  "r_tasks (end_handover_paging E s r) = r_tasks r"
  "r_now (end_handover_paging E s r) = r_now r"
  "h_page_failures (r_h (end_handover_paging E s r) s') = h_page_failures (r_h r s')"
  "h_reconnect_pending (r_h (end_handover_paging E s r) s') = h_reconnect_pending (r_h r s')"
  by (simp_all add: end_handover_paging_def write_page_timeout_def)

lemma console_page_failed_tasks:
  assumes "\<not> h_reconnect_pending (r_h r s)"
  shows "r_tasks (console_page_failed E s status r) =
      r_tasks r @ [(r_now r + console_retry_delay status (r_now r) (r_h r s), s, TReconnect)]"
    and "h_reconnect_pending (r_h (console_page_failed E s status r) s)"
  using assms
  by (auto simp: console_page_failed_def console_retry_delay_def schedule_reconnect_def Let_def)

lemma connection_failure_tasks:
  assumes "\<not> h_reconnect_pending (r_h r s)" "addr_is_set (h_bt_addr (r_h r s))"
  shows "r_tasks (handle_connection_failure E s status (h_bt_addr (r_h r s)) r) = r_tasks r @
    (if s = to_playstation
     then [(r_now r + console_retry_delay status (r_now r) (r_h r s), s, TReconnect)]
     else if status = HCI_PAGE_TIMEOUT \<or> status = HCI_REJECTED_PERSONAL
     then [(r_now r + seconds 3, s, TReconnect)] else [])"
  using assms
  by (cases s) (simp_all add: handle_connection_failure_def console_page_failed_tasks schedule_reconnect_def)

section \<open>Properties\<close>

text \<open>
  C21 (a lost link is forgotten and retried). After Disconnection Complete for the link in use
  the handler has no handle and no open channel, nothing counted in flight, no fragment and no
  held report of it, and a timer is running that will page the peer again, within 20 seconds
  if none was running before. The status of the event is not looked at: one that says the
  disconnect failed has the same effect.
\<close>

theorem lost_link_forgotten:
  assumes "tasks_ok r" "handle = h_connection_handle (r_h r s)"
  shows "\<exists>r'. handle_bluetooth_data E s (disconn_complete status handle reason) r = Some r' \<and>
    h_connection_handle (r_h r' s) = 0 \<and> (\<forall>c. h_dcid (r_h r' s) c = 0) \<and>
    handle \<notin> set (h_open_handles (r_h r' s)) \<and> h_acl_reasm (r_h r' s) handle = None \<and>
    fc_in_flight (h_acl (r_h r' s)) handle = None \<and> \<not> HeldFrame_valid (h_held (r_h r' s)) \<and>
    (\<exists>due. (due, s, TReconnect) \<in> set (r_tasks r') \<and>
      (due \<le> r_now r + seconds 20 \<or> h_reconnect_pending (r_h r s)))"
proof -
  let ?f = "forget_handle s handle r"
  let ?r' = "link_lost E s reason ?f"
  have f: "h_connection_handle (r_h ?f s) = handle" "r_tasks ?f = r_tasks r" "r_now ?f = r_now r"
    "h_reconnect_pending (r_h ?f s) = h_reconnect_pending (r_h r s)"
    "handle \<notin> set (h_open_handles (r_h ?f s))" "h_acl_reasm (r_h ?f s) handle = None"
    "fc_in_flight (h_acl (r_h ?f s)) handle = None"
    using assms(2) by (simp_all add: forget_handle_def AclFlowControl_on_disconnect_def split: option.split)
  have "handle_bluetooth_data E s (disconn_complete status handle reason) r = Some ?r'"
    using f(1) by (simp add: recv_disconn_complete Let_def)
  moreover have "\<not> HeldFrame_valid (h_held (r_h ?r' s))"
    by (simp add: link_lost_state HeldFrame_valid_def HeldFrame_clear_def)
  moreover have "\<exists>due. (due, s, TReconnect) \<in> set (r_tasks ?r') \<and>
      (due \<le> r_now r + seconds 20 \<or> h_reconnect_pending (r_h r s))"
  proof (cases "h_reconnect_pending (r_h r s)")
    case True
    then have "0 < reconnects s (r_tasks r)" using assms(1) by (simp add: tasks_ok_def)
    then obtain due where "(due, s, TReconnect) \<in> set (r_tasks r)" using reconnects_pos by blast
    with True f(2,4) show ?thesis by (auto simp: link_lost_tasks)
  next
    case False
    with f(2-4) show ?thesis by (auto simp: link_lost_tasks seconds_def)
  qed
  ultimately show ?thesis
    using f by (intro exI [of _ ?r']) (simp add: link_lost_state)
qed

theorem lost_link_forgotten_witness:
  "\<exists>r'. handle_bluetooth_data demo_env to_playstation (disconn_complete 0 11 0x13) demo_relay = Some r' \<and>
    h_connection_handle (r_h r' to_playstation) = 0"
proof -
  have "tasks_ok demo_relay"
    unfolding tasks_ok_def
  proof
    fix s
    show "reconnects s (r_tasks demo_relay) = (if h_reconnect_pending (r_h demo_relay s) then 1 else 0)"
      by (cases s) (simp_all add: demo_relay_def relay_start_def demo_setup_def with_pairing_def
          set_spoof_addr_def Let_def)
  qed
  then have "\<exists>r'. handle_bluetooth_data demo_env to_playstation (disconn_complete 0 11 0x13) demo_relay = Some r' \<and>
    h_connection_handle (r_h r' to_playstation) = 0 \<and> (\<forall>c. h_dcid (r_h r' to_playstation) c = 0) \<and>
    11 \<notin> set (h_open_handles (r_h r' to_playstation)) \<and> h_acl_reasm (r_h r' to_playstation) 11 = None \<and>
    fc_in_flight (h_acl (r_h r' to_playstation)) 11 = None \<and> \<not> HeldFrame_valid (h_held (r_h r' to_playstation)) \<and>
    (\<exists>due. (due, to_playstation, TReconnect) \<in> set (r_tasks r') \<and>
      (due \<le> r_now demo_relay + seconds 20 \<or> h_reconnect_pending (r_h demo_relay to_playstation)))"
    by (rule lost_link_forgotten) simp
  then show ?thesis by blast
qed



text \<open>
  C38 (a key just negotiated is refused on the next link). The key a pairing ends with is
  handed out to be saved but not kept where key requests are answered from: on a run that
  started without one, the pad that pairs and later asks for the key is told there is none and
  has to pair again.
\<close>

theorem negotiated_key_refused:
  assumes "h_link_key (r_h r s) = None" "length key = 16"
  shows "\<exists>r1. receive E s [link_key_notify addr key, link_key_req addr] r =
      Some (send_cmd E s OGF_LINK_CTL OCF_LINK_KEY_NEG_REPLY (addr_bytes addr) r1) \<and>
    h_negotiated_link_key (r_h r1 s) = key"
proof -
  obtain r1 where "handle_bluetooth_data E s (link_key_notify addr key) r = Some r1"
      "h_negotiated_link_key (r_h r1 s) = key" "h_link_key (r_h r1 s) = None"
    using assms by (cases s) (simp_all add: recv_link_key_notify Let_def)
  then show ?thesis by (auto simp: recv_link_key_req)
qed

theorem negotiated_key_refused_witness:
  "\<exists>r1. receive demo_env to_dualsense [link_key_notify demo_pad (replicate 16 9), link_key_req demo_pad] demo_relay =
      Some (send_cmd demo_env to_dualsense OGF_LINK_CTL OCF_LINK_KEY_NEG_REPLY (addr_bytes demo_pad) r1) \<and>
    h_negotiated_link_key (r_h r1 to_dualsense) = replicate 16 9"
  by (rule negotiated_key_refused) simp_all

end
