(* ===== verification/Saved.thy ===== *)
theory Saved
  imports Links
begin

unbundle bit_operations_syntax

text \<open>
  What \<^verbatim>\<open>src/src/main.cpp\<close> keeps between runs: the pad's link key and address in one file,
  the console's pairing with the controller it is for in the other. A file is its bytes, or
  \<open>None\<close> when it is not there. \<^verbatim>\<open>read_pod\<close> and \<^verbatim>\<open>write_pod\<close> copy the bytes of an array or
  an address; a read past the end fails and so do all reads after it.
\<close>

record files =
  f_state :: "bytes option"
  f_console :: "bytes option"

definition load_state :: "bytes option \<Rightarrow> (bytes \<times> bdaddr) option" where
  "load_state f =
    (case f of None \<Rightarrow> None
     | Some b \<Rightarrow> if length b < 22 then None else Some (take 16 b, addr_of (subspan 16 6 b)))"

text \<open>\<open>ok\<close>: whether the file could be opened for writing; if not it stays as it was.\<close>

definition save_state :: "bool \<Rightarrow> bytes \<Rightarrow> bdaddr \<Rightarrow> files \<Rightarrow> files" where
  "save_state ok key addr f = (if \<not> ok then f else f\<lparr>f_state := Some (key @ addr_bytes addr)\<rparr>)"

definition load_console_pairing :: "bdaddr \<Rightarrow> bytes option \<Rightarrow> (bdaddr \<times> bytes) option" where
  "load_console_pairing controller f =
    (case f of None \<Rightarrow> None
     | Some b \<Rightarrow>
         if length b < 28 then None
         else if addr_of (subspan 22 6 b) \<noteq> controller then None
         else Some (addr_of (subspan 16 6 b), take 16 b))"

definition save_console_pairing :: "bool \<Rightarrow> bdaddr \<Rightarrow> bytes \<Rightarrow> bdaddr \<Rightarrow> files \<Rightarrow> files" where
  "save_console_pairing ok addr key controller f =
    (if \<not> ok then f else f\<lparr>f_console := Some (key @ addr_bytes addr @ addr_bytes controller)\<rparr>)"

text \<open>
  The callbacks \<^verbatim>\<open>main\<close> installs: what an effect of the relay does to the files, \<open>ds_addr\<close>
  being the pad this run is for.
\<close>

fun persist :: "bool \<Rightarrow> bdaddr \<Rightarrow> EConnectionSide \<times> effect \<Rightarrow> files \<Rightarrow> files" where
  "persist ok ds_addr (s, LinkKeySaved key) f = save_state ok key ds_addr f"
| "persist ok ds_addr (s, LinkKeyRejected) f = f\<lparr>f_state := None\<rparr>"
| "persist ok ds_addr (s, ConsolePairing addr key) f = save_console_pairing ok addr key ds_addr f"
| "persist ok ds_addr (s, _) f = f"

text \<open>What \<^verbatim>\<open>main\<close> takes from the files at the start; \<open>mac\<close> is the address from the command line.\<close>

definition load_files :: "files \<Rightarrow> bdaddr \<Rightarrow> main_setup \<Rightarrow> main_setup" where
  "load_files f mac m =
    (let saved = load_state (f_state f);
         ds_addr = (case saved of Some (key, addr) \<Rightarrow> addr | None \<Rightarrow> mac)
     in m\<lparr>m_ds_addr := ds_addr, m_link_key := map_option fst saved,
          m_console := load_console_pairing ds_addr (f_console f)\<rparr>)"

section \<open>Round trips\<close>

lemma load_save_state:
  "length key = 16 \<Longrightarrow> load_state (f_state (save_state True key addr f)) = Some (key, addr)"
  by (simp add: load_state_def save_state_def subspan_def)

lemma load_save_console:
  "length key = 16 \<Longrightarrow>
    load_console_pairing c (f_console (save_console_pairing True addr key controller f)) =
    (if c = controller then Some (addr, key) else None)"
  by (simp add: load_console_pairing_def save_console_pairing_def subspan_def)

text \<open>
  Saved pairings come back, to their controller only: Both files read back what was
  saved; a console pairing saved for one controller is not used with another; and a file
  without the controller field, or cut short anywhere, is not used at all.
\<close>

theorem saved_pairings_roundtrip:
  assumes "length key = 16"
  shows "load_state (f_state (save_state True key addr f)) = Some (key, addr) \<and>
    load_console_pairing c (f_console (save_console_pairing True addr key controller f)) =
      (if c = controller then Some (addr, key) else None) \<and>
    load_state (map_option (take n) (f_state (save_state True key addr f))) =
      (if n < 22 then None else Some (key, addr)) \<and>
    load_console_pairing controller
      (map_option (take n) (f_console (save_console_pairing True addr key controller f))) =
      (if n < 28 then None else Some (addr, key))"
proof -
  have "load_state (map_option (take n) (f_state (save_state True key addr f))) =
      (if n < 22 then None else Some (key, addr))"
    using assms by (cases "n < 22") (auto simp: load_state_def save_state_def subspan_def min_def)
  moreover have "load_console_pairing controller
      (map_option (take n) (f_console (save_console_pairing True addr key controller f))) =
      (if n < 28 then None else Some (addr, key))"
    using assms
    by (cases "n < 28") (auto simp: load_console_pairing_def save_console_pairing_def subspan_def min_def)
  ultimately show ?thesis using assms by (simp add: load_save_state load_save_console)
qed

theorem saved_pairings_roundtrip_witness:
  "load_state (f_state (save_state True (replicate 16 5) demo_pad \<lparr>f_state = None, f_console = None\<rparr>)) =
      Some (replicate 16 5, demo_pad) \<and>
    load_console_pairing demo_pad (f_console (save_console_pairing True addr_any (replicate 16 5) demo_pad
      \<lparr>f_state = None, f_console = None\<rparr>)) = Some (addr_any, replicate 16 5)"
  using saved_pairings_roundtrip [of "replicate 16 5" demo_pad "\<lparr>f_state = None, f_console = None\<rparr>"
      demo_pad demo_pad 0]
    saved_pairings_roundtrip [of "replicate 16 5" addr_any "\<lparr>f_state = None, f_console = None\<rparr>"
      demo_pad demo_pad 0]
  by simp

text \<open>
  C26 (a key that was negotiated works after a restart). The key a pairing with the pad ends
  with reaches the file, and the next run, whatever address it was started with, pages that
  pad and answers its key request with that key.
\<close>

theorem negotiated_key_survives_restart:
  assumes "length key = 16"
  shows "\<exists>r'. handle_bluetooth_data E to_dualsense (link_key_notify addr key) r = Some r' \<and>
    (\<exists>new. r_trace r' = r_trace r @ new \<and>
      (let m' = load_files (fold (persist True ds_addr) new f) mac m in
        m_ds_addr m' = ds_addr \<and> h_bt_addr (r_h (relay_start m') to_dualsense) = ds_addr \<and>
        handle_bluetooth_data E' to_dualsense (link_key_req ds_addr) (relay_start m') =
          Some (send_cmd E' to_dualsense OGF_LINK_CTL OCF_LINK_KEY_REPLY (addr_bytes ds_addr @ key)
            (relay_start m'))))"
proof -
  let ?r' = "emit to_dualsense (LinkKeySaved key) (upd to_dualsense (\<lambda>h. h\<lparr>h_negotiated_link_key := key\<rparr>) r)"
  let ?m' = "load_files (save_state True key ds_addr f) mac m"
  have "handle_bluetooth_data E to_dualsense (link_key_notify addr key) r = Some ?r'"
    using assms by (simp add: recv_link_key_notify Let_def)
  moreover have "r_trace ?r' = r_trace r @ [(to_dualsense, LinkKeySaved key)]" by simp
  moreover have m': "m_ds_addr ?m' = ds_addr" "m_link_key ?m' = Some key"
    using assms by (simp_all add: load_files_def load_save_state Let_def)
  moreover have "h_bt_addr (r_h (relay_start ?m') to_dualsense) = ds_addr"
    "h_link_key (r_h (relay_start ?m') to_dualsense) = Some key"
    using m' by (cases "m_console ?m'";
        simp add: relay_start_def with_pairing_def set_console_pairing_def handler_init_def Let_def
          split: prod.split)+
  ultimately show ?thesis
    using assms
    by (intro exI [of _ ?r'] conjI exI [of _ "[(to_dualsense, LinkKeySaved key)]"])
      (simp_all add: recv_link_key_req Let_def)
qed

theorem negotiated_key_survives_restart_witness:
  "\<exists>r'. handle_bluetooth_data demo_env to_dualsense (link_key_notify demo_pad (replicate 16 5)) demo_relay = Some r' \<and>
    (\<exists>new. r_trace r' = r_trace demo_relay @ new \<and>
      (let m' = load_files (fold (persist True demo_pad) new \<lparr>f_state = None, f_console = None\<rparr>) addr_any demo_setup in
        m_ds_addr m' = demo_pad \<and> h_bt_addr (r_h (relay_start m') to_dualsense) = demo_pad \<and>
        handle_bluetooth_data demo_env to_dualsense (link_key_req demo_pad) (relay_start m') =
          Some (send_cmd demo_env to_dualsense OGF_LINK_CTL OCF_LINK_KEY_REPLY
            (addr_bytes demo_pad @ replicate 16 5) (relay_start m'))))"
  by (rule negotiated_key_survives_restart) simp

end
