(* ===== verification/TextFormat.thy ===== *)
theory TextFormat
  imports Prelude
begin

unbundle bit_operations_syntax

text \<open>
  The parts of \<^verbatim>\<open>std::format\<close> that the viewer's text is put together with: decimal numbers with
  a width, a sign or leading zeros, and the UTF-8 encoding of a character of three bytes.
\<close>

section \<open>Decimal numbers\<close>

definition digit :: "nat \<Rightarrow> char" where
  "digit d = char_of (48 + d)"

fun dec :: "nat \<Rightarrow> string" where
  "dec n = (if n < 10 then [digit n] else dec (n div 10) @ [digit (n mod 10)])"

declare dec.simps [simp del]

definition dec_int :: "int \<Rightarrow> string" where
  "dec_int i = (if i < 0 then ''-'' @ dec (nat (- i)) else dec (nat i))"

definition dec_signed :: "int \<Rightarrow> string" where
  "dec_signed i = (if i < 0 then dec_int i else ''+'' @ dec_int i)"

definition pad_with :: "char \<Rightarrow> nat \<Rightarrow> string \<Rightarrow> string" where
  "pad_with c width s = replicate (width - length s) c @ s"

abbreviation right_aligned :: "nat \<Rightarrow> string \<Rightarrow> string" where
  "right_aligned \<equiv> pad_with CHR '' ''"

abbreviation zero_padded :: "nat \<Rightarrow> string \<Rightarrow> string" where
  "zero_padded \<equiv> pad_with CHR ''0''"

section \<open>Characters\<close>

text \<open>The character with code point \<open>cp\<close>, between 0x800 and 0xffff.\<close>

definition utf8 :: "nat \<Rightarrow> string" where
  "utf8 cp = [char_of (0xe0 + cp div 4096), char_of (0x80 + cp div 64 mod 64), char_of (0x80 + cp mod 64)]"

definition NEWLINE :: char where [consts_def]: "NEWLINE = CHR 0x0a"
definition ESC :: char where [consts_def]: "ESC = CHR 0x1b"
definition RETURN :: char where [consts_def]: "RETURN = CHR 0x0d"

section \<open>Digits\<close>

lemma of_char_digit [simp]: "d < 10 \<Longrightarrow> (of_char (digit d) :: nat) = 48 + d"
  by (simp add: digit_def)

lemma set_dec: "set (dec n) \<subseteq> digit ` {..< 10}"
  by (induction n rule: dec.induct) (subst dec.simps, auto)

lemma length_dec_le: "n < 10 ^ k \<Longrightarrow> 0 < k \<Longrightarrow> length (dec n) \<le> k"
proof (induction n arbitrary: k rule: dec.induct)
  case (1 n)
  show ?case
  proof (cases "n < 10")
    case True
    then show ?thesis using "1.prems" by (subst dec.simps) simp
  next
    case False
    then obtain j where k: "k = Suc j" and j: "0 < j"
      using "1.prems" by (cases k; cases "k - 1") auto
    have "n div 10 < 10 ^ j" using "1.prems" k by (simp add: less_mult_imp_div_less mult.commute)
    then have "length (dec (n div 10)) \<le> j" using "1.IH" [OF False] j by blast
    then show ?thesis using False k by (subst dec.simps) simp
  qed
qed

lemma length_pad_with [simp]: "length (pad_with c w s) = max w (length s)"
  by (simp add: pad_with_def max_def)

end
