(* ===== verification/InputViewText.thy ===== *)
theory InputViewText
  imports InputFeed TextFormat
begin

unbundle bit_operations_syntax

text \<open>
  What \<^verbatim>\<open>src/src/input/InputView.cpp\<close> puts on the screen, piece by piece: the buttons, the
  trigger bars, the battery, the status with its clock, the sparkline of gaps, and the row of
  recent presses. \<open>c\<close> is the global \<^verbatim>\<open>g_colour\<close>.
\<close>

section \<open>The buttons\<close>

definition SQUARE :: u32 where [consts_def]: "SQUARE = 0x10"
definition CROSS :: u32 where [consts_def]: "CROSS = 0x20"
definition CIRCLE :: u32 where [consts_def]: "CIRCLE = 0x40"
definition TRIANGLE :: u32 where [consts_def]: "TRIANGLE = 0x80"
definition L1 :: u32 where [consts_def]: "L1 = 0x100"
definition R1 :: u32 where [consts_def]: "R1 = 0x200"
definition L2 :: u32 where [consts_def]: "L2 = 0x400"
definition R2 :: u32 where [consts_def]: "R2 = 0x800"
definition CREATE :: u32 where [consts_def]: "CREATE = 0x1000"
definition OPTIONS :: u32 where [consts_def]: "OPTIONS = 0x2000"
definition L3 :: u32 where [consts_def]: "L3 = 0x4000"
definition R3 :: u32 where [consts_def]: "R3 = 0x8000"
definition TOUCHPAD :: u32 where [consts_def]: "TOUCHPAD = 0x20000"
definition MUTE :: u32 where [consts_def]: "MUTE = 0x40000"
definition BUTTON_COUNT :: nat where [consts_def]: "BUTTON_COUNT = 19"

definition GREEN :: nat where [consts_def]: "GREEN = 46"
definition RED :: nat where [consts_def]: "RED = 196"
definition PINK :: nat where [consts_def]: "PINK = 213"
definition BLUE :: nat where [consts_def]: "BLUE = 75"
definition WHITE :: nat where [consts_def]: "WHITE = 15"
definition GREY :: nat where [consts_def]: "GREY = 240"
definition YELLOW :: nat where [consts_def]: "YELLOW = 220"

record ButtonLook =
  bl_bit :: u32
  bl_glyph :: string
  bl_name :: string
  bl_colour :: nat

definition looks :: "ButtonLook list" where
  "looks = map (\<lambda>(b, g, n, c). \<lparr>bl_bit = b, bl_glyph = g, bl_name = n, bl_colour = c\<rparr>)
    [(TRIANGLE, utf8 0x25b3, ''triangle'', GREEN),
     (CIRCLE, utf8 0x25ef, ''circle'', RED),
     (CROSS, utf8 0x2715, ''cross'', BLUE),
     (SQUARE, utf8 0x25a2, ''square'', PINK),
     (UP, utf8 0x2191, ''up'', WHITE),
     (RIGHT, utf8 0x2192, ''right'', WHITE),
     (DOWN, utf8 0x2193, ''down'', WHITE),
     (LEFT, utf8 0x2190, ''left'', WHITE),
     (L1, ''L1'', ''L1'', WHITE),
     (R1, ''R1'', ''R1'', WHITE),
     (L2, ''L2'', ''L2'', WHITE),
     (R2, ''R2'', ''R2'', WHITE),
     (L3, ''L3'', ''L3'', WHITE),
     (R3, ''R3'', ''R3'', WHITE),
     (CREATE, ''Create'', ''create'', WHITE),
     (OPTIONS, ''Options'', ''options'', WHITE),
     (PS, ''PS'', ''ps'', WHITE),
     (TOUCHPAD, ''Touch'', ''touchpad'', WHITE),
     (MUTE, ''Mute'', ''mute'', WHITE)]"

definition paint :: "bool \<Rightarrow> string \<Rightarrow> nat \<Rightarrow> bool \<Rightarrow> string" where
  "paint c text colour bold =
    (if \<not> c then text
     else ESC # ''['' @ (if bold then ''1;'' else '''') @ ''38;5;'' @ dec colour @ ''m'' @ text @ ESC # ''[0m'')"

definition columns :: "string \<Rightarrow> nat" where
  "columns s = length (filter (\<lambda>ch. (of_char ch :: byte) AND 0xc0 \<noteq> 0x80) s)"

definition button :: "bool \<Rightarrow> ButtonLook \<Rightarrow> u32 \<Rightarrow> string" where
  "button c b held =
    (let down = (held AND bl_bit b \<noteq> 0)
     in if \<not> c then (if down then bl_glyph b else replicate (columns (bl_glyph b)) CHR ''.'')
        else paint c (bl_glyph b) (if down then bl_colour b else GREY) down)"

text \<open>\<^verbatim>\<open>look\<close> dereferences what \<^verbatim>\<open>find\<close> returns; there is no look for another number.\<close>

definition look :: "u32 \<Rightarrow> ButtonLook option" where
  "look b = find (\<lambda>l. bl_bit l = b) looks"

section \<open>Bars, sticks, battery\<close>

definition eighths :: "string list" where
  "eighths = ['' '', utf8 0x258f, utf8 0x258e, utf8 0x258d, utf8 0x258c, utf8 0x258b, utf8 0x258a,
    utf8 0x2589, utf8 0x2588]"

definition bar_cells :: "byte \<Rightarrow> int \<Rightarrow> int list" where
  "bar_cells value width =
    (let total = uint value * width * 8 div 255
     in map (\<lambda>i. min 8 (max 0 (total - int i * 8))) [0 ..< nat width])"

definition bar :: "bool \<Rightarrow> byte \<Rightarrow> int \<Rightarrow> string" where
  "bar c value width =
    (let s = concat (map (\<lambda>cell. eighths ! nat cell) (bar_cells value width))
     in if c then paint c s (if value \<noteq> 0 then WHITE else GREY) False else ''['' @ s @ '']'')"

definition stick :: "byte \<Rightarrow> byte \<Rightarrow> string" where
  "stick x y = ''x '' @ right_aligned 4 (dec_signed (uint x - 128)) @
    '' y '' @ right_aligned 4 (dec_signed (uint y - 128))"

definition battery_blocks :: "nat \<Rightarrow> nat" where
  "battery_blocks capacity = (if capacity = 0 then 0 else if capacity \<le> 3 then 1 else if capacity \<le> 6 then 2 else 3)"

definition battery :: "bool \<Rightarrow> byte \<Rightarrow> bool \<Rightarrow> string" where
  "battery c status blink_on =
    (let state = unat (drop_bit 4 status); capacity = unat (status AND 0x0f)
     in if state = 0xa then paint c ''battery voltage out of range'' YELLOW False
        else if state = 0xb then paint c ''battery temperature out of range'' YELLOW False
        else if state = 0xf then paint c ''battery charging error'' RED False
        else if 10 < capacity then paint c ''battery ?'' GREY False
        else let blocks = battery_blocks capacity;
                 cells = concat (map (\<lambda>i. if i < blocks then utf8 0x25ae else utf8 0x25af) [0 ..< 3]);
                 cells = (if blocks = 0 \<and> \<not> blink_on then ''   '' else cells);
                 label = (if state = 2 then '' full'' else if state = 1 then '' charging'' else '''')
             in if \<not> c then ''['' @ cells @ '']'' @ label
                else paint c cells (if blocks = 3 then GREEN else if blocks = 2 then YELLOW else RED) True @
                     paint c label GREY False)"

section \<open>The log\<close>

text \<open>
  \<^verbatim>\<open>localtime_r\<close> and \<^verbatim>\<open>strftime\<close> depend on the time zone: \<open>local_date\<close> is the date and time
  of a number of seconds.
\<close>

definition wall_time :: "(u64 \<Rightarrow> string) \<Rightarrow> u64 \<Rightarrow> string" where
  "wall_time local_date realtime_ns =
    local_date (realtime_ns div 1000000000) @ ''.'' @
    zero_padded 3 (dec (unat (realtime_ns div 1000000 mod 1000)))"

record Log =
  log_file :: bool
  log_to_stdout :: bool

record LogOut =
  out_file :: "string list"
  out_stdout :: "string list"

definition Log_active :: "Log \<Rightarrow> bool" where
  "Log_active log \<longleftrightarrow> log_file log \<or> log_to_stdout log"

definition Log_line :: "Log \<Rightarrow> string \<Rightarrow> LogOut \<Rightarrow> LogOut" where
  "Log_line log text out =
    (let out = (if log_file log then out\<lparr>out_file := out_file out @ [text]\<rparr> else out)
     in if log_to_stdout log then out\<lparr>out_stdout := out_stdout out @ [text]\<rparr> else out)"

section \<open>The status\<close>

definition say :: "int \<Rightarrow> string \<Rightarrow> string option \<Rightarrow> string" where
  "say s what hint =
    utf8 0x25cf @ '' '' @ what @ ''  '' @ dec_int (s div 60) @ '':'' @ zero_padded 2 (dec_int (s mod 60)) @
    (case hint of Some h \<Rightarrow> '' - '' @ h | None \<Rightarrow> [])"

definition describe :: "Link \<Rightarrow> int \<Rightarrow> bool \<Rightarrow> string \<times> nat" where
  "describe link s pad_silent =
    (case l_stage link of
       STAGE_PAD_SEARCH \<Rightarrow> (say s ''looking for the DualSense'' (Some ''press PS on it''), YELLOW)
     | STAGE_PAD_CONNECT \<Rightarrow> (say s ''DualSense found, connecting'' None, WHITE)
     | STAGE_USB_WAIT \<Rightarrow>
         if s < 10 then (say s ''waiting for the PS5 to see the USB cable'' None, WHITE)
         else (say s ''waiting for the PS5 to see the USB cable'' (Some ''is it in the PS5?''), YELLOW)
     | STAGE_USB_READ \<Rightarrow>
         if s < 20 then (say s ''PS5 is reading the controller over USB'' None, WHITE)
         else (say s ''PS5 is reading the controller over USB'' (Some ''stuck? power the PS5 off fully''), YELLOW)
     | STAGE_USB_PRESS \<Rightarrow> (say s ''PS5 takes input over USB, pressing PS for it'' None, WHITE)
     | STAGE_CALLING \<Rightarrow>
         (say s (''calling the PS5 over Bluetooth, attempt '' @ dec (unat (l_call_attempt link))) None, WHITE)
     | STAGE_CONSOLE_CONNECT \<Rightarrow> (say s ''PS5 answered, opening the controller channels'' None, WHITE)
     | STAGE_RELAYING \<Rightarrow>
         if pad_silent then (utf8 0x25cf @ '' DualSense asleep - press PS to wake it'', YELLOW)
         else (utf8 0x25cf @ '' relaying'', GREEN))"

definition BLOCKS :: "string list" where
  "BLOCKS = map utf8 [0x2581, 0x2582, 0x2583, 0x2584, 0x2585, 0x2586, 0x2587, 0x2588]"

definition spark_index :: "u32 \<Rightarrow> nat" where
  "spark_index v = min (unat v) 200000 * 7 div 200000"

definition spark_colour :: "u32 \<Rightarrow> nat" where
  "spark_colour v = (if 100000 \<le> v then RED else if 40000 \<le> v then YELLOW else GREY)"

definition sparkline :: "bool \<Rightarrow> u32 list \<Rightarrow> string" where
  "sparkline c us = concat (map (\<lambda>v. paint c (BLOCKS ! spark_index v) (spark_colour v) False) us)"

section \<open>Recent presses\<close>

definition recent_label :: string where
  "recent_label = ''  recent ''"

text \<open>The loop over the presses, newest first, until one does not fit.\<close>

fun recent_shown :: "int \<Rightarrow> int \<Rightarrow> u32 list \<Rightarrow> ButtonLook list option" where
  "recent_shown budget width [] = Some []"
| "recent_shown budget width (b # bs) =
    (case look b of
       None \<Rightarrow> None
     | Some l \<Rightarrow>
         let w = int (columns (bl_glyph l)) + 1
         in if budget < width + w then Some []
            else map_option ((#) l) (recent_shown budget (width + w) bs))"

definition recent_line :: "bool \<Rightarrow> u32 list \<Rightarrow> int \<Rightarrow> string option" where
  "recent_line c recent cols =
    (let budget = min 64 (max 0 (cols - int (length recent_label) - 1))
     in map_option (\<lambda>shown. recent_label @ concat (map (\<lambda>b. '' '' @ paint c (bl_glyph b) (bl_colour b) True) shown))
          (recent_shown budget 0 (rev recent)))"

section \<open>What the pieces keep to\<close>

lemma columns_append [simp]: "columns (a @ b) = columns a + columns b"
  by (simp add: columns_def)

lemma columns_concat [simp]: "columns (concat xs) = sum_list (map columns xs)"
  by (induction xs) (simp_all add: columns_def)

lemma utf8_bytes:
  "list_all (\<lambda>n. (word_of_nat (0xe0 + n) :: byte) AND 0xc0 \<noteq> 0x80) [0 ..< 16]"
  "list_all (\<lambda>n. (word_of_nat (0x80 + n) :: byte) AND 0xc0 = 0x80) [0 ..< 64]"
  by code_simp+

lemma columns_utf8 [simp]:
  assumes "cp < 0x10000"
  shows "columns (utf8 cp) = 1"
proof -
  have of_char: "(of_char (char_of n) :: byte) = word_of_nat n" if "n < 256" for n :: nat
    using that of_nat_of_char [of "char_of n", where 'a = byte] by simp
  have "(word_of_nat (0xe0 + cp div 4096) :: byte) AND 0xc0 \<noteq> 0x80"
    using utf8_bytes(1) assms by (simp add: list_all_iff)
  moreover have "(word_of_nat (0x80 + n mod 64) :: byte) AND 0xc0 = 0x80" for n
    using utf8_bytes(2) by (simp add: list_all_iff)
  ultimately show ?thesis
    using assms by (simp add: columns_def utf8_def of_char)
qed

lemma find_looks: "find (\<lambda>l. bl_bit l = b) looks = Some l \<Longrightarrow> l \<in> set looks \<and> bl_bit l = b"
  by (auto simp: find_Some_iff)

end
