(* ===== verification/InputView.thy ===== *)
theory InputView
  imports InputViewText
begin

unbundle bit_operations_syntax

text \<open>
  The viewer \<^verbatim>\<open>padlog\<close> (\<^verbatim>\<open>src/src/input/InputView.cpp\<close>): the panel's state, the log of presses
  and releases, the line of the relay's log it shows, the block of lines it draws, and one
  round of the loop of \<^verbatim>\<open>main\<close>. What a round finds outside (clocks, files, the terminal's
  width, whether the relay still runs) is its argument.
\<close>

section \<open>The relay's own log\<close>

record RelayTail =
  rt_path :: string
  rt_last_event :: string
  rt_last_stats :: string

fun split_lines :: "string \<Rightarrow> string list" where
  "split_lines [] = [[]]"
| "split_lines (ch # s) =
    (if ch = NEWLINE then [] # split_lines s
     else case split_lines s of l # ls \<Rightarrow> (ch # l) # ls | [] \<Rightarrow> [[ch]])"

definition TAIL_BYTES :: nat where [consts_def]: "TAIL_BYTES = 16384"

definition is_stats :: "string \<Rightarrow> bool" where
  "is_stats l \<longleftrightarrow> take 8 l = ''USB 5s: ''"

text \<open>The lines of the last 16 KiB; the first one is dropped when the file is longer.\<close>

definition tail_lines :: "string \<Rightarrow> string list" where
  "tail_lines content =
    (let from = length content - TAIL_BYTES;
         lines = filter (\<lambda>l. l \<noteq> []) (split_lines (drop from content))
     in if 0 < from \<and> lines \<noteq> [] then tl lines else lines)"

text \<open>\<open>content\<close>: the whole log file, or \<open>None\<close> when it cannot be opened.\<close>

definition RelayTail_refresh :: "string option \<Rightarrow> RelayTail \<Rightarrow> RelayTail" where
  "RelayTail_refresh content t =
    (if rt_path t = [] then t
     else case content of
       None \<Rightarrow> t
     | Some content \<Rightarrow>
         let lines = tail_lines content;
             t = (case find is_stats (rev lines) of
                    Some l \<Rightarrow> t\<lparr>rt_last_stats := drop 8 l\<rparr> | None \<Rightarrow> t)
         in case find (\<lambda>l. \<not> is_stats l) (rev lines) of
              Some l \<Rightarrow> t\<lparr>rt_last_event := l\<rparr> | None \<Rightarrow> t)"

section \<open>The panel\<close>

text \<open>
  Rates are quotients of doubles in the source. The model keeps the numerator and the
  denominator, and leaves printing the quotient to a parameter of \<open>render\<close>.
\<close>

type_synonym quotient = "int \<times> int"

record Panel =
  p_held :: u32
  p_recent :: "u32 list"
  p_snap :: "Snapshot option"
  p_rate :: quotient
  p_console_rate :: quotient
  p_out_rate :: quotient
  p_out_loss :: quotient
  p_gap_history :: "u32 list"
  p_gap_window :: u32
  p_gap_counts :: "u32 list"
  p_status :: string
  p_status_colour :: nat
  p_stage :: "Stage option"
  p_stage_since :: time

definition Panel_init :: Panel where
  "Panel_init = \<lparr>p_held = 0, p_recent = [], p_snap = None, p_rate = (0, 1), p_console_rate = (0, 1),
    p_out_rate = (0, 1), p_out_loss = (0, 1), p_gap_history = [], p_gap_window = 0, p_gap_counts = [],
    p_status = [], p_status_colour = GREY, p_stage = None, p_stage_since = 0\<rparr>"

definition gap_count :: "Panel \<Rightarrow> u32" where
  "gap_count p = fold (\<lambda>c n. n + c) (p_gap_counts p) 0"

definition gap_worst_us :: "Panel \<Rightarrow> u32" where
  "gap_worst_us p = fold (\<lambda>v m. max m v) (p_gap_history p) 0"

definition event_line :: "(u64 \<Rightarrow> string) \<Rightarrow> u64 \<Rightarrow> string \<Rightarrow> ButtonLook \<Rightarrow> string" where
  "event_line local_date realtime_ns what b =
    wall_time local_date realtime_ns @ ''  '' @ what @ ''  '' @ bl_glyph b @ ''  '' @ bl_name b"

definition RECENT_MAX :: nat where [consts_def]: "RECENT_MAX = 64"

definition push_recent :: "u32 \<Rightarrow> u32 list \<Rightarrow> u32 list" where
  "push_recent b recent =
    (let recent = recent @ [b] in if RECENT_MAX < length recent then tl recent else recent)"

definition note_button :: "(u64 \<Rightarrow> string) \<Rightarrow> Log \<Rightarrow> Event \<Rightarrow> u32 \<Rightarrow> u32 \<Rightarrow> ButtonLook \<Rightarrow>
    Panel \<times> LogOut \<Rightarrow> Panel \<times> LogOut" where
  "note_button local_date log e went_down came_up b = (\<lambda>(p, out).
    let line = (\<lambda>what. Log_line log (event_line local_date (ev_realtime_ns e) what b));
        (p, out) = (if went_down AND bl_bit b \<noteq> 0
           then (p\<lparr>p_recent := push_recent (bl_bit b) (p_recent p)\<rparr>,
                 if Log_active log then line ''down'' out else out)
           else (p, out))
    in (p, if came_up AND bl_bit b \<noteq> 0 \<and> Log_active log then line ''up  '' out else out))"

definition note_event :: "(u64 \<Rightarrow> string) \<Rightarrow> Log \<Rightarrow> Event \<Rightarrow> Panel \<times> LogOut \<Rightarrow> Panel \<times> LogOut" where
  "note_event local_date log e po =
    (let changed = ev_buttons e XOR p_held (fst po);
         went_down = changed AND ev_buttons e;
         came_up = changed AND p_held (fst po);
         (p, out) = fold (note_button local_date log e went_down came_up) looks po
     in (p\<lparr>p_held := ev_buttons e\<rparr>, out))"

section \<open>The block of lines\<close>

record Options =
  o_log_path :: string
  o_feed_path :: string
  o_tail_path :: string
  o_relay_pid :: int
  o_fps :: int
  o_diag :: bool
  o_colour :: bool

definition group :: "bool \<Rightarrow> u32 \<Rightarrow> u32 list \<Rightarrow> string option" where
  "group c held bits =
    fold (\<lambda>b g. case (g, look b) of
        (Some g, Some l) \<Rightarrow> Some ((if g \<noteq> [] then g @ '' '' else g) @ button c l held)
      | _ \<Rightarrow> None) bits (Some [])"

definition PadState_init :: PadState where
  "PadState_init = \<lparr>ps_buttons = 0, ps_lx = 128, ps_ly = 128, ps_rx = 128, ps_ry = 128, ps_l2 = 0,
    ps_r2 = 0, ps_touch = replicate 2 \<lparr>t_active = False, t_x = 0, t_y = 0\<rparr>, ps_battery = 0\<rparr>"

definition pad_state :: "Panel \<Rightarrow> PadState" where
  "pad_state p = (case p_snap p of Some snap \<Rightarrow> decode (sn_body snap) | None \<Rightarrow> PadState_init)"

definition live :: "Panel \<Rightarrow> bool" where
  "live p \<longleftrightarrow> (case p_snap p of Some snap \<Rightarrow> l_console_live (sn_link snap) | None \<Rightarrow> False)"

definition title_line :: "(nat \<Rightarrow> quotient \<Rightarrow> string) \<Rightarrow> bool \<Rightarrow> bool \<Rightarrow> Panel \<Rightarrow> bool \<Rightarrow> string" where
  "title_line fixed c diag p blink_on =
    paint c ''DualSense'' WHITE True @ '' '' @
    (case p_snap p of
       Some snap \<Rightarrow> if sn_reports snap \<noteq> 0 then battery c (ps_battery (pad_state p)) blink_on @ ''   '' else []
     | None \<Rightarrow> []) @
    paint c (p_status p) (p_status_colour p) False @
    (if \<not> live p then []
     else (if p_gap_history p \<noteq> [] then ''   '' @ sparkline c (p_gap_history p) else []) @
       (if diag then ''   pad '' @ fixed 0 (p_rate p) @ ''/s '' @ utf8 0x2192 @ '' console '' @
          fixed 0 (p_console_rate p) @ ''/s'' else []))"

definition touch_text :: "nat \<Rightarrow> Touch \<Rightarrow> string" where
  "touch_text i t =
    (if i \<noteq> 0 then ''   '' else []) @ dec (i + 1) @ '': '' @
    (if t_active t then right_aligned 4 (dec (unat (t_x t))) @ '','' @ right_aligned 4 (dec (unat (t_y t)))
     else right_aligned 9 ''-'')"

definition touch_line :: "PadState \<Rightarrow> string" where
  "touch_line s = ''  touch '' @ concat (map (\<lambda>(i, t). touch_text i t) (enumerate 0 (ps_touch s)))"

definition buttons_line :: "bool \<Rightarrow> u32 \<Rightarrow> string option" where
  "buttons_line c held =
    (case (group c held [UP, RIGHT, DOWN, LEFT], group c held [TRIANGLE, CIRCLE, CROSS, SQUARE],
           group c held [L1, R1, L3, R3], group c held [CREATE, OPTIONS, PS, TOUCHPAD, MUTE]) of
       (Some a, Some b, Some d, Some e) \<Rightarrow>
         Some (''  '' @ a @ ''    '' @ b @ ''    '' @ d @ ''    '' @ e)
     | _ \<Rightarrow> None)"

definition triggers_line :: "bool \<Rightarrow> PadState \<Rightarrow> string" where
  "triggers_line c s =
    ''  L2 '' @ bar c (ps_l2 s) 20 @ '' '' @ right_aligned 3 (dec (unat (ps_l2 s))) @
    ''   R2 '' @ bar c (ps_r2 s) 20 @ '' '' @ right_aligned 3 (dec (unat (ps_r2 s)))"

definition sticks_line :: "PadState \<Rightarrow> string" where
  "sticks_line s = ''  left  '' @ stick (ps_lx s) (ps_ly s) @ ''   right '' @ stick (ps_rx s) (ps_ry s)"

definition link_lines :: "(nat \<Rightarrow> quotient \<Rightarrow> string) \<Rightarrow> Panel \<Rightarrow> string list" where
  "link_lines fixed p =
    (case p_snap p of
       None \<Rightarrow> []
     | Some snap \<Rightarrow>
         let worst = gap_worst_us p; l = sn_link snap
         in [''  gaps    '' @ dec (unat (gap_count p)) @ ''/'' @ dec (length (p_gap_history p)) @ ''s'' @
               (if worst \<noteq> 0 then ''  worst '' @ dec (unat ((worst + 500) div 1000)) @ '' ms'' else []),
             ''  effects '' @ fixed 0 (p_out_rate p) @ ''/s   dropped '' @
               fixed 1 (100 * fst (p_out_loss p), snd (p_out_loss p)) @ ''%'' @
               (if l_radio_read l
                then ''   radio q'' @ dec (unat (l_link_quality l)) @ '' rssi '' @
                  dec_int (sint (l_link_rssi l)) @ '' afh '' @ dec (unat (l_afh_channels l)) @ ''/79''
                else [])])"

definition render :: "(nat \<Rightarrow> quotient \<Rightarrow> string) \<Rightarrow> Options \<Rightarrow> Panel \<Rightarrow> RelayTail \<Rightarrow> int \<Rightarrow> bool \<Rightarrow>
    string list option" where
  "render fixed opts p tail cols blink_on =
    (let c = o_colour opts; s = pad_state p; held = (case p_snap p of Some _ \<Rightarrow> ps_buttons s | None \<Rightarrow> 0)
     in case (buttons_line c held, recent_line c (p_recent p) cols) of
          (Some buttons, Some recent) \<Rightarrow>
            Some ([title_line fixed c (o_diag opts) p blink_on, buttons, triggers_line c s, sticks_line s,
                   touch_line s, recent] @
              (if o_diag opts \<and> live p then link_lines fixed p else []) @
              (if o_diag opts \<and> rt_path tail \<noteq> [] then [''  relay   '' @ paint c (rt_last_event tail) GREY False]
               else []) @
              (if o_diag opts \<and> o_log_path opts \<noteq> [] then [''  log     '' @ paint c (o_log_path opts) GREY False]
               else []))
        | _ \<Rightarrow> None)"

definition cursor_up :: "nat \<Rightarrow> string" where
  "cursor_up n = ESC # ''['' @ dec n @ ''A''"

definition clear_line :: string where
  "clear_line = RETURN # ESC # ''[2K''"

text \<open>What is written to the terminal to replace a block of \<open>drawn\<close> lines by \<open>lines\<close>.\<close>

definition redraw :: "nat \<Rightarrow> string list \<Rightarrow> string" where
  "redraw drawn lines =
    (if drawn \<noteq> 0 then cursor_up drawn else []) @
    concat (map (\<lambda>l. clear_line @ l @ [NEWLINE]) lines) @
    concat (replicate (drawn - length lines) (clear_line @ [NEWLINE])) @
    (if length lines < drawn then cursor_up (drawn - length lines) else [])"

section \<open>The command line\<close>

definition atoi :: "string \<Rightarrow> int" where
  "atoi s =
    (let s = dropWhile (\<lambda>ch. ch = CHR '' '' \<or> (0x09 \<le> (of_char ch :: nat) \<and> of_char ch \<le> (0x0d :: nat))) s;
         neg = (case s of ch # _ \<Rightarrow> ch = CHR ''-'' | [] \<Rightarrow> False);
         s = (case s of ch # rest \<Rightarrow> if ch = CHR ''-'' \<or> ch = CHR ''+'' then rest else s | [] \<Rightarrow> []);
         ds = takeWhile (\<lambda>ch. 48 \<le> (of_char ch :: nat) \<and> of_char ch \<le> (57 :: nat)) s;
         n = fold (\<lambda>ch n. n * 10 + (int (of_char ch) - 48)) ds 0
     in if neg then - n else n)"

definition Options_init :: Options where
  "Options_init = \<lparr>o_log_path = [], o_feed_path = ''/dev/shm/ds_input'', o_tail_path = [], o_relay_pid = 0,
    o_fps = 30, o_diag = False, o_colour = True\<rparr>"

text \<open>The loop over the arguments: the options, or the exit status after printing the usage.\<close>

fun parse_args :: "string list \<Rightarrow> Options \<Rightarrow> int + Options" where
  "parse_args [] opts = Inr opts"
| "parse_args (arg # rest) opts =
    (case (arg = ''--diag'', arg = ''--no-colour'' \<or> arg = ''--no-color'', rest) of
       (True, _, _) \<Rightarrow> parse_args rest (opts\<lparr>o_diag := True\<rparr>)
     | (False, True, _) \<Rightarrow> parse_args rest (opts\<lparr>o_colour := False\<rparr>)
     | (False, False, v # others) \<Rightarrow>
         if arg = ''--log'' then parse_args others (opts\<lparr>o_log_path := v\<rparr>)
         else if arg = ''--feed'' then parse_args others (opts\<lparr>o_feed_path := v\<rparr>)
         else if arg = ''--relay-log'' then parse_args others (opts\<lparr>o_tail_path := v\<rparr>)
         else if arg = ''--relay-pid'' then parse_args others (opts\<lparr>o_relay_pid := atoi v\<rparr>)
         else if arg = ''--fps'' then parse_args others (opts\<lparr>o_fps := min 240 (max 1 (atoi v))\<rparr>)
         else Inl (if arg = ''--help'' \<or> arg = ''-h'' then 0 else 2)
     | (False, False, []) \<Rightarrow> Inl (if arg = ''--help'' \<or> arg = ''-h'' then 0 else 2))"

section \<open>One round of the loop\<close>

text \<open>
  What a round finds: the clocks, whether the relay's process is there, the page the reader
  has mapped, whether that is still the file at the path, what opening the path would map,
  the relay's log file, the terminal's width if it has one, the time zone.
\<close>

record Outside =
  x_now :: time
  x_mono_ns :: u64
  x_relay_alive :: bool
  x_page :: Shared
  x_same_file :: bool
  x_open :: "Shared option"
  x_tail_file :: "string option"
  x_ws_col :: "nat option"
  x_local_date :: "u64 \<Rightarrow> string"
  x_fixed :: "nat \<Rightarrow> quotient \<Rightarrow> string"

record Viewer =
  vw_mapped :: bool
  vw_panel :: Panel
  vw_out :: LogOut
  vw_tail :: RelayTail
  vw_cursor :: u64
  vw_cursor_set :: bool
  vw_drawn :: nat
  vw_screen :: string
  vw_next_open :: time
  vw_next_tail :: time
  vw_rate_since :: time
  vw_next_relay_check :: time
  vw_rate_reports :: u64
  vw_rate_console :: u64
  vw_rate_out :: u64
  vw_rate_drop :: u64
  vw_relay_gone :: bool

text \<open>\<^verbatim>\<open>latest\<close>, on a page that does not change while it is read.\<close>

primrec latest_loop :: "nat \<Rightarrow> Shared \<Rightarrow> Snapshot option" where
  "latest_loop 0 s = None"
| "latest_loop (Suc attempts) s =
    (let before = sh_seq s
     in if before AND 1 \<noteq> 0 then latest_loop attempts s
        else let snap = \<lparr>sn_monotonic_ns = sh_monotonic_ns s, sn_reports = sh_reports s,
                   sn_link = sh_link s, sn_body = sh_body s\<rparr>
             in if sh_seq s = before then Some snap else latest_loop attempts s)"

definition Reader_latest :: "Shared \<Rightarrow> Snapshot option" where
  "Reader_latest s = (if \<not> Reader_valid s then None else latest_loop 16 s)"

text \<open>
  Opening the feed, at most every half second; the page in use afterwards. \<^verbatim>\<open>open\<close> unmaps
  first, so a failed one leaves nothing mapped.
\<close>

definition open_feed :: "Outside \<Rightarrow> Viewer \<Rightarrow> Shared option \<times> Viewer" where
  "open_feed X v =
    (let page = (if vw_mapped v then Some (x_page X) else None);
         valid = (case page of Some s \<Rightarrow> Reader_valid s | None \<Rightarrow> False);
         same = (vw_mapped v \<and> x_same_file X)
     in if (\<not> valid \<or> \<not> same) \<and> vw_next_open v \<le> x_now X then
          let v = v\<lparr>vw_next_open := x_now X + 500000, vw_mapped := (x_open X \<noteq> None)\<rparr>
          in case x_open X of
               None \<Rightarrow> (None, v)
             | Some s \<Rightarrow>
                 if \<not> Reader_valid s then (Some s, v)
                 else let v = v\<lparr>vw_cursor := Reader_event_head s, vw_cursor_set := True\<rparr>;
                          v = (case Reader_latest s of
                                 Some snap \<Rightarrow> v\<lparr>vw_panel := (vw_panel v)\<lparr>p_held := pack_buttons (sn_body snap)\<rparr>,
                                   vw_rate_reports := sn_reports snap\<rparr>
                               | None \<Rightarrow> v)
                      in (Some s, v\<lparr>vw_rate_since := x_now X\<rparr>)
        else (page, v))"

definition since_last :: "u64 \<Rightarrow> u64 \<Rightarrow> int" where
  "since_last new old = uint (new - min old new)"

definition update_rates :: "time \<Rightarrow> Snapshot \<Rightarrow> Viewer \<Rightarrow> Viewer" where
  "update_rates now snap v =
    (let since = now - vw_rate_since v; l = sn_link snap
     in if since < 1000000 then v
        else let d_out = since_last (l_output_sent l) (vw_rate_out v);
                 d_drop = since_last (l_output_dropped l) (vw_rate_drop v)
             in v\<lparr>vw_panel := (vw_panel v)\<lparr>
                    p_rate := (1000000 * since_last (sn_reports snap) (vw_rate_reports v), since),
                    p_console_rate := (1000000 * since_last (l_console_sent l) (vw_rate_console v), since),
                    p_out_rate := (1000000 * d_out, since),
                    p_out_loss := (if uint (word_of_int (d_out + d_drop) :: u64) \<noteq> 0
                      then (d_drop, uint (word_of_int (d_out + d_drop) :: u64)) else (0, 1))\<rparr>,
                  vw_rate_reports := sn_reports snap, vw_rate_console := l_console_sent l,
                  vw_rate_out := l_output_sent l, vw_rate_drop := l_output_dropped l,
                  vw_rate_since := now\<rparr>)"

definition GAP_SAMPLES :: nat where [consts_def]: "GAP_SAMPLES = 20"

definition update_gaps :: "Snapshot \<Rightarrow> Panel \<Rightarrow> Panel" where
  "update_gaps snap p =
    (let l = sn_link snap
     in if l_gap_window l = p_gap_window p then p
        else let history = p_gap_history p @ [l_gap_max_us l]; counts = p_gap_counts p @ [l_gap_count l];
                 over = length history - GAP_SAMPLES
             in p\<lparr>p_gap_window := l_gap_window l, p_gap_history := drop over history,
                  p_gap_counts := drop over counts\<rparr>)"

definition update_status :: "Outside \<Rightarrow> Snapshot \<Rightarrow> Panel \<Rightarrow> Panel" where
  "update_status X snap p =
    (let stage = l_stage (sn_link snap);
         p = (if p_stage p = Some stage then p else p\<lparr>p_stage := Some stage, p_stage_since := x_now X\<rparr>);
         in_stage = (x_now X - p_stage_since p) div 1000000;
         age = sint (x_mono_ns X - sn_monotonic_ns snap);
         st = describe (sn_link snap) in_stage (sn_reports snap = 0 \<or> 1000000000 < age)
     in p\<lparr>p_status := fst st, p_status_colour := snd st\<rparr>)"

definition lost_line :: "u64 \<Rightarrow> string" where
  "lost_line lost = ''# '' @ dec (unat lost) @ '' button changes lost - the viewer fell behind''"

definition read_feed :: "Outside \<Rightarrow> Log \<Rightarrow> Shared \<Rightarrow> Viewer \<Rightarrow> Viewer" where
  "read_feed X log s v =
    (let (lost, events, cursor) = Reader_drain (vw_cursor v) s;
         (p, out) = fold (note_event (x_local_date X) log) events (vw_panel v, vw_out v);
         out = (if lost \<noteq> 0 \<and> Log_active log then Log_line log (lost_line lost) out else out);
         v = v\<lparr>vw_cursor := cursor, vw_panel := p\<lparr>p_snap := Reader_latest s\<rparr>, vw_out := out\<rparr>
     in case Reader_latest s of
          None \<Rightarrow> v
        | Some snap \<Rightarrow>
            let v = update_rates (x_now X) snap v
            in v\<lparr>vw_panel := update_status X snap (update_gaps snap (vw_panel v))\<rparr>)"

definition draw :: "Options \<Rightarrow> Outside \<Rightarrow> Viewer \<Rightarrow> Viewer option" where
  "draw opts X v =
    (let v = (if vw_next_tail v \<le> x_now X
              then v\<lparr>vw_tail := RelayTail_refresh (x_tail_file X) (vw_tail v), vw_next_tail := x_now X + 250000\<rparr>
              else v);
         cols = (case x_ws_col X of Some n \<Rightarrow> if n \<noteq> 0 then int n else 80 | None \<Rightarrow> 80);
         blink_on = (x_now X div 1000 div 500 mod 2 = 0)
     in map_option (\<lambda>lines. v\<lparr>vw_screen := vw_screen v @ redraw (vw_drawn v) lines, vw_drawn := length lines\<rparr>)
          (render (x_fixed X) opts (vw_panel v) (vw_tail v) cols blink_on))"

text \<open>
  One round. \<open>Inl\<close> ends the loop because the relay is gone; \<open>None\<close> would be a button without
  a look, whose \<^verbatim>\<open>find\<close> has nothing to dereference.
\<close>

definition viewer_round :: "Options \<Rightarrow> bool \<Rightarrow> Log \<Rightarrow> Outside \<Rightarrow> Viewer \<Rightarrow> (Viewer + Viewer) option" where
  "viewer_round opts tty log X v =
    (let check = (0 < o_relay_pid opts \<and> vw_next_relay_check v \<le> x_now X);
         v = (if check then v\<lparr>vw_next_relay_check := x_now X + 500000\<rparr> else v)
     in if check \<and> \<not> x_relay_alive X then Some (Inl (v\<lparr>vw_relay_gone := True\<rparr>))
        else let (page, v) = open_feed X v;
                 v = (case page of
                        Some s \<Rightarrow>
                          if Reader_valid s \<and> vw_cursor_set v then read_feed X log s v
                          else v\<lparr>vw_panel := (vw_panel v)\<lparr>p_snap := None,
                                 p_status := utf8 0x25cf @ '' starting the relay'', p_status_colour := YELLOW\<rparr>\<rparr>
                      | None \<Rightarrow> v\<lparr>vw_panel := (vw_panel v)\<lparr>p_snap := None,
                                 p_status := utf8 0x25cf @ '' starting the relay'', p_status_colour := YELLOW\<rparr>\<rparr>)
             in if tty then map_option Inr (draw opts X v) else Some (Inr v))"

text \<open>The last lines of the relay's log that are printed when it has exited.\<close>

definition last_lines :: "string list \<Rightarrow> string list" where
  "last_lines ls = fold (\<lambda>l acc. let acc = acc @ [l] in if 15 < length acc then tl acc else acc) ls []"

definition Viewer_init :: "Options \<Rightarrow> time \<Rightarrow> Viewer" where
  "Viewer_init opts now = \<lparr>vw_mapped = False, vw_panel = Panel_init,
    vw_out = \<lparr>out_file = [], out_stdout = []\<rparr>,
    vw_tail = \<lparr>rt_path = o_tail_path opts, rt_last_event = [], rt_last_stats = []\<rparr>,
    vw_cursor = 0, vw_cursor_set = False, vw_drawn = 0, vw_screen = [], vw_next_open = now,
    vw_next_tail = now, vw_rate_since = now, vw_next_relay_check = now, vw_rate_reports = 0,
    vw_rate_console = 0, vw_rate_out = 0, vw_rate_drop = 0, vw_relay_gone = False\<rparr>"

section \<open>Starting up\<close>

text \<open>
  What \<^verbatim>\<open>main\<close> does before the loop: \<open>no_color\<close> is whether the variable is set, \<open>tty\<close> whether
  the output is a terminal, \<open>fopen_ok\<close> whether the log file could be opened, \<open>clock\<close> the time
  of day it starts at. The exit status, or the options, the log and the viewer.
\<close>

definition start_viewer :: "string list \<Rightarrow> bool \<Rightarrow> bool \<Rightarrow> bool \<Rightarrow> (u64 \<Rightarrow> string) \<Rightarrow> u64 \<Rightarrow> time \<Rightarrow>
    int + (Options \<times> Log \<times> Viewer)" where
  "start_viewer args no_color tty fopen_ok local_date clock now =
    (case parse_args args Options_init of
       Inl status \<Rightarrow> Inl status
     | Inr opts \<Rightarrow>
         let opts = (if no_color then opts\<lparr>o_colour := False\<rparr> else opts);
             opts = (if \<not> tty then opts\<lparr>o_colour := False\<rparr> else opts);
             log = \<lparr>log_file = (o_log_path opts \<noteq> []), log_to_stdout = \<not> tty\<rparr>;
             v = Viewer_init opts now
         in if o_log_path opts \<noteq> [] \<and> \<not> fopen_ok then Inl 1
            else let v = (if o_log_path opts \<noteq> []
                          then v\<lparr>vw_out := Log_line log (''# padlog started '' @ wall_time local_date clock) (vw_out v)\<rparr>
                          else v);
                     v = (if tty then v\<lparr>vw_screen := ESC # ''[?25l'' @ ESC # ''[?7l''\<rparr> else v)
                 in Inr (opts, log, v))"

definition viewer_rounds :: "Options \<Rightarrow> bool \<Rightarrow> Log \<Rightarrow> Outside list \<Rightarrow> Viewer \<Rightarrow> (Viewer + Viewer) option" where
  "viewer_rounds opts tty log Xs v =
    fold (\<lambda>X res. case res of Some (Inr v) \<Rightarrow> viewer_round opts tty log X v | _ \<Rightarrow> res) Xs (Some (Inr v))"

end
