(* ===== verification/ViewerPanel.thy ===== *)
theory ViewerPanel
  imports InputView
begin

unbundle bit_operations_syntax

text \<open>
  What the viewer's panel keeps to in every round: each recent press has a look, the buffers
  stay bounded, the row of presses fits the terminal, every table is read inside its bounds,
  and the block of lines is redrawn in place.
\<close>

section \<open>The invariant of the panel\<close>

definition panel_ok :: "Panel \<Rightarrow> bool" where
  "panel_ok p \<longleftrightarrow> set (p_recent p) \<subseteq> bl_bit ` set looks \<and> length (p_recent p) \<le> RECENT_MAX \<and>
    length (p_gap_history p) \<le> GAP_SAMPLES \<and> length (p_gap_counts p) = length (p_gap_history p)"

lemma look_Some: "b \<in> bl_bit ` set looks \<Longrightarrow> \<exists>l. look b = Some l"
  by (cases "look b") (auto simp: look_def find_None_iff)

lemma lookD: "look b = Some l \<Longrightarrow> l \<in> set looks \<and> bl_bit l = b"
  unfolding look_def by (rule find_looks)

lemma panel_ok_simps [simp]:
  "panel_ok (p\<lparr>p_held := h\<rparr>) = panel_ok p"
  "panel_ok (p\<lparr>p_snap := sn\<rparr>) = panel_ok p"
  "panel_ok (p\<lparr>p_rate := r1, p_console_rate := r2, p_out_rate := r3, p_out_loss := r4\<rparr>) = panel_ok p"
  "panel_ok (p\<lparr>p_status := t, p_status_colour := k\<rparr>) = panel_ok p"
  "panel_ok (p\<lparr>p_stage := g, p_stage_since := w\<rparr>) = panel_ok p"
  by (simp_all add: panel_ok_def)

lemma push_recent_bounds:
  "set (push_recent b bs) \<subseteq> insert b (set bs)"
  "length bs \<le> RECENT_MAX \<Longrightarrow> length (push_recent b bs) \<le> RECENT_MAX"
  by (cases bs; auto simp: push_recent_def RECENT_MAX_def Let_def)+

lemma panel_ok_note_button:
  assumes "panel_ok (fst po)" "b \<in> set looks"
  shows "panel_ok (fst (note_button d log e wd cu b po))"
  using assms push_recent_bounds [where b = "bl_bit b" and bs = "p_recent (fst po)"]
  by (cases po) (auto simp: note_button_def panel_ok_def Let_def)

lemma panel_ok_note_event:
  assumes "panel_ok (fst po)"
  shows "panel_ok (fst (note_event d log e po))"
proof -
  have "panel_ok (fst (fold (note_button d log e wd cu) looks po))" for wd cu
    by (rule fold_invariant [where Q = "\<lambda>b. b \<in> set looks" and P = "\<lambda>po. panel_ok (fst po)"])
      (auto simp: assms intro: panel_ok_note_button)
  then show ?thesis by (simp add: note_event_def Let_def case_prod_unfold)
qed

lemma panel_ok_note_events: "panel_ok (fst po) \<Longrightarrow> panel_ok (fst (fold (note_event d log) es po))"
  by (rule fold_invariant [where Q = "\<lambda>_. True" and P = "\<lambda>po. panel_ok (fst po)"])
    (auto intro: panel_ok_note_event)

lemma panel_ok_update_gaps: "panel_ok p \<Longrightarrow> panel_ok (update_gaps snap p)"
  by (auto simp: update_gaps_def panel_ok_def GAP_SAMPLES_def Let_def)

lemma panel_ok_update_status [simp]: "panel_ok (update_status X snap p) = panel_ok p"
  by (simp add: update_status_def Let_def)

lemma panel_ok_update_rates [simp]: "panel_ok (vw_panel (update_rates now snap v)) = panel_ok (vw_panel v)"
  by (simp add: update_rates_def Let_def)

lemma panel_ok_read_feed: "panel_ok (vw_panel v) \<Longrightarrow> panel_ok (vw_panel (read_feed X log s v))"
  using panel_ok_note_events [of "(vw_panel v, vw_out v)"]
  by (auto simp: read_feed_def Let_def case_prod_unfold panel_ok_update_gaps split: option.split)

lemma panel_ok_open_feed: "panel_ok (vw_panel v) \<Longrightarrow> panel_ok (vw_panel (snd (open_feed X v)))"
  by (simp add: open_feed_def Let_def split: option.split)

section \<open>Every press has a look\<close>

lemma recent_shown_Some: "set bs \<subseteq> bl_bit ` set looks \<Longrightarrow> \<exists>ls. recent_shown budget w bs = Some ls"
proof (induction budget w bs rule: recent_shown.induct)
  case (2 budget w b bs)
  then have "b \<in> bl_bit ` set looks" by simp
  from look_Some [OF this] obtain l where "look b = Some l" by blast
  with 2 show ?case by (auto simp: Let_def)
qed simp

lemma panel_buttons_have_looks: "set [UP, RIGHT, DOWN, LEFT, TRIANGLE, CIRCLE, CROSS, SQUARE, L1, R1, L3, R3,
    CREATE, OPTIONS, PS, TOUCHPAD, MUTE] \<subseteq> bl_bit ` set looks"
  by (simp add: looks_def)

lemma group_Some: "set bs \<subseteq> bl_bit ` set looks \<Longrightarrow> \<exists>g. group c held bs = Some g"
proof -
  have "set bs \<subseteq> bl_bit ` set looks \<Longrightarrow> \<exists>g. fold (\<lambda>b g. case (g, look b) of
        (Some g, Some l) \<Rightarrow> Some ((if g \<noteq> [] then g @ '' '' else g) @ button c l held)
      | _ \<Rightarrow> None) bs (Some g0) = Some g" for g0
    by (induction bs arbitrary: g0) (auto dest!: look_Some)
  then show "set bs \<subseteq> bl_bit ` set looks \<Longrightarrow> \<exists>g. group c held bs = Some g" by (simp add: group_def)
qed

lemma buttons_line_Some: "\<exists>l. buttons_line c held = Some l"
proof -
  have "\<exists>g. group c held [UP, RIGHT, DOWN, LEFT] = Some g"
    "\<exists>g. group c held [TRIANGLE, CIRCLE, CROSS, SQUARE] = Some g"
    "\<exists>g. group c held [L1, R1, L3, R3] = Some g"
    "\<exists>g. group c held [CREATE, OPTIONS, PS, TOUCHPAD, MUTE] = Some g"
    using panel_buttons_have_looks by (auto intro!: group_Some)
  then show ?thesis by (auto simp: buttons_line_def)
qed

lemma recent_line_Some: "panel_ok p \<Longrightarrow> \<exists>l. recent_line c (p_recent p) cols = Some l"
  using recent_shown_Some [of "rev (p_recent p)"] by (auto simp: recent_line_def panel_ok_def Let_def)

lemma render_Some:
  assumes "panel_ok p"
  shows "\<exists>ls. render fixed opts p t cols blink = Some ls"
proof -
  obtain l1 l2 where "buttons_line (o_colour opts) (case p_snap p of Some _ \<Rightarrow> ps_buttons (pad_state p) | None \<Rightarrow> 0) =
      Some l1" "recent_line (o_colour opts) (p_recent p) cols = Some l2"
    using buttons_line_Some recent_line_Some [OF assms] by blast
  then show ?thesis by (simp add: render_def Let_def)
qed

definition result :: "'a + 'a \<Rightarrow> 'a" where
  "result x = (case x of Inl v \<Rightarrow> v | Inr v \<Rightarrow> v)"

lemma result_simps [simp]: "result (Inl v) = v" "result (Inr v) = v"
  by (simp_all add: result_def)

lemma draw_ok:
  assumes "panel_ok (vw_panel v)"
  shows "\<exists>v'. draw opts X v = Some v' \<and> vw_panel v' = vw_panel v"
proof -
  let ?t = "if vw_next_tail v \<le> x_now X then RelayTail_refresh (x_tail_file X) (vw_tail v) else vw_tail v"
  let ?cols = "case x_ws_col X of Some n \<Rightarrow> if n \<noteq> 0 then int n else 80 | None \<Rightarrow> 80"
  obtain ls where "render (x_fixed X) opts (vw_panel v) ?t ?cols (x_now X div 1000 div 500 mod 2 = 0) = Some ls"
    using render_Some [OF assms] by blast
  then show ?thesis by (cases "vw_next_tail v \<le> x_now X") (simp_all add: draw_def Let_def)
qed

text \<open>The part of a round before it draws.\<close>

definition round_state :: "Options \<Rightarrow> Log \<Rightarrow> Outside \<Rightarrow> Viewer \<Rightarrow> Viewer" where
  "round_state opts log X v =
    (let v = (if 0 < o_relay_pid opts \<and> vw_next_relay_check v \<le> x_now X
              then v\<lparr>vw_next_relay_check := x_now X + 500000\<rparr> else v);
         (page, v) = open_feed X v;
         idle = v\<lparr>vw_panel := (vw_panel v)\<lparr>p_snap := None,
                  p_status := utf8 0x25cf @ '' starting the relay'', p_status_colour := YELLOW\<rparr>\<rparr>
     in case page of
          Some s \<Rightarrow> if Reader_valid s \<and> vw_cursor_set v then read_feed X log s v else idle
        | None \<Rightarrow> idle)"

lemma viewer_round_eq:
  "viewer_round opts tty log X v =
    (if 0 < o_relay_pid opts \<and> vw_next_relay_check v \<le> x_now X \<and> \<not> x_relay_alive X
     then Some (Inl (v\<lparr>vw_next_relay_check := x_now X + 500000, vw_relay_gone := True\<rparr>))
     else if tty then map_option Inr (draw opts X (round_state opts log X v))
     else Some (Inr (round_state opts log X v)))"
  by (simp add: viewer_round_def round_state_def Let_def case_prod_unfold)

lemma panel_ok_round_state: "panel_ok (vw_panel v) \<Longrightarrow> panel_ok (vw_panel (round_state opts log X v))"
  by (simp add: round_state_def Let_def case_prod_unfold panel_ok_open_feed panel_ok_read_feed split: option.split)

lemma viewer_round_ok:
  assumes "panel_ok (vw_panel v)"
  shows "\<exists>x. viewer_round opts tty log X v = Some x \<and> panel_ok (vw_panel (result x))"
  using assms panel_ok_round_state [OF assms, of opts log X] draw_ok [of "round_state opts log X v" opts X]
  by (auto simp: viewer_round_eq)

lemma viewer_rounds_snoc:
  "viewer_rounds opts tty log (Xs @ [X]) v =
    (case viewer_rounds opts tty log Xs v of
       Some (Inr v') \<Rightarrow> viewer_round opts tty log X v' | res \<Rightarrow> res)"
  by (simp add: viewer_rounds_def split: option.split sum.split)

lemma viewer_rounds_ok:
  assumes "panel_ok (vw_panel v)"
  shows "\<exists>x. viewer_rounds opts tty log Xs v = Some x \<and> panel_ok (vw_panel (result x))"
proof (induction Xs rule: rev_induct)
  case Nil
  then show ?case using assms by (simp add: viewer_rounds_def)
next
  case (snoc X Xs)
  then obtain x where x: "viewer_rounds opts tty log Xs v = Some x" "panel_ok (vw_panel (result x))" by blast
  then show ?case
    using viewer_round_ok [of "result x"] by (cases x) (auto simp: viewer_rounds_snoc)
qed

lemma panel_ok_start:
  "start_viewer args no_color tty fopen_ok d clock now = Inr (opts, log, v) \<Longrightarrow> panel_ok (vw_panel v)"
  by (auto simp: start_viewer_def Viewer_init_def Panel_init_def panel_ok_def Let_def split: sum.splits if_splits)

section \<open>Widths\<close>

definition look_width :: "ButtonLook \<Rightarrow> int" where
  "look_width l = int (columns (bl_glyph l)) + 1"

lemma recent_shown_spec:
  assumes "recent_shown budget w bs = Some ls" "w \<le> budget"
  shows "map Some ls = map look (take (length ls) bs) \<and> w + sum_list (map look_width ls) \<le> budget \<and>
    (\<forall>l. length ls < length bs \<longrightarrow> look (bs ! length ls) = Some l \<longrightarrow>
      budget < w + sum_list (map look_width ls) + look_width l)"
  using assms
proof (induction budget w bs arbitrary: ls rule: recent_shown.induct)
  case (2 budget w b bs)
  then obtain l where l: "look b = Some l" by (auto split: option.splits)
  show ?case
  proof (cases "budget < w + look_width l")
    case True
    then show ?thesis using 2(2,3) l by (auto simp: Let_def look_width_def)
  next
    case False
    then obtain ls' where ls: "ls = l # ls'" "recent_shown budget (w + look_width l) bs = Some ls'"
      using 2(2) l by (auto simp: Let_def look_width_def)
    have "w + look_width l \<le> budget" using False by simp
    from "2.IH" [OF l refl _ _ this [unfolded look_width_def]] ls(2) False
    show ?thesis using l ls(1) by (auto simp: look_width_def add.assoc)
  qed
qed simp

lemma columns_plain_paint [simp]: "columns (paint False t k b) = columns t"
  by (simp add: paint_def)

lemma columns_Nil_space [simp]: "columns [] = 0" "columns (CHR '' '' # s) = Suc (columns s)"
  by (simp_all add: columns_def)

lemma columns_label [simp]: "columns recent_label = 9" "length recent_label = 9"
  by (simp_all add: columns_def recent_label_def)

lemma columns_presses:
  "int (columns (concat (map (\<lambda>b. '' '' @ paint False (bl_glyph b) (bl_colour b) True) ls))) =
    sum_list (map look_width ls)"
  by (induction ls) (simp_all add: look_width_def del: columns_concat)

section \<open>Tables\<close>

lemma bar_cells_range: "cell \<in> set (bar_cells value width) \<Longrightarrow> 0 \<le> cell \<and> cell \<le> 8"
  by (auto simp: bar_cells_def Let_def)

lemma spark_index_le: "spark_index v \<le> 7"
  by (simp add: spark_index_def div_le_mono [of _ "200000 * 7" 200000, simplified] min_def)

lemma sum_clamped:
  fixes total :: int
  assumes "0 \<le> total" "total \<le> 8 * int n"
  shows "(\<Sum>i\<leftarrow>[0 ..< n]. min 8 (max 0 (total - int i * 8))) = total"
proof -
  have "(\<Sum>i\<leftarrow>[0 ..< k]. min 8 (max 0 (total - int i * 8))) = min total (8 * int k)" for k
    using assms(1) by (induction k) (auto simp: min_def max_def)
  with assms(2) show ?thesis by simp
qed

section \<open>Properties\<close>

text \<open>
  The viewer's panel stays bounded and drawable: Whatever the feed, the clocks, the
  files and the terminal do, no round finds a button without a look, so the viewer always
  goes on or ends because the relay has; at most 64 presses and 20 gap samples are kept, and
  there is one gap count for every sample.
\<close>

theorem viewer_panel_bounded:
  assumes "start_viewer args no_color tty fopen_ok d clock now = Inr (opts, log, v)"
  shows "\<exists>x. viewer_rounds opts tty log Xs v = Some x \<and>
    (let p = vw_panel (case x of Inl v' \<Rightarrow> v' | Inr v' \<Rightarrow> v')
     in (\<forall>b \<in> set (p_recent p). \<exists>l. look b = Some l) \<and> length (p_recent p) \<le> 64 \<and>
        length (p_gap_history p) \<le> 20 \<and> length (p_gap_counts p) = length (p_gap_history p))"
  using viewer_rounds_ok [OF panel_ok_start [OF assms]]
  unfolding panel_ok_def RECENT_MAX_def GAP_SAMPLES_def result_def Let_def by (blast intro: look_Some)

theorem viewer_panel_bounded_witness:
  "\<exists>opts log v. start_viewer [''--diag'', ''--fps'', ''60''] False True True (\<lambda>_. []) 0 0 = Inr (opts, log, v) \<and>
    (\<exists>x. viewer_rounds opts True log [] v = Some x)"
proof -
  obtain opts log v where
    start: "start_viewer [''--diag'', ''--fps'', ''60''] False True True (\<lambda>_. []) 0 0 = Inr (opts, log, v)"
    by (simp add: start_viewer_def Options_init_def Let_def)
  from viewer_panel_bounded [OF this, of "[]"] start show ?thesis by blast
qed

text \<open>
  The row of presses fits and is the longest that does: without colour the row takes at
  most one column less than the terminal has, when it has room for the label at all, and never
  more than 73. It shows the newest presses, newest first, and the next older one would not
  have fitted.
\<close>

theorem recent_line_fits:
  assumes "recent_line False recent cols = Some line"
  shows "\<exists>ls. map Some ls = map look (take (length ls) (rev recent)) \<and>
    line = recent_label @ concat (map (\<lambda>b. '' '' @ bl_glyph b) ls) \<and>
    int (columns line) \<le> max 9 (min 73 (cols - 1)) \<and>
    (\<forall>l. length ls < length recent \<longrightarrow> look (rev recent ! length ls) = Some l \<longrightarrow>
      min 73 (cols - 1) < int (columns line) + int (columns (bl_glyph l)) + 1)"
proof -
  let ?budget = "min 64 (max 0 (cols - 10))"
  obtain ls where ls: "recent_shown ?budget 0 (rev recent) = Some ls"
      and line: "line = recent_label @ concat (map (\<lambda>b. '' '' @ paint False (bl_glyph b) (bl_colour b) True) ls)"
    using assms by (auto simp: recent_line_def Let_def)
  have width: "int (columns line) = 9 + sum_list (map look_width ls)"
    using columns_presses [of ls] by (simp add: line del: columns_concat)
  from recent_shown_spec [OF ls] have
    spec: "map Some ls = map look (take (length ls) (rev recent))" "sum_list (map look_width ls) \<le> ?budget"
      "\<And>l. length ls < length recent \<Longrightarrow> look (rev recent ! length ls) = Some l \<Longrightarrow>
        ?budget < sum_list (map look_width ls) + look_width l"
    by auto
  show ?thesis
  proof (intro exI [of _ ls] conjI allI impI)
    show "line = recent_label @ concat (map (\<lambda>b. '' '' @ bl_glyph b) ls)"
      by (simp add: line paint_def)
    show "int (columns line) \<le> max 9 (min 73 (cols - 1))" using spec(2) width by auto
    show "min 73 (cols - 1) < int (columns line) + int (columns (bl_glyph l)) + 1"
      if "length ls < length recent" "look (rev recent ! length ls) = Some l" for l
      using spec(3) [OF that] width by (auto simp: look_width_def)
  qed (rule spec(1))
qed

theorem recent_line_fits_witness:
  "\<exists>line. recent_line False [CROSS, L1, CIRCLE] 15 = Some line \<and> columns line \<le> 14"
proof -
  obtain line where line: "recent_line False [CROSS, L1, CIRCLE] 15 = Some line"
    using recent_shown_Some [of "rev [CROSS, L1, CIRCLE]" 5 0]
    by (auto simp: recent_line_def looks_def Let_def)
  from recent_line_fits [OF this] line show ?thesis by auto
qed

text \<open>
  Bars are to scale and every table is read within it: a trigger bar has one cell per
  column asked for, filled from the left, whose eighths add up to the trigger's share of the
  bar rounded down, none when released and all when fully pressed; and no cell or gap sample,
  whatever its value, indexes past the table of its blocks.
\<close>

theorem bars_to_scale:
  assumes "0 \<le> width"
  shows "length (bar_cells value width) = nat width \<and>
    sum_list (bar_cells value width) = uint value * width * 8 div 255 \<and>
    (\<forall>i j. i < j \<longrightarrow> j < nat width \<longrightarrow> bar_cells value width ! j > 0 \<longrightarrow> bar_cells value width ! i = 8) \<and>
    sum_list (bar_cells 0 width) = 0 \<and> sum_list (bar_cells 0xff width) = 8 * width \<and>
    (\<forall>cell \<in> set (bar_cells value width). 0 \<le> cell \<and> nat cell < length eighths) \<and>
    spark_index v < length BLOCKS"
proof -
  have sum: "sum_list (bar_cells x width) = uint x * width * 8 div 255" for x
  proof -
    have "uint x \<le> 255" using uint_lt2p [of x] by simp
    then have "uint x * width \<le> 255 * width" using assms by (intro mult_right_mono) auto
    then have "uint x * width * 8 div 255 \<le> 8 * int (nat width)" using assms by simp
    moreover have "0 \<le> uint x * width * 8 div 255"
      using assms by (intro pos_imp_zdiv_nonneg_iff [THEN iffD2]) simp_all
    ultimately show ?thesis
      using sum_clamped [of "uint x * width * 8 div 255" "nat width"] by (simp add: bar_cells_def Let_def)
  qed
  have len: "length (bar_cells value width) = nat width"
    by (simp add: bar_cells_def Let_def)
  have fill: "bar_cells value width ! i = 8" if "i < j" "j < nat width" "0 < bar_cells value width ! j" for i j
    using that by (simp add: bar_cells_def Let_def)
  have cells: "nat cell < 9" if "cell \<in> set (bar_cells value width)" for cell
    using bar_cells_range [OF that] by (simp add: nat_less_iff)
  have full: "uint (0xff :: byte) * width * 8 div 255 = 8 * width" by simp
  show ?thesis
    using fill bar_cells_range [of _ "value" width]
    by (intro conjI allI impI ballI len sum sum [of 0, simplified] trans [OF sum full])
      (use spark_index_le [of v] cells in \<open>auto simp: eighths_def BLOCKS_def numeral_eq_Suc\<close>)
qed

theorem bars_to_scale_witness:
  "sum_list (bar_cells 128 20) = 80 \<and> spark_index 0xffffffff < length BLOCKS"
  using bars_to_scale [of 20 128 "0xffffffff"] by simp

end
