(* ===== verification/ViewerLog.thy ===== *)
theory ViewerLog
  imports ViewerPanel
begin

unbundle bit_operations_syntax

text \<open>
  The viewer's log of presses and releases against the reports the relay publishes: every
  change of every button is in it, whatever the order in which reports arrive and the viewer
  looks, as long as the viewer does not fall a ring behind; except for what it takes the
  buttons to be before the first report.
\<close>

section \<open>The lines of one event\<close>

text \<open>What the log should hold: one line for every button that an event changes.\<close>

fun transitions :: "(u64 \<Rightarrow> string) \<Rightarrow> u32 \<Rightarrow> Event list \<Rightarrow> string list" where
  "transitions d held [] = []"
| "transitions d held (e # es) =
    concat (map (\<lambda>b. if held AND bl_bit b = 0 \<and> ev_buttons e AND bl_bit b \<noteq> 0
                        then [event_line d (ev_realtime_ns e) ''down'' b]
                     else if held AND bl_bit b \<noteq> 0 \<and> ev_buttons e AND bl_bit b = 0
                        then [event_line d (ev_realtime_ns e) ''up  '' b]
                     else []) looks) @
    transitions d (ev_buttons e) es"

lemma look_bit: "l \<in> set looks \<Longrightarrow> \<exists>n. bl_bit l = push_bit n 1"
proof -
  have "\<forall>b \<in> bl_bit ` set looks. b \<in> (\<lambda>n. push_bit n 1) ` set [0 ..< 19]"
    by (simp add: looks_def consts_def push_bit_eq_mult upt_rec)
  then show "l \<in> set looks \<Longrightarrow> \<exists>n. bl_bit l = push_bit n 1" by blast
qed

lemma changed_bits:
  assumes "l \<in> set looks"
  shows "(new XOR held) AND new AND bl_bit l \<noteq> 0 \<longleftrightarrow> held AND bl_bit l = 0 \<and> new AND bl_bit l \<noteq> 0"
    and "(new XOR held) AND held AND bl_bit l \<noteq> 0 \<longleftrightarrow> held AND bl_bit l \<noteq> 0 \<and> new AND bl_bit l = 0"
proof -
  obtain n where n: "bl_bit l = push_bit n 1" using look_bit [OF assms] by blast
  have bit: "x AND bl_bit l \<noteq> 0 \<longleftrightarrow> bit x n" for x by (simp add: n bit_iff_and_push_bit_not_eq_0)
  show "(new XOR held) AND new AND bl_bit l \<noteq> 0 \<longleftrightarrow> held AND bl_bit l = 0 \<and> new AND bl_bit l \<noteq> 0"
    "(new XOR held) AND held AND bl_bit l \<noteq> 0 \<longleftrightarrow> held AND bl_bit l \<noteq> 0 \<and> new AND bl_bit l = 0"
    using bit [of "(new XOR held) AND new"] bit [of "(new XOR held) AND held"] bit [of held] bit [of new]
    by (auto simp: bit_simps and.assoc)
qed

lemma note_button_out:
  assumes "Log_active log" "b \<in> set looks"
  shows "snd (note_button d log e ((ev_buttons e XOR held) AND ev_buttons e) ((ev_buttons e XOR held) AND held) b po) =
    fold (Log_line log) (if held AND bl_bit b = 0 \<and> ev_buttons e AND bl_bit b \<noteq> 0
                        then [event_line d (ev_realtime_ns e) ''down'' b]
                     else if held AND bl_bit b \<noteq> 0 \<and> ev_buttons e AND bl_bit b = 0
                        then [event_line d (ev_realtime_ns e) ''up  '' b]
                     else []) (snd po)"
  using assms(1) changed_bits [OF assms(2), of "ev_buttons e" held]
  by (cases po) (auto simp: note_button_def Let_def and.assoc)

lemma note_event_out:
  assumes "Log_active log"
  shows "snd (note_event d log e po) = fold (Log_line log) (transitions d (p_held (fst po)) [e]) (snd po)"
proof -
  let ?held = "p_held (fst po)"
  have "set bs \<subseteq> set looks \<Longrightarrow>
      snd (fold (note_button d log e ((ev_buttons e XOR ?held) AND ev_buttons e) ((ev_buttons e XOR ?held) AND ?held)) bs po') =
      fold (Log_line log) (concat (map (\<lambda>b. if ?held AND bl_bit b = 0 \<and> ev_buttons e AND bl_bit b \<noteq> 0
                        then [event_line d (ev_realtime_ns e) ''down'' b]
                     else if ?held AND bl_bit b \<noteq> 0 \<and> ev_buttons e AND bl_bit b = 0
                        then [event_line d (ev_realtime_ns e) ''up  '' b]
                     else []) bs)) (snd po')" for bs po'
    by (induction bs arbitrary: po') (simp_all add: note_button_out [OF assms])
  from this [of looks po] show ?thesis by (simp add: note_event_def Let_def case_prod_unfold)
qed

lemma note_event_held [simp]: "p_held (fst (note_event d log e po)) = ev_buttons e"
  by (simp add: note_event_def Let_def case_prod_unfold)

text \<open>The buttons held after a sequence of events.\<close>

definition held_after :: "u32 \<Rightarrow> Event list \<Rightarrow> u32" where
  "held_after held es = fold (\<lambda>e _. ev_buttons e) es held"

lemma note_events_out:
  assumes "Log_active log"
  shows "snd (fold (note_event d log) es po) = fold (Log_line log) (transitions d (p_held (fst po)) es) (snd po)"
    and "p_held (fst (fold (note_event d log) es po)) = held_after (p_held (fst po)) es"
  by (induction es arbitrary: po) (simp_all add: note_event_out [OF assms] held_after_def)

lemma transitions_append:
  "transitions d held (es @ es') = transitions d held es @ transitions d (held_after held es) es'"
  by (induction d held es rule: transitions.induct) (simp_all add: held_after_def)

section \<open>Reports and looks\<close>

text \<open>
  A session: reports are published and the viewer goes through its rounds, in any order. The
  viewer has the relay's page mapped.
\<close>

datatype happening = Report publication | Look Outside

fun session :: "Options \<Rightarrow> bool \<Rightarrow> Log \<Rightarrow> happening list \<Rightarrow> Writer \<times> Viewer \<Rightarrow> Writer \<times> Viewer" where
  "session opts tty log [] wv = wv"
| "session opts tty log (Report (m, t, b, l) # hs) (w, v) = session opts tty log hs (publish m t b l w, v)"
| "session opts tty log (Look X # hs) (w, v) =
    (case w_s w of
       None \<Rightarrow> session opts tty log hs (w, v)
     | Some s \<Rightarrow>
         case viewer_round opts tty log (X\<lparr>x_page := s, x_same_file := True\<rparr>) v of
           Some (Inr v') \<Rightarrow> session opts tty log hs (w, v')
         | _ \<Rightarrow> (w, v))"

text \<open>No more than 256 reports between two looks; \<open>k\<close> of them so far.\<close>

fun keeps_up :: "nat \<Rightarrow> happening list \<Rightarrow> bool" where
  "keeps_up k [] \<longleftrightarrow> True"
| "keeps_up k (Report _ # hs) \<longleftrightarrow> k < 256 \<and> keeps_up (Suc k) hs"
| "keeps_up k (Look _ # hs) \<longleftrightarrow> keeps_up 0 hs"

fun reports :: "happening list \<Rightarrow> publication list" where
  "reports [] = []"
| "reports (Report p # hs) = p # reports hs"
| "reports (Look _ # hs) = reports hs"

text \<open>The viewer is at event \<open>c\<close> of the log \<open>es\<close> of all changes, and has its buttons right.\<close>

definition attached :: "Event list \<Rightarrow> nat \<Rightarrow> u32 \<Rightarrow> Writer \<times> Viewer \<Rightarrow> bool" where
  "attached es c held wv \<longleftrightarrow> (\<exists>s. w_s (fst wv) = Some s \<and> ring_ok es s) \<and> c \<le> length es \<and>
    vw_mapped (snd wv) \<and> vw_cursor_set (snd wv) \<and> vw_cursor (snd wv) = of_nat c \<and>
    p_held (vw_panel (snd wv)) = held \<and> panel_ok (vw_panel (snd wv))"

lemma update_rates_viewer [simp]:
  "p_held (vw_panel (update_rates now snap v)) = p_held (vw_panel v)"
  "vw_out (update_rates now snap v) = vw_out v" "vw_cursor (update_rates now snap v) = vw_cursor v"
  "vw_mapped (update_rates now snap v) = vw_mapped v"
  "vw_cursor_set (update_rates now snap v) = vw_cursor_set v"
  by (simp_all add: update_rates_def Let_def)

lemma update_panel_held [simp]:
  "p_held (update_status X snap p) = p_held p" "p_held (update_gaps snap p) = p_held p"
  by (simp_all add: update_status_def update_gaps_def Let_def)

lemma draw_keeps:
  assumes "draw opts X v = Some v'"
  shows "vw_panel v' = vw_panel v" "vw_out v' = vw_out v" "vw_cursor v' = vw_cursor v"
    "vw_mapped v' = vw_mapped v" "vw_cursor_set v' = vw_cursor_set v"
  using assms by (auto simp: draw_def Let_def split: if_splits)

lemma attached_read_feed:
  assumes "Log_active log" "attached es c held (w, v)" "w_s w = Some s"
    and "length es \<le> c + 256" "length es < 2 ^ 64"
  shows "attached es (length es) (held_after held (drop c es)) (w, read_feed X log s v)"
    and "vw_out (read_feed X log s v) = fold (Log_line log) (transitions (x_local_date X) held (drop c es)) (vw_out v)"
proof -
  have ok: "ring_ok es s" "c \<le> length es" "p_held (vw_panel v) = held" "vw_cursor v = of_nat c"
    using assms(2,3) by (auto simp: attached_def)
  have drain: "Reader_drain (vw_cursor v) s = (0, drop c es, of_nat (length es))"
    using drain_ring [OF ok(1,2) assms(5)] assms(4) ok(4) max_absorb1 [of "length es - 256" c]
    by (simp add: EVENTS_def)
  let ?po = "fold (note_event (x_local_date X) log) (drop c es) (vw_panel v, vw_out v)"
  have po: "p_held (fst ?po) = held_after held (drop c es)"
    "snd ?po = fold (Log_line log) (transitions (x_local_date X) held (drop c es)) (vw_out v)"
    using note_events_out [OF assms(1), of "x_local_date X" "drop c es" "(vw_panel v, vw_out v)"] ok(3) by simp_all
  have fields: "vw_cursor (read_feed X log s v) = of_nat (length es)"
    "p_held (vw_panel (read_feed X log s v)) = p_held (fst ?po)" "vw_out (read_feed X log s v) = snd ?po"
    "vw_mapped (read_feed X log s v) = vw_mapped v" "vw_cursor_set (read_feed X log s v) = vw_cursor_set v"
    by (simp_all add: read_feed_def drain Let_def case_prod_unfold split: option.split)
  have "panel_ok (vw_panel (read_feed X log s v))"
    using assms(2) by (intro panel_ok_read_feed) (simp add: attached_def)
  then show "attached es (length es) (held_after held (drop c es)) (w, read_feed X log s v)"
    using assms(2) po(1) fields by (simp add: attached_def)
  show "vw_out (read_feed X log s v) = fold (Log_line log) (transitions (x_local_date X) held (drop c es)) (vw_out v)"
    using po(2) fields(3) by simp
qed

lemma attached_round:
  assumes "Log_active log" "attached es c held (w, v)" "w_s w = Some s" "o_relay_pid opts = 0"
    and "length es \<le> c + 256" "length es < 2 ^ 64"
  obtains v' where "viewer_round opts tty log (X\<lparr>x_page := s, x_same_file := True\<rparr>) v = Some (Inr v')"
    "attached es (length es) (held_after held (drop c es)) (w, v')"
    "vw_out v' = fold (Log_line log) (transitions (x_local_date X) held (drop c es)) (vw_out v)"
proof -
  let ?X = "X\<lparr>x_page := s, x_same_file := True\<rparr>"
  have "ring_ok es s" "vw_mapped v" "vw_cursor_set v" using assms(2,3) by (auto simp: attached_def)
  then have "round_state opts log ?X v = read_feed ?X log s v"
    using assms(4) by (simp add: round_state_def open_feed_def ring_ok_def Let_def)
  note state = this attached_read_feed [OF assms(1-3,5,6), of ?X]
  show thesis
  proof (cases tty)
    case False
    then show ?thesis using state assms(4) by (intro that [of "read_feed ?X log s v"]) (simp_all add: viewer_round_eq)
  next
    case True
    have "panel_ok (vw_panel (read_feed ?X log s v))" using state(2) by (simp add: attached_def)
    then obtain v' where v': "draw opts ?X (read_feed ?X log s v) = Some v'" using draw_ok by blast
    then show ?thesis
      using True state assms(4) draw_keeps [OF v'] by (intro that [of v']) (simp_all add: viewer_round_eq attached_def)
  qed
qed

lemma held_after_append: "held_after held (es @ es') = held_after (held_after held es) es'"
  by (simp add: held_after_def)

lemma attached_report:
  assumes "attached es c held (w, v)" "length es < 2 ^ 64"
  shows "attached (es @ button_changes (w_last_buttons w) [(m, t, b, l)]) c held (publish m t b l w, v)"
    and "w_last_buttons (publish m t b l w) = pack_buttons b"
proof -
  obtain s where s: "w_s w = Some s" "ring_ok es s" using assms(1) by (auto simp: attached_def)
  from publish_ring [OF s assms(2), of m t b l]
  show "attached (es @ button_changes (w_last_buttons w) [(m, t, b, l)]) c held (publish m t b l w, v)"
    "w_last_buttons (publish m t b l w) = pack_buttons b"
    using assms(1) by (auto simp: attached_def simp del: button_changes.simps)
qed

lemma button_changes_Cons:
  "button_changes held ((m, t, b, l) # ps) = button_changes held [(m, t, b, l)] @ button_changes (pack_buttons b) ps"
  by simp

text \<open>What is in the log when the viewer has gone from event \<open>c\<close> to event \<open>c'\<close> of \<open>es\<close>.\<close>

definition logged :: "(u64 \<Rightarrow> string) \<Rightarrow> Log \<Rightarrow> LogOut \<Rightarrow> u32 \<Rightarrow> nat \<Rightarrow> nat \<Rightarrow> Event list \<Rightarrow> Writer \<times> Viewer \<Rightarrow> bool" where
  "logged d log out held c c' es wv \<longleftrightarrow> c \<le> c' \<and> attached es c' (held_after held (drop c (take c' es))) wv \<and>
    vw_out (snd wv) = fold (Log_line log) (transitions d held (drop c (take c' es))) out"

lemma logged_step:
  assumes "logged d log out1 (held_after held (drop c es)) (length es) c' (es @ rest) wv" "c \<le> length es"
    and "out1 = fold (Log_line log) (transitions d held (drop c es)) out"
  shows "logged d log out held c c' (es @ rest) wv"
proof -
  have le: "length es \<le> c'" using assms(1) by (simp add: logged_def)
  then have "drop c (take c' (es @ rest)) = drop c es @ drop (length es) (take c' (es @ rest))"
    using assms(2) by (simp add: drop_take)
  then show ?thesis
    using assms le by (simp add: logged_def transitions_append held_after_append min_absorb1)
qed

lemma session_log:
  assumes "Log_active log" "o_relay_pid opts = 0"
    and "attached es c held (w, v)" "keeps_up k hs" "length es \<le> c + k" "k \<le> 256"
    and "length es + length (reports hs) < 2 ^ 64" "\<forall>X. Look X \<in> set hs \<longrightarrow> x_local_date X = d"
  shows "\<exists>c'. logged d log (vw_out v) held c c' (es @ button_changes (w_last_buttons w) (reports hs))
      (session opts tty log hs (w, v)) \<and>
    (\<forall>hs' X. hs = hs' @ [Look X] \<longrightarrow> c' = length (es @ button_changes (w_last_buttons w) (reports hs)))"
  using assms(3-)
proof (induction hs arbitrary: es c held w v k)
  case Nil
  then show ?case by (intro exI [of _ c]) (simp add: attached_def logged_def held_after_def)
next
  case (Cons h hs)
  show ?case
  proof (cases h)
    case (Report p)
    obtain m t b l where p: "p = (m, t, b, l)" by (cases p) auto
    let ?es = "es @ button_changes (w_last_buttons w) [(m, t, b, l)]" and ?w = "publish m t b l w"
    have lt: "length es < 2 ^ 64" using Cons.prems(5) by simp
    note att = attached_report [OF Cons.prems(1) lt, of m t b l]
    have all: "es @ button_changes (w_last_buttons w) (reports (h # hs)) = ?es @ button_changes (w_last_buttons ?w) (reports hs)"
      by (simp add: Report p att(2))
    have "length ?es \<le> Suc (length es)" by simp
    then have "\<exists>c'. logged d log (vw_out v) held c c' (?es @ button_changes (w_last_buttons ?w) (reports hs))
        (session opts tty log hs (?w, v)) \<and>
      (\<forall>hs' X. hs = hs' @ [Look X] \<longrightarrow> c' = length (?es @ button_changes (w_last_buttons ?w) (reports hs)))"
      using Cons.prems Report by (intro Cons.IH [OF att(1), of "Suc k"]) (auto simp del: button_changes.simps)
    moreover have "session opts tty log (h # hs) (w, v) = session opts tty log hs (?w, v)"
      by (simp add: Report p)
    ultimately show ?thesis
      unfolding all by (simp only: Cons_eq_append_conv Report) blast
  next
    case (Look X)
    obtain s where s: "w_s w = Some s" using Cons.prems(1) by (auto simp: attached_def)
    have lt: "length es < 2 ^ 64" and ck: "length es \<le> c + 256" using Cons.prems(3-5) by simp_all
    have c: "c \<le> length es" using Cons.prems(1) by (simp add: attached_def)
    have d: "x_local_date X = d" using spec [OF Cons.prems(6), of X] by (simp add: Look)
    obtain v1 where v1: "viewer_round opts tty log (X\<lparr>x_page := s, x_same_file := True\<rparr>) v = Some (Inr v1)"
      "attached es (length es) (held_after held (drop c es)) (w, v1)"
      "vw_out v1 = fold (Log_line log) (transitions d held (drop c es)) (vw_out v)"
      by (rule attached_round [OF assms(1) Cons.prems(1) s assms(2) ck lt, where X = X and tty = tty, unfolded d])
    let ?all = "es @ button_changes (w_last_buttons w) (reports hs)"
    have prems: "keeps_up 0 hs" "length es \<le> length es + 0" "0 \<le> (256 :: nat)"
        "length es + length (reports hs) < 2 ^ 64" "\<forall>X. Look X \<in> set hs \<longrightarrow> x_local_date X = d"
      using Cons.prems(2,5,6) by (simp_all add: Look)
    obtain c' where ih: "logged d log (vw_out v1) (held_after held (drop c es)) (length es) c' ?all
        (session opts tty log hs (w, v1))" "\<forall>hs' X. hs = hs' @ [Look X] \<longrightarrow> c' = length ?all"
      using Cons.IH [OF v1(2) prems] by blast
    have "logged d log (vw_out v) held c c' ?all (session opts tty log hs (w, v1))"
      by (rule logged_step [OF ih(1) c v1(3)])
    moreover have "c' = length ?all" if "hs = []"
      using that ih(1) by (auto simp: logged_def attached_def)
    moreover have "session opts tty log (h # hs) (w, v) = session opts tty log hs (w, v1)"
      by (simp add: Look s v1(1))
    moreover have "reports (h # hs) = reports hs" by (simp add: Look)
    ultimately show ?thesis
      using ih(2) by (intro exI [of _ c']) (auto simp only: Cons_eq_append_conv)
  qed
qed

section \<open>Attaching\<close>

abbreviation body_of :: "publication \<Rightarrow> bytes" where
  "body_of p \<equiv> fst (snd (snd p))"

definition feed_after :: "publication list \<Rightarrow> Writer" where
  "feed_after ps = publish_all ps (snd (Writer_open True Writer_init))"

lemma publish_page:
  assumes "w_s w = Some s"
  shows "\<exists>s'. w_s (publish m t b l w) = Some s' \<and> sh_body s' = b \<and> sh_seq s' = sh_seq s + 2"
  using assms by (simp add: publish_def Let_def)

lemma feed_after_page:
  "\<exists>s. w_s (feed_after ps) = Some s \<and> even (sh_seq s) \<and>
    sh_body s = (if ps = [] then replicate 63 0 else body_of (last ps))"
proof (induction ps rule: rev_induct)
  case Nil
  show ?case
    by (simp add: feed_after_def publish_all_def Writer_open_def Writer_init_def Shared_init_def BODY_LEN_def)
next
  case (snoc p ps)
  obtain m t b l where p: "p = (m, t, b, l)" by (cases p) auto
  obtain s where "w_s (feed_after ps) = Some s" "even (sh_seq s)" using snoc by blast
  with publish_page [OF this(1), of m t b l] show ?case
    by (auto simp: feed_after_def publish_all_def p)
qed

lemma latest_even:
  assumes "Reader_valid s" "even (sh_seq s)"
  shows "\<exists>snap. Reader_latest s = Some snap \<and> sn_body snap = sh_body s"
  using assms by (simp add: Reader_latest_def numeral_eq_Suc and_one_eq Let_def even_iff_mod_2_eq_zero)

lemma attach:
  assumes "Log_active log" "o_relay_pid opts = 0" "panel_ok (vw_panel v)" "\<not> vw_mapped v"
    and "vw_next_open v \<le> x_now X" "x_open X = w_s (feed_after ps)" "length ps < 2 ^ 64"
  obtains v1 where "viewer_round opts tty log X v = Some (Inr v1)" "vw_out v1 = vw_out v"
    "attached (button_changes 0 ps) (length (button_changes 0 ps))
      (pack_buttons (if ps = [] then replicate 63 0 else body_of (last ps))) (feed_after ps, v1)"
proof -
  let ?es = "button_changes 0 ps" and ?w = "feed_after ps"
  let ?held = "pack_buttons (if ps = [] then replicate 63 0 else body_of (last ps))"
  obtain s where s: "w_s ?w = Some s" "even (sh_seq s)"
      "sh_body s = (if ps = [] then replicate 63 0 else body_of (last ps))"
    using feed_after_page by blast
  have ring: "ring_ok ?es s" using publish_all_ring [OF assms(7)] s(1) by (auto simp: feed_after_def)
  then have valid: "Reader_valid s" and head: "Reader_event_head s = of_nat (length ?es)"
    by (simp_all add: ring_ok_def Reader_event_head_def)
  obtain snap where snap: "Reader_latest s = Some snap" "sn_body snap = sh_body s"
    using latest_even [OF valid s(2)] by blast
  define v0 where "v0 = snd (open_feed X v)"
  have feed: "open_feed X v = (Some s, v0)"
    using assms(4-6) s(1) valid snap by (simp add: v0_def open_feed_def Let_def)
  have "vw_out v0 = vw_out v" and v0: "attached ?es (length ?es) ?held (?w, v0)"
    using assms(3-6) s ring valid snap head
    by (simp_all add: v0_def open_feed_def attached_def Let_def)
  have lt: "length ?es < 2 ^ 64" using length_button_changes [of 0 ps] assms(7) by simp
  let ?v1 = "read_feed X log s v0"
  have v1: "attached ?es (length ?es) ?held (?w, ?v1)" "vw_out ?v1 = vw_out v"
    using attached_read_feed [OF assms(1) v0 s(1) _ lt, of X] \<open>vw_out v0 = vw_out v\<close>
    by (simp_all add: held_after_def)
  have "round_state opts log X v = ?v1"
    using assms(2) feed valid v0 by (simp add: round_state_def attached_def)
  note state = this v1
  show thesis
  proof (cases tty)
    case False
    then show ?thesis using state assms(2) by (intro that [of ?v1]) (simp_all add: viewer_round_eq)
  next
    case True
    have "panel_ok (vw_panel ?v1)" using v1(1) by (simp add: attached_def)
    then obtain v2 where v2: "draw opts X ?v1 = Some v2" using draw_ok by blast
    then show ?thesis
      using True state assms(2) draw_keeps [OF v2] by (intro that [of v2]) (simp_all add: viewer_round_eq attached_def)
  qed
qed

lemma start_viewer_fresh:
  "start_viewer args no_color tty fopen_ok d clock now = Inr (opts, log, v) \<Longrightarrow>
    \<not> vw_mapped v \<and> vw_next_open v = now"
  by (auto simp: start_viewer_def Viewer_init_def Let_def split: sum.splits if_splits)

lemma last_buttons:
  "ps \<noteq> [] \<Longrightarrow> fold (\<lambda>(_, _, body, _) _. pack_buttons body) ps h = pack_buttons (body_of (last ps))"
  by (induction ps rule: rev_induct) (auto simp: case_prod_unfold)

text \<open>A viewer whose output is not a terminal, and what it finds outside.\<close>

definition demo_look :: "Shared option \<Rightarrow> Outside" where
  "demo_look page = \<lparr>x_now = 0, x_mono_ns = 0, x_relay_alive = True, x_page = Shared_init, x_same_file = True,
    x_open = page, x_tail_file = None, x_ws_col = None, x_local_date = (\<lambda>_. ''2026-01-01 00:00:00''),
    x_fixed = (\<lambda>_ _. ''0'')\<rparr>"

lemma demo_start:
  obtains opts log v where "start_viewer [] False False True (\<lambda>_. []) 0 0 = Inr (opts, log, v)"
    "Log_active log" "o_relay_pid opts = 0" "vw_out v = \<lparr>out_file = [], out_stdout = []\<rparr>" "log_to_stdout log"
  by (simp add: start_viewer_def Options_init_def Viewer_init_def Log_active_def Let_def)

definition demo_body :: "byte \<Rightarrow> bytes" where
  "demo_body dpad = (replicate 63 0)[7 := dpad]"

lemma demo_bodies: "pack_buttons (demo_body 8) = 0" "pack_buttons (demo_body 0x28) = CROSS"
  "pack_buttons (demo_body 0) = UP"
  by (simp_all add: demo_body_def pack_buttons_def hat_def consts_def Let_def)

section \<open>Properties\<close>



text \<open>
  Before the first report the viewer takes Up for held: A viewer that is started before
  the relay has published a report reads an all-zero body, in which the d-pad points up. So
  the first press of Up is not in its log, and a first press of any other button logs a
  release of Up that was never pressed.
\<close>

theorem first_press_misread:
  assumes "start_viewer args no_color tty fopen_ok d0 clock now = Inr (opts, log, v)"
    and "Log_active log" "o_relay_pid opts = 0"
    and "x_open X0 = w_s (feed_after [])" "now \<le> x_now X0" "pack_buttons b \<noteq> 0"
  shows "\<exists>v1. viewer_round opts tty log X0 v = Some (Inr v1) \<and>
    (let out = vw_out (snd (session opts tty log [Report (m, t, b, l), Look X] (feed_after [], v1)))
     in out = fold (Log_line log)
          (transitions (x_local_date X) UP [\<lparr>ev_realtime_ns = t, ev_buttons = pack_buttons b\<rparr>]) (vw_out v) \<and>
        (pack_buttons b = UP \<longrightarrow> out = vw_out v))"
proof -
  obtain v1 where v1: "viewer_round opts tty log X0 v = Some (Inr v1)" "vw_out v1 = vw_out v"
      "attached [] 0 (pack_buttons (replicate 63 0)) (feed_after [], v1)"
    using attach [OF assms(2,3) panel_ok_start [OF assms(1)], of X0 "[]"] start_viewer_fresh [OF assms(1)] assms(4,5)
    by (auto intro: that)
  have up: "pack_buttons (replicate 63 0) = UP" by (simp add: pack_buttons_def Let_def consts_def hat_def)
  have last: "w_last_buttons (feed_after []) = 0"
    by (simp add: feed_after_def publish_all_def Writer_open_def Writer_init_def)
  let ?e = "\<lparr>ev_realtime_ns = t, ev_buttons = pack_buttons b\<rparr>"
  obtain c' where "logged (x_local_date X) log (vw_out v1) UP 0 c' ([] @ button_changes 0 [(m, t, b, l)])
      (session opts tty log [Report (m, t, b, l), Look X] (feed_after [], v1))"
      "c' = length ([] @ button_changes 0 [(m, t, b, l)])"
    using session_log [OF assms(2,3) v1(3) [unfolded up], of 0 "[Report (m, t, b, l), Look X]" "x_local_date X"] last
    by auto
  then have "vw_out (snd (session opts tty log [Report (m, t, b, l), Look X] (feed_after [], v1))) =
      fold (Log_line log) (transitions (x_local_date X) UP [?e]) (vw_out v)"
    using assms(6) v1(2) by (simp add: logged_def)
  moreover have "transitions (x_local_date X) UP [?e] = []" if "pack_buttons b = UP"
    using that by auto
  ultimately show ?thesis
    using v1(1) by (simp add: Let_def del: transitions.simps session.simps)
qed

theorem first_press_misread_witness:
  "\<exists>opts log v v1. start_viewer [] False False True (\<lambda>_. []) 0 0 = Inr (opts, log, v) \<and>
    vw_out (snd (session opts False log [Report (1, 5, demo_body 0, Link_init), Look (demo_look None)]
      (feed_after [], v1))) = vw_out v"
proof -
  obtain opts log v where start: "start_viewer [] False False True (\<lambda>_. []) 0 0 = Inr (opts, log, v)"
    "Log_active log" "o_relay_pid opts = 0"
    by (rule demo_start)
  have "pack_buttons (demo_body 0) \<noteq> 0" by (simp add: demo_bodies UP_def)
  with first_press_misread [OF start, of "demo_look (w_s (feed_after []))" "demo_body 0" 1 5 Link_init "demo_look None"] start(1)
  show ?thesis by (auto simp: demo_look_def demo_bodies Let_def simp del: transitions.simps session.simps)
qed

end
