(* ===== verification/ViewerScreen.thy ===== *)
theory ViewerScreen
  imports ViewerPanel
begin

unbundle bit_operations_syntax

text \<open>
  The viewer redraws its block of lines in place. A terminal is reduced to the row its cursor
  is in, moved by newlines and by the control sequence that moves it up; every piece of text
  the panel is made of leaves the row alone.
\<close>

section \<open>A terminal's cursor row\<close>

datatype term_mode = Plain | Escape | Control nat

fun term_step :: "int \<times> term_mode \<Rightarrow> char \<Rightarrow> int \<times> term_mode" where
  "term_step (row, Plain) ch =
    (if ch = ESC then (row, Escape) else if ch = NEWLINE then (row + 1, Plain) else (row, Plain))"
| "term_step (row, Escape) ch = (if ch = CHR ''['' then (row, Control 0) else (row, Plain))"
| "term_step (row, Control n) ch =
    (if 48 \<le> (of_char ch :: nat) \<and> of_char ch \<le> (57 :: nat) then (row, Control (10 * n + (of_char ch - 48)))
     else if ch = CHR '';'' \<or> ch = CHR ''?'' then (row, Control 0)
     else if ch = CHR ''A'' then (row - int (max 1 n), Plain)
     else (row, Plain))"

definition terminal :: "string \<Rightarrow> int \<times> term_mode \<Rightarrow> int \<times> term_mode" where
  "terminal s st = foldl term_step st s"

definition clean :: "string \<Rightarrow> bool" where
  "clean s \<longleftrightarrow> (\<forall>row. terminal s (row, Plain) = (row, Plain))"

lemma terminal_simps [simp]:
  "terminal [] st = st"
  "terminal (ch # s) st = terminal s (term_step st ch)"
  "terminal (s @ t) st = terminal t (terminal s st)"
  by (simp_all add: terminal_def)

definition plain :: "string \<Rightarrow> bool" where
  "plain s \<longleftrightarrow> list_all (\<lambda>ch. ch \<noteq> ESC \<and> ch \<noteq> NEWLINE) s"

lemma plain_simps [simp]:
  "plain []" "plain (ch # s) \<longleftrightarrow> ch \<noteq> ESC \<and> ch \<noteq> NEWLINE \<and> plain s" "plain (s @ t) \<longleftrightarrow> plain s \<and> plain t"
  "plain (concat ss) \<longleftrightarrow> list_all plain ss"
  by (auto simp: plain_def list_all_iff)

lemma plain_replicate [simp]: "plain (replicate n ch) \<longleftrightarrow> n = 0 \<or> (ch \<noteq> ESC \<and> ch \<noteq> NEWLINE)"
  by (auto simp: plain_def list_all_iff)

lemma clean_plain: "plain s \<Longrightarrow> clean s"
  unfolding clean_def by (induction s) auto

lemma clean_simps [simp]:
  "clean []"
  "ch \<noteq> ESC \<Longrightarrow> ch \<noteq> NEWLINE \<Longrightarrow> clean (ch # s) = clean s"
  "clean s \<Longrightarrow> clean (s @ t) = clean t"
  by (simp_all add: clean_def)

lemmas chars = ESC_def NEWLINE_def

lemma clean_concat: "list_all clean ss \<Longrightarrow> clean (concat ss)"
  by (induction ss) (auto simp: clean_def)

section \<open>Numbers and characters\<close>

lemma ESC_NEWLINE_codes: "ch = ESC \<longleftrightarrow> of_char ch = (0x1b :: nat)" "ch = NEWLINE \<longleftrightarrow> of_char ch = (0x0a :: nat)"
proof -
  have "of_char ESC = (0x1b :: nat)" "of_char NEWLINE = (0x0a :: nat)" by (simp_all add: ESC_def NEWLINE_def)
  then show "ch = ESC \<longleftrightarrow> of_char ch = (0x1b :: nat)" "ch = NEWLINE \<longleftrightarrow> of_char ch = (0x0a :: nat)"
    by (metis of_char_eq_iff)+
qed

lemma plain_utf8 [simp]: "cp < 0x10000 \<Longrightarrow> plain (utf8 cp)"
  by (auto simp: utf8_def ESC_NEWLINE_codes)

lemma plain_dec [simp]: "plain (dec n)"
  using set_dec [of n] by (auto simp: plain_def list_all_iff ESC_NEWLINE_codes)

lemma plain_dec_int [simp]: "plain (dec_int i)" "plain (dec_signed i)"
  by (auto simp: dec_int_def dec_signed_def ESC_NEWLINE_codes)

lemma plain_pad_with [simp]: "ch \<noteq> ESC \<Longrightarrow> ch \<noteq> NEWLINE \<Longrightarrow> plain (pad_with ch w s) \<longleftrightarrow> plain s"
  by (simp add: pad_with_def)

lemma plain_chars [simp]: "CHR '' '' \<noteq> ESC" "CHR '' '' \<noteq> NEWLINE" "CHR ''0'' \<noteq> ESC" "CHR ''0'' \<noteq> NEWLINE"
  by (simp_all add: ESC_def NEWLINE_def)

lemma term_step_digit: "d < 10 \<Longrightarrow> term_step (row, Control n) (digit d) = (row, Control (10 * n + d))"
  by simp

lemma terminal_dec: "terminal (dec n) (row, Control 0) = (row, Control n)"
  by (induction n rule: dec.induct) (subst dec.simps, simp add: term_step_digit del: term_step.simps)

lemma terminal_cursor_up: "0 < n \<Longrightarrow> terminal (cursor_up n) (row, Plain) = (row - int n, Plain)"
  by (simp add: cursor_up_def terminal_dec)

lemma clean_clear_line: "clean clear_line"
  by (simp add: clear_line_def clean_def RETURN_def ESC_def NEWLINE_def)

lemma clean_paint [simp]:
  assumes "clean t"
  shows "clean (paint c t colour bold)"
  using assms by (auto simp: paint_def clean_def terminal_dec ESC_def)

section \<open>The pieces of the panel\<close>

lemma plain_look: "l \<in> set looks \<Longrightarrow> plain (bl_glyph l)"
  by (auto simp: looks_def ESC_NEWLINE_codes)

lemma clean_button: "l \<in> set looks \<Longrightarrow> clean (button c l held)"
  using clean_plain [OF plain_look] by (auto simp: button_def Let_def ESC_NEWLINE_codes clean_paint intro: clean_plain)

lemma clean_group:
  assumes "group c held bs = Some g"
  shows "clean g"
proof -
  have "\<forall>g. group c held bs = Some g \<longrightarrow> clean g"
    unfolding group_def
  proof (rule fold_invariant [where Q = "\<lambda>_. True" and P = "\<lambda>x. \<forall>g. x = Some g \<longrightarrow> clean g"])
    fix b x assume x: "\<forall>g. x = Some g \<longrightarrow> clean g"
    show "\<forall>g. (case (x, look b) of
        (Some g, Some l) \<Rightarrow> Some ((if g \<noteq> [] then g @ '' '' else g) @ button c l held)
      | _ \<Rightarrow> None) = Some g \<longrightarrow> clean g"
      using x lookD clean_button by (auto simp: chars split: option.splits)
  qed (simp_all add: clean_plain)
  with assms show ?thesis by blast
qed

lemma clean_eighths: "e \<in> set eighths \<Longrightarrow> clean e" "e \<in> set BLOCKS \<Longrightarrow> clean e"
  by (auto simp: eighths_def BLOCKS_def intro!: clean_plain)

lemma clean_bar [simp]: "clean (bar c v w)"
proof -
  have "nat cell < length eighths" if "cell \<in> set (bar_cells v w)" for cell
    using bar_cells_range [OF that] by (auto simp: eighths_def nat_less_iff)
  then have "clean (concat (map (\<lambda>cell. eighths ! nat cell) (bar_cells v w)))"
    by (intro clean_concat) (auto simp: list_all_iff intro!: clean_eighths(1) nth_mem)
  then show ?thesis by (simp add: bar_def Let_def chars)
qed

lemma clean_stick [simp]: "clean (stick x y)"
  by (rule clean_plain) (simp add: stick_def ESC_NEWLINE_codes)

lemma clean_utf8 [simp]: "cp < 0x10000 \<Longrightarrow> clean (utf8 cp)"
  by (simp add: clean_plain)

lemma clean_numbers [simp]: "clean (dec n)" "clean (dec_int i)" "plain s \<Longrightarrow> clean (right_aligned w s)"
  "plain s \<Longrightarrow> clean (zero_padded w s)"
  by (simp_all add: clean_plain)

lemma clean_blocks [simp]: "clean (concat (map (\<lambda>i. if i < n then utf8 0x25ae else utf8 0x25af) is))"
  by (rule clean_concat) (auto simp: list_all_iff)

lemma clean_battery [simp]: "clean (battery c status blink_on)"
  unfolding battery_def Let_def by (simp add: chars del: concat_map_singleton upt_rec_numeral)

lemma clean_describe: "clean (fst (describe l s silent))"
  by (cases "l_stage l") (simp_all add: describe_def say_def chars)

lemma clean_sparkline [simp]: "clean (sparkline c us)"
proof -
  have "spark_index v < length BLOCKS" for v
    using spark_index_le [of v] by (simp add: BLOCKS_def)
  then show ?thesis
    unfolding sparkline_def by (intro clean_concat) (simp add: list_all_iff clean_eighths(2) nth_mem)
qed

section \<open>The lines and the block\<close>

lemma clean_recent_line:
  assumes "recent_line c recent cols = Some l"
  shows "clean l"
proof -
  have "clean (concat (map (\<lambda>b. '' '' @ paint c (bl_glyph b) (bl_colour b) True) ls))"
    if "recent_shown b 0 bs = Some ls" "0 \<le> b" for b bs ls
  proof -
    have "map Some ls = map look (take (length ls) bs)" using recent_shown_spec [OF that] by blast
    from arg_cong [OF this, of set] have "Some ` set ls = look ` set (take (length ls) bs)" by simp
    then have looks: "l \<in> set looks" if "l \<in> set ls" for l
    proof -
      have "Some l \<in> Some ` set ls" using that by simp
      then obtain b where "look b = Some l" using \<open>Some ` set ls = _\<close> by auto
      then show ?thesis using lookD by blast
    qed
    show ?thesis
      by (intro clean_concat) (simp add: list_all_iff chars clean_plain [OF plain_look [OF looks]])
  qed
  with assms show ?thesis
    by (auto simp: recent_line_def recent_label_def Let_def chars)
qed

lemma clean_buttons_line: "buttons_line c held = Some l \<Longrightarrow> clean l"
  by (auto simp: buttons_line_def chars clean_group split: option.splits)

lemma clean_touch_line [simp]: "clean (touch_line s)"
proof -
  have "clean (touch_text i t)" for i t
    by (simp add: touch_text_def chars)
  then have "clean (concat (map (\<lambda>(i, t). touch_text i t) xs))" for xs
    by (intro clean_concat) (auto simp: list_all_iff)
  then show ?thesis by (simp add: touch_line_def chars)
qed

definition fixed_ok :: "(nat \<Rightarrow> quotient \<Rightarrow> string) \<Rightarrow> bool" where
  "fixed_ok fixed \<longleftrightarrow> (\<forall>n q. plain (fixed n q))"

lemma clean_fixed [simp]: "fixed_ok fixed \<Longrightarrow> clean (fixed n q)"
  unfolding fixed_ok_def by (blast intro: clean_plain)

lemma clean_title_line: "fixed_ok fixed \<Longrightarrow> clean (p_status p) \<Longrightarrow> clean (title_line fixed c diag p blink)"
  by (auto simp: title_line_def chars split: option.split)

lemma clean_link_lines: "fixed_ok fixed \<Longrightarrow> list_all clean (link_lines fixed p)"
  by (auto simp: link_lines_def Let_def chars split: option.split)

lemma clean_render:
  assumes "render fixed opts p t cols blink = Some ls"
    and "fixed_ok fixed" "clean (p_status p)" "clean (rt_last_event t)" "clean (o_log_path opts)"
  shows "list_all clean ls"
proof -
  have "clean (triggers_line c s)" "clean (sticks_line s)" for c s
    by (simp_all add: triggers_line_def sticks_line_def chars)
  then show ?thesis
    using assms clean_link_lines [OF assms(2)]
    by (auto simp: render_def Let_def chars clean_title_line clean_buttons_line clean_recent_line
        split: option.splits)
qed

lemma terminal_redraw:
  assumes "list_all clean ls"
  shows "terminal (redraw drawn ls) (row, Plain) = (row - int drawn + int (length ls), Plain)"
proof -
  have line: "terminal (clear_line @ l @ [NEWLINE]) (r, Plain) = (r + 1, Plain)" if "clean l" for l r
    using that clean_clear_line by (simp add: clean_def chars)
  have lines: "terminal (concat (map (\<lambda>l. clear_line @ l @ [NEWLINE]) ls)) (r, Plain) = (r + int (length ls), Plain)" for r
    using assms by (induction ls arbitrary: r) (simp_all add: line [unfolded terminal_simps])
  have blank: "terminal (concat (replicate n (clear_line @ [NEWLINE]))) (r, Plain) = (r + int n, Plain)" for n r
    using line [of "[]"] by (induction n arbitrary: r) (simp_all add: algebra_simps)
  show ?thesis
    by (auto simp: redraw_def terminal_cursor_up lines blank)
qed

section \<open>Rounds\<close>

lemma split_lines_plain:
  "l \<in> set (split_lines s) \<Longrightarrow> ESC \<notin> set s \<Longrightarrow> plain l"
proof (induction s arbitrary: l)
  case (Cons ch s)
  then show ?case by (cases "split_lines s") (auto split: if_splits)
qed simp

lemma tail_lines_plain:
  assumes "l \<in> set (tail_lines s)" "ESC \<notin> set s"
  shows "plain l"
proof -
  have "l \<in> set (split_lines (drop (length s - TAIL_BYTES) s))"
    using assms(1) by (auto simp: tail_lines_def Let_def dest: list.set_sel(2) split: if_splits)
  moreover have "ESC \<notin> set (drop (length s - TAIL_BYTES) s)" using assms(2) by (meson in_set_dropD)
  ultimately show ?thesis by (rule split_lines_plain)
qed

lemma find_mem: "find P xs = Some x \<Longrightarrow> x \<in> set xs"
  by (auto simp: find_Some_iff)

lemma clean_refresh:
  assumes "clean (rt_last_event t)" "\<And>s. content = Some s \<Longrightarrow> ESC \<notin> set s"
  shows "clean (rt_last_event (RelayTail_refresh content t))"
proof -
  have "clean l" if "content = Some s" "find (\<lambda>l. \<not> is_stats l) (rev (tail_lines s)) = Some l" for s l
    using tail_lines_plain [of l s] find_mem [OF that(2)] assms(2) [OF that(1)] by (simp add: clean_plain)
  with assms(1) show ?thesis
    by (auto simp: RelayTail_refresh_def Let_def split: option.split)
qed

definition status_ok :: "Viewer \<Rightarrow> bool" where
  "status_ok v \<longleftrightarrow> clean (p_status (vw_panel v)) \<and> clean (rt_last_event (vw_tail v))"

lemma note_button_status [simp]: "p_status (fst (note_button d log e wd cu b po)) = p_status (fst po)"
  by (cases po) (simp add: note_button_def Let_def)

lemma note_event_status [simp]: "p_status (fst (note_event d log e po)) = p_status (fst po)"
proof -
  have "p_status (fst (fold (note_button d log e wd cu) bs po)) = p_status (fst po)" for wd cu bs
    by (induction bs arbitrary: po) simp_all
  then show ?thesis by (simp add: note_event_def Let_def case_prod_unfold)
qed

lemma note_events_status [simp]: "p_status (fst (fold (note_event d log) es po)) = p_status (fst po)"
  by (induction es arbitrary: po) simp_all

lemma update_rates_keeps [simp]:
  "p_status (vw_panel (update_rates now snap v)) = p_status (vw_panel v)"
  "vw_tail (update_rates now snap v) = vw_tail v" "vw_screen (update_rates now snap v) = vw_screen v"
  "vw_drawn (update_rates now snap v) = vw_drawn v"
  by (simp_all add: update_rates_def Let_def)

lemma read_feed_keeps [simp]:
  "vw_tail (read_feed X log s v) = vw_tail v" "vw_screen (read_feed X log s v) = vw_screen v"
  "vw_drawn (read_feed X log s v) = vw_drawn v"
  by (simp_all add: read_feed_def Let_def case_prod_unfold split: option.split)

lemma open_feed_keeps [simp]:
  "vw_tail (snd (open_feed X v)) = vw_tail v" "vw_screen (snd (open_feed X v)) = vw_screen v"
  "vw_drawn (snd (open_feed X v)) = vw_drawn v"
  "p_status (vw_panel (snd (open_feed X v))) = p_status (vw_panel v)"
  by (simp_all add: open_feed_def Let_def split: option.split)

lemma round_state_keeps [simp]:
  "vw_tail (round_state opts log X v) = vw_tail v" "vw_screen (round_state opts log X v) = vw_screen v"
  "vw_drawn (round_state opts log X v) = vw_drawn v"
  by (simp_all add: round_state_def Let_def case_prod_unfold split: option.split)

lemma clean_read_feed:
  "clean (p_status (vw_panel v)) \<Longrightarrow> clean (p_status (vw_panel (read_feed X log s v)))"
  by (simp add: read_feed_def update_status_def clean_describe Let_def case_prod_unfold split: option.split)

lemma status_ok_round_state: "status_ok v \<Longrightarrow> status_ok (round_state opts log X v)"
  by (simp add: status_ok_def round_state_def Let_def case_prod_unfold clean_read_feed chars split: option.split)

text \<open>The cursor is below the block, as many lines as were drawn.\<close>

definition screen_ok :: "Viewer \<Rightarrow> bool" where
  "screen_ok v \<longleftrightarrow> status_ok v \<and> terminal (vw_screen v) (0, Plain) = (int (vw_drawn v), Plain)"

definition outside_ok :: "Outside \<Rightarrow> bool" where
  "outside_ok X \<longleftrightarrow> fixed_ok (x_fixed X) \<and> (\<forall>s. x_tail_file X = Some s \<longrightarrow> ESC \<notin> set s)"

lemma screen_ok_draw:
  assumes "draw opts X v = Some v'" "screen_ok v" "outside_ok X" "clean (o_log_path opts)"
  shows "screen_ok v'"
proof -
  let ?t = "if vw_next_tail v \<le> x_now X then RelayTail_refresh (x_tail_file X) (vw_tail v) else vw_tail v"
  have t: "clean (rt_last_event ?t)"
    using assms(2,3) clean_refresh by (auto simp: screen_ok_def status_ok_def outside_ok_def)
  obtain ls cols blink where ls: "render (x_fixed X) opts (vw_panel v) ?t cols blink = Some ls"
      "vw_panel v' = vw_panel v" "vw_tail v' = ?t" "vw_drawn v' = length ls"
      "vw_screen v' = vw_screen v @ redraw (vw_drawn v) ls"
    using assms(1) by (auto simp: draw_def Let_def split: if_splits)
  have "list_all clean ls"
    using clean_render [OF ls(1)] assms(2-4) t by (auto simp: screen_ok_def status_ok_def outside_ok_def)
  then show ?thesis
    using ls assms(2) t by (simp add: screen_ok_def status_ok_def terminal_redraw)
qed

lemma screen_ok_round:
  assumes "viewer_round opts True log X v = Some x" "screen_ok v" "outside_ok X" "clean (o_log_path opts)"
  shows "screen_ok (result x)"
proof -
  have "screen_ok (round_state opts log X v)"
    using assms(2) status_ok_round_state by (simp add: screen_ok_def)
  then show ?thesis
    using assms screen_ok_draw [of opts X "round_state opts log X v"]
    by (auto simp: viewer_round_eq screen_ok_def status_ok_def split: if_splits)
qed

lemma screen_ok_rounds:
  assumes "viewer_rounds opts True log Xs v = Some x" "screen_ok v" "\<forall>X \<in> set Xs. outside_ok X"
    and "clean (o_log_path opts)"
  shows "screen_ok (result x)"
  using assms(1,3)
proof (induction Xs arbitrary: x rule: rev_induct)
  case Nil
  then show ?case using assms(2) by (auto simp: viewer_rounds_def)
next
  case (snoc X Xs)
  then obtain y where "viewer_rounds opts True log Xs v = Some y"
    by (cases "viewer_rounds opts True log Xs v") (simp_all add: viewer_rounds_snoc)
  with snoc show ?case
    by (cases y) (auto simp: viewer_rounds_snoc intro: screen_ok_round [OF _ _ _ assms(4)])
qed

section \<open>Property\<close>

text \<open>
  C28 (the panel is redrawn in place). On a terminal, after every round the cursor is exactly
  as many rows below the top of the block as lines were drawn, so the block neither scrolls
  nor leaves rows behind, also when it shrinks: as long as the relay's log holds no escape
  character, the log's path is printable, and the printed rates are numbers.
\<close>

theorem panel_redrawn_in_place:
  assumes "start_viewer args no_color True fopen_ok d clock now = Inr (opts, log, v)"
    and "plain (o_log_path opts)"
    and "\<forall>X \<in> set Xs. (\<forall>n q. plain (x_fixed X n q)) \<and> (\<forall>s. x_tail_file X = Some s \<longrightarrow> ESC \<notin> set s)"
    and "viewer_rounds opts True log Xs v = Some x"
  shows "let v' = (case x of Inl v' \<Rightarrow> v' | Inr v' \<Rightarrow> v')
    in terminal (vw_screen v') (0, Plain) = (int (vw_drawn v'), Plain)"
proof -
  have "screen_ok v"
    using assms(1)
    by (auto simp: start_viewer_def Viewer_init_def Panel_init_def screen_ok_def status_ok_def chars Let_def
        split: sum.splits if_splits)
  moreover have "\<forall>X \<in> set Xs. outside_ok X" using assms(3) by (simp add: outside_ok_def fixed_ok_def)
  ultimately have "screen_ok (result x)"
    using screen_ok_rounds assms(2,4) clean_plain by blast
  then show ?thesis by (simp add: screen_ok_def result_def Let_def)
qed

definition demo_outside :: Outside where
  "demo_outside = \<lparr>x_now = 0, x_mono_ns = 0, x_relay_alive = True, x_page = Shared_init, x_same_file = True,
    x_open = Some (Shared_init\<lparr>sh_magic := MAGIC, sh_version := VERSION\<rparr>), x_tail_file = Some ''started'',
    x_ws_col = Some 100, x_local_date = (\<lambda>_. ''2026-01-01 00:00:00''), x_fixed = (\<lambda>_ _. ''0'')\<rparr>"

theorem panel_redrawn_in_place_witness:
  "\<exists>opts log v x. start_viewer [''--diag''] False True True (\<lambda>_. []) 0 0 = Inr (opts, log, v) \<and>
    viewer_rounds opts True log [demo_outside, demo_outside] v = Some x \<and>
    (let v' = (case x of Inl v' \<Rightarrow> v' | Inr v' \<Rightarrow> v')
     in terminal (vw_screen v') (0, Plain) = (int (vw_drawn v'), Plain))"
proof -
  obtain opts log v where
    start: "start_viewer [''--diag''] False True True (\<lambda>_. []) 0 0 = Inr (opts, log, v)" "o_log_path opts = []"
    by (simp add: start_viewer_def Options_init_def Let_def)
  obtain x where x: "viewer_rounds opts True log [demo_outside, demo_outside] v = Some x"
    using viewer_rounds_ok [OF panel_ok_start [OF start(1)]] by blast
  have "\<forall>X \<in> set [demo_outside, demo_outside].
      (\<forall>n q. plain (x_fixed X n q)) \<and> (\<forall>s. x_tail_file X = Some s \<longrightarrow> ESC \<notin> set s)"
    by (simp add: demo_outside_def chars)
  with panel_redrawn_in_place [OF start(1) _ _ x] start x show ?thesis by auto
qed

end
