(* ===== verification/LinuxAio.thy ===== *)
theory LinuxAio
  imports Prelude "HOL-Library.Multiset"
begin

text \<open>
  \<^verbatim>\<open>src/src/usb/LinuxAio.h\<close> and \<^verbatim>\<open>LinuxAio.cpp\<close>: reaping the kernel's completions. The kernel
  finishes requests at any moment, also while the relay reaps, so what the relay does is a
  step relation between the two. \<^verbatim>\<open>io_getevents\<close> hands out what is waiting, oldest first, and
  an eventfd counts what has finished since it was last read.
\<close>

section \<open>The context\<close>

record Completion =
  c_tag :: nat
  c_result :: int

text \<open>
  Where \<^verbatim>\<open>reap\<close> is: waiting for the eventfd to become readable, emptying it, or taking
  completions. \<open>a_in_flight\<close>, \<open>a_waiting\<close> and \<open>a_count\<close> are the kernel's; \<open>a_accepted\<close> is every
  tag ever submitted.
\<close>

datatype reap_pc = Waiting | Draining | Taking

record aio =
  a_open :: bool
  a_accepted :: "nat list"
  a_in_flight :: "nat list"
  a_count :: nat
  a_waiting :: "Completion list"
  a_pc :: reap_pc
  a_handed :: "Completion list"

definition aio_init :: aio where
  "aio_init = \<lparr>a_open = False, a_accepted = [], a_in_flight = [], a_count = 0, a_waiting = [], a_pc = Waiting, a_handed = []\<rparr>"

text \<open>\<^verbatim>\<open>open\<close>: \<open>fd_ok\<close> and \<open>setup_ok\<close> are the answers of \<^verbatim>\<open>eventfd\<close> and \<^verbatim>\<open>io_setup\<close>.\<close>

definition aio_open :: "bool \<Rightarrow> bool \<Rightarrow> aio \<Rightarrow> bool \<times> aio" where
  "aio_open fd_ok setup_ok a =
    (if a_open a then (True, a)
     else if \<not> fd_ok then (False, a)
     else if \<not> setup_ok then (False, a)
     else (True, a\<lparr>a_open := True\<rparr>))"

definition aio_close :: "aio \<Rightarrow> aio" where
  "aio_close a = (if a_open a then a\<lparr>a_open := False, a_in_flight := [], a_waiting := [], a_count := 0\<rparr> else a)"

text \<open>\<^verbatim>\<open>submit\<close>: \<open>ok\<close> is whether \<^verbatim>\<open>io_submit\<close> took the request.\<close>

definition aio_submit :: "bool \<Rightarrow> nat \<Rightarrow> aio \<Rightarrow> bool \<times> aio" where
  "aio_submit ok tag a =
    (if ok then (True, a\<lparr>a_accepted := a_accepted a @ [tag], a_in_flight := a_in_flight a @ [tag]\<rparr>)
     else (False, a))"

text \<open>One read of the loop in \<^verbatim>\<open>drain_eventfd\<close>: whether it goes on.\<close>

definition drain_read :: "aio \<Rightarrow> bool \<times> aio" where
  "drain_read a = (if a_count a = 0 then (False, a) else (True, a\<lparr>a_count := 0\<rparr>))"

definition MAX_EVENTS :: nat where [consts_def]: "MAX_EVENTS = 8"

definition take_completions :: "nat \<Rightarrow> aio \<Rightarrow> Completion list \<times> aio" where
  "take_completions max_n a =
    (let n = min max_n MAX_EVENTS in (take n (a_waiting a), a\<lparr>a_waiting := drop n (a_waiting a)\<rparr>))"

text \<open>One round of the loop in \<^verbatim>\<open>reap\<close>: every completion taken is handed to the callback.\<close>

definition reap_round :: "aio \<Rightarrow> aio" where
  "reap_round a =
    (let (done, a) = take_completions 8 a
     in if done = [] then a\<lparr>a_pc := Waiting\<rparr> else a\<lparr>a_handed := a_handed a @ done\<rparr>)"

section \<open>The relay and the kernel\<close>

inductive aio_step :: "aio \<Rightarrow> aio \<Rightarrow> bool" where
  submit: "a_open a \<Longrightarrow> aio_step a (snd (aio_submit ok tag a))"
| finish: "a_in_flight a = before @ tag # after \<Longrightarrow>
    aio_step a (a\<lparr>a_in_flight := before @ after, a_count := a_count a + 1,
      a_waiting := a_waiting a @ [\<lparr>c_tag = tag, c_result = res\<rparr>]\<rparr>)"
| wake: "a_pc a = Waiting \<Longrightarrow> 0 < a_count a \<Longrightarrow> aio_step a (a\<lparr>a_pc := Draining\<rparr>)"
| drain: "a_pc a = Draining \<Longrightarrow> drain_read a = (True, a') \<Longrightarrow> aio_step a a'"
| drained: "a_pc a = Draining \<Longrightarrow> drain_read a = (False, a') \<Longrightarrow> aio_step a (a'\<lparr>a_pc := Taking\<rparr>)"
| taken: "a_pc a = Taking \<Longrightarrow> aio_step a (reap_round a)"

inductive_simps aio_step_simps: "aio_step a b"

text \<open>The completions the kernel has produced so far, handed out or not, oldest first.\<close>

definition finished :: "aio \<Rightarrow> Completion list" where
  "finished a = a_handed a @ a_waiting a"

lemma reap_round_finished [simp]: "finished (reap_round a) = finished a"
  by (simp add: reap_round_def take_completions_def finished_def Let_def)

lemma reap_round_waiting: "a_pc (reap_round a) = Waiting \<Longrightarrow> a_pc a = Taking \<Longrightarrow> a_waiting (reap_round a) = []"
  by (auto simp: reap_round_def take_completions_def MAX_EVENTS_def Let_def split: if_splits)

definition no_missed_wake :: "aio \<Rightarrow> bool" where
  "no_missed_wake a \<longleftrightarrow> (a_pc a = Waiting \<longrightarrow> a_waiting a \<noteq> [] \<longrightarrow> 0 < a_count a)"

lemma aio_submit_keeps [simp]:
  "finished (snd (aio_submit ok tag a)) = finished a" "a_pc (snd (aio_submit ok tag a)) = a_pc a"
  "a_waiting (snd (aio_submit ok tag a)) = a_waiting a" "a_count (snd (aio_submit ok tag a)) = a_count a"
  "a_handed (snd (aio_submit ok tag a)) = a_handed a"
  by (simp_all add: aio_submit_def finished_def)

text \<open>Every accepted request is in flight, or its completion is waiting or handed out, once.\<close>

definition accounted :: "aio \<Rightarrow> bool" where
  "accounted a \<longleftrightarrow> mset (a_accepted a) = mset (a_in_flight a) + mset (map c_tag (finished a))"

lemma accounted_reap [simp]: "accounted (reap_round a) = accounted a"
proof -
  have "a_accepted (reap_round a) = a_accepted a" "a_in_flight (reap_round a) = a_in_flight a"
    by (simp_all add: reap_round_def take_completions_def Let_def)
  then show ?thesis by (simp add: accounted_def)
qed

lemma accounted_step: "aio_step a b \<Longrightarrow> accounted a \<Longrightarrow> accounted b"
proof (induction rule: aio_step.induct)
  case (taken a)
  then show ?case by simp
qed (auto simp: accounted_def aio_submit_def finished_def drain_read_def split: if_splits)

lemma no_missed_wake_step: "aio_step a b \<Longrightarrow> no_missed_wake a \<Longrightarrow> no_missed_wake b"
  by (erule aio_step.cases)
    (auto simp: no_missed_wake_def drain_read_def dest: reap_round_waiting split: if_splits)

lemma finished_step:
  "aio_step a b \<Longrightarrow> \<exists>new. finished b = finished a @ new"
  using reap_round_finished [of a]
  by (auto elim!: aio_step.cases simp: finished_def drain_read_def split: if_splits)

lemma finished_steps: "aio_step\<^sup>*\<^sup>* a b \<Longrightarrow> \<exists>new. finished b = finished a @ new"
  by (induction rule: rtranclp_induct) (use finished_step append_assoc in \<open>metis append_Nil2\<close>)+

lemma reap_ends:
  "a_pc a = Taking \<Longrightarrow> \<exists>n. a_pc ((reap_round ^^ n) a) = Waiting \<and>
    a_handed ((reap_round ^^ n) a) = a_handed a @ a_waiting a"
proof (induction "length (a_waiting a)" arbitrary: a rule: less_induct)
  case less
  let ?b = "reap_round a"
  show ?case
  proof (cases "a_waiting a = []")
    case True
    then show ?thesis
      by (intro exI [of _ 1]) (simp add: reap_round_def take_completions_def)
  next
    case False
    then have "length (a_waiting ?b) < length (a_waiting a)" "a_pc ?b = Taking"
      using less.prems by (simp_all add: reap_round_def take_completions_def MAX_EVENTS_def Let_def)
    from less.hyps [OF this] obtain n where "a_pc ((reap_round ^^ n) ?b) = Waiting"
      "a_handed ((reap_round ^^ n) ?b) = a_handed ?b @ a_waiting ?b" by blast
    then show ?thesis
      using reap_round_finished [of a] by (intro exI [of _ "Suc n"]) (simp add: finished_def funpow_swap1)
  qed
qed

section \<open>Properties\<close>

text \<open>
  C29 (no completion is missed). However the kernel's completions fall between the relay's
  reads: while the relay waits, a completion it has not taken keeps the eventfd readable, so
  it will be woken for it; what it hands out is the completions in the order they finished,
  each once; and once no more arrive, reaping ends with all of them handed out.
\<close>

theorem no_completion_missed:
  assumes "aio_step\<^sup>*\<^sup>* (snd (aio_open True True aio_init)) a"
  shows "(a_pc a = Waiting \<and> a_waiting a \<noteq> [] \<longrightarrow> 0 < a_count a) \<and>
    mset (a_accepted a) = mset (a_in_flight a) + mset (map c_tag (a_handed a @ a_waiting a)) \<and>
    (\<forall>b. aio_step\<^sup>*\<^sup>* a b \<longrightarrow> (\<exists>rest. a_handed a @ a_waiting a @ rest = a_handed b @ a_waiting b)) \<and>
    (a_pc a = Taking \<longrightarrow> (\<exists>n. a_pc ((reap_round ^^ n) a) = Waiting \<and>
      a_handed ((reap_round ^^ n) a) = a_handed a @ a_waiting a))"
proof (intro conjI allI impI)
  have inv: "no_missed_wake a \<and> accounted a"
    using assms
  proof (induction rule: rtranclp_induct)
    case base
    then show ?case by (simp add: aio_open_def aio_init_def no_missed_wake_def accounted_def finished_def)
  qed (blast intro: no_missed_wake_step accounted_step)
  then show "0 < a_count a" if "a_pc a = Waiting \<and> a_waiting a \<noteq> []"
    using that by (simp add: no_missed_wake_def)
  show "mset (a_accepted a) = mset (a_in_flight a) + mset (map c_tag (a_handed a @ a_waiting a))"
    using inv by (simp add: accounted_def finished_def)
  show "\<exists>rest. a_handed a @ a_waiting a @ rest = a_handed b @ a_waiting b" if "aio_step\<^sup>*\<^sup>* a b" for b
    using finished_steps [OF that] by (auto simp: finished_def)
qed (rule reap_ends)

theorem no_completion_missed_witness:
  "let a = \<lparr>a_open = True, a_accepted = [1], a_in_flight = [], a_count = 1,
     a_waiting = [\<lparr>c_tag = 1, c_result = 64\<rparr>], a_pc = Waiting, a_handed = []\<rparr>
   in aio_step\<^sup>*\<^sup>* (snd (aio_open True True aio_init)) a \<and> 0 < a_count a"
proof -
  let ?s = "snd (aio_open True True aio_init)"
  let ?a = "\<lparr>a_open = True, a_accepted = [1], a_in_flight = [], a_count = 1,
    a_waiting = [\<lparr>c_tag = 1, c_result = 64\<rparr>], a_pc = Waiting, a_handed = []\<rparr>"
  have "aio_step ?s (snd (aio_submit True 1 ?s))"
    by (rule aio_step.submit) (simp add: aio_open_def aio_init_def)
  moreover have "aio_step (snd (aio_submit True 1 ?s)) ?a"
    using aio_step.finish [of "snd (aio_submit True 1 ?s)" "[]" 1 "[]" 64]
    by (simp add: aio_open_def aio_init_def aio_submit_def)
  ultimately have "aio_step\<^sup>*\<^sup>* ?s ?a" by auto
  from no_completion_missed [OF this] this show ?thesis by (simp add: Let_def)
qed

end
