(* ===== verification/Switches.thy ===== *)
theory Switches
  imports Prelude "HOL-Library.Multiset" "HOL-Library.List_Lexorder" "HOL-Library.Char_ord"
begin

text \<open>
  \<^verbatim>\<open>src/src/common/Switches.h\<close>: the warning about variables of the environment that look like
  switches of the relay and are not. A variable is a string \<^verbatim>\<open>NAME=VALUE\<close>; the environment ends
  with a null pointer (\<open>None\<close>) or with the array.
\<close>

definition known_switches :: "string list" where
  "known_switches = [''DS_FRESH_PAIRING'']"

fun unknown_entries :: "string option list \<Rightarrow> string list" where
  "unknown_entries [] = []"
| "unknown_entries (None # env) = []"
| "unknown_entries (Some entry # env) =
    (if take 3 entry \<noteq> ''DS_'' then unknown_entries env
     else let name = takeWhile (\<lambda>ch. ch \<noteq> CHR ''='') entry
          in if name \<notin> set known_switches then entry # unknown_entries env
             else unknown_entries env)"

definition unknown_switches :: "string option list \<Rightarrow> string list" where
  "unknown_switches env = sort (unknown_entries env)"

text \<open>
  Exactly the DS_ variables that are not known switches are reported, in order, as often as
  they occur, and nothing behind the terminating null is read.
\<close>

lemma unknown_switches_spec:
  "sorted (unknown_switches env) \<and>
    mset (unknown_switches env) = mset (filter (\<lambda>entry. take 3 entry = ''DS_'' \<and>
      takeWhile (\<lambda>ch. ch \<noteq> CHR ''='') entry \<noteq> ''DS_FRESH_PAIRING'') (map the (takeWhile (\<lambda>x. x \<noteq> None) env)))"
proof -
  have "unknown_entries env = filter (\<lambda>entry. take 3 entry = ''DS_'' \<and>
      takeWhile (\<lambda>ch. ch \<noteq> CHR ''='') entry \<noteq> ''DS_FRESH_PAIRING'') (map the (takeWhile (\<lambda>x. x \<noteq> None) env))"
    by (induction env rule: unknown_entries.induct) (simp_all add: known_switches_def Let_def)
  then show ?thesis by (simp add: unknown_switches_def)
qed

end
