(* ===== verification/HandoverPath.thy ===== *)
theory HandoverPath
  imports Links PadPath
begin

unbundle bit_operations_syntax

text \<open>
  The handover as a whole: the pairing data the console writes over USB, its pair command, the
  detached cable, the call to the console, and the key the console's radio asks for.
\<close>

section \<open>The two reports of the console\<close>

text \<open>Report 0x0a, host address and link key, and report 0x08 with a pair subcommand.\<close>

definition pairing_set :: "bdaddr \<Rightarrow> bytes \<Rightarrow> bytes \<Rightarrow> bytes" where
  "pairing_set host key rest = REPORT_PAIRING_SET # addr_bytes host @ key @ rest"

definition pair_command :: "byte \<Rightarrow> bytes \<Rightarrow> bytes" where
  "pair_command sub rest = REPORT_TRANSPORT # sub # rest"

lemma pairing_set_fields:
  assumes "length key = 16"
  shows "subspan 1 6 (pairing_set host key rest) = addr_bytes host"
    and "subspan 7 16 (pairing_set host key rest) = key"
    and "23 \<le> length (pairing_set host key rest)"
  using assms by (simp_all add: pairing_set_def subspan_def)

lemma take_pairing_set_captures:
  assumes "length key = 16"
  shows "l2cap_send_feature_set E s (pairing_set host key rest) r =
    (if list_all (\<lambda>b. b = 0) key
     then (if h_console_pairing_seen (r_h r s) then upd s (\<lambda>h. h\<lparr>h_console_addr := host\<rparr>) r else r)
     else emit s (ConsolePairing host key)
       (upd s (\<lambda>h. h\<lparr>h_console_addr := host, h_console_link_key := key, h_console_pairing_seen := True\<rparr>) r))"
proof -
  have "l2cap_send_feature_set E s (pairing_set host key rest) r = take_pairing_set s (pairing_set host key rest) r"
    by (simp add: l2cap_send_feature_set_def pairing_set_def REPORT_PAIRING_SET_def REPORT_TRANSPORT_def)
  with pairing_set_fields [OF assms, of host rest] show ?thesis
    by (simp add: take_pairing_set_def Let_def)
qed

lemma l2cap_send_hid_keeps [simp]:
  "h_console_pairing_seen (r_h (l2cap_send_hid E s ch b d r) s') = h_console_pairing_seen (r_h r s')"
  "h_console_addr (r_h (l2cap_send_hid E s ch b d r) s') = h_console_addr (r_h r s')"
  "h_console_link_key (r_h (l2cap_send_hid E s ch b d r) s') = h_console_link_key (r_h r s')"
  "r_tasks (l2cap_send_hid E s ch b d r) = r_tasks r" "r_now (l2cap_send_hid E s ch b d r) = r_now r"
  "r_linked (l2cap_send_hid E s ch b d r) = r_linked r"
  by (simp_all add: l2cap_send_hid_def l2cap_send_framed_def l2cap_send_frame_def Let_def)

lemma feature_set_keeps [simp]:
  "h_console_pairing_seen (r_h (l2cap_send_hid_feature_set E s p r) s') = h_console_pairing_seen (r_h r s')"
  "h_console_addr (r_h (l2cap_send_hid_feature_set E s p r) s') = h_console_addr (r_h r s')"
  "h_console_link_key (r_h (l2cap_send_hid_feature_set E s p r) s') = h_console_link_key (r_h r s')"
  "h_connection_handle (r_h (l2cap_send_hid_feature_set E s p r) s') = h_connection_handle (r_h r s')"
  "r_tasks (l2cap_send_hid_feature_set E s p r) = r_tasks r" "r_now (l2cap_send_hid_feature_set E s p r) = r_now r"
  "r_linked (l2cap_send_hid_feature_set E s p r) = r_linked r"
  by (auto simp: l2cap_send_hid_feature_set_def split: option.split)

lemma pair_command_spawns:
  assumes "sub \<noteq> TRANSPORT_UNPAIR" "h_console_pairing_seen (r_h r s)" "r_linked r"
  shows "l2cap_send_feature_set E s (pair_command sub rest) r =
    spawn s 0 THandover (l2cap_send_hid_feature_set E s (pair_command sub rest)
      (upd s (\<lambda>h. h\<lparr>h_pair_command_seen := True\<rparr>) r))"
  using assms
  by (simp add: l2cap_send_feature_set_def pair_command_def REPORT_PAIRING_SET_def REPORT_TRANSPORT_def
      other_def Let_def)

lemma send_cmd_pairing [simp]:
  "h_link_key (r_h (send_cmd E s ogf ocf p r) s') = h_link_key (r_h r s')"
  "h_gadget (r_h (send_cmd E s ogf ocf p r) s') = h_gadget (r_h r s')"
  by (simp_all add: send_cmd_def pump_commands_def Let_def)

lemma handover_calls:
  assumes "r_linked r" "h_connection_handle (r_h r to_playstation) = 0"
    and "addr_is_set (h_console_addr (r_h r to_dualsense))"
  shows "\<exists>x. run_handover E to_dualsense r =
      send_cmd E to_playstation OGF_LINK_CTL OCF_CREATE_CONN (create_conn_cp (h_console_addr (r_h r to_dualsense))) x \<and>
    h_link_key (r_h x to_playstation) = Some (h_console_link_key (r_h r to_dualsense)) \<and>
    h_bt_addr (r_h x to_playstation) = h_console_addr (r_h r to_dualsense) \<and>
    h_gadget (r_h x to_dualsense) = disable_gadget (h_gadget (r_h r to_dualsense))"
  using assms
  by (auto simp: run_handover_def connect_to_console_def send_connection_request_def other_def
      write_scan_enable_def write_page_timeout_def Let_def intro!: exI)

lemma take_link_key [simp]:
  "h_link_key (r_h (take_link E s handle addr r) s') = h_link_key (r_h r s')"
  by (simp add: take_link_def end_handover_paging_def write_page_timeout_def write_page_scan_activity_def
      request_authentication_def reset_channels_def Let_def)

section \<open>Property\<close>

text \<open>
  C3 (the console is called with what it wrote over USB). The console writes a host address
  and a link key and then, while its radio link is down, a pair command: both are taken over
  USB, the address and key are saved, the pair command reaches the pad, and the coroutine it
  starts takes the gadget off the bus and pages exactly that address. When the console has
  answered the page and its controller asks for the link key, the answer is that key.
\<close>

theorem handover_reaches_console:
  assumes "length key = 16" "\<not> list_all (\<lambda>b. b = 0) key" "sub \<noteq> TRANSPORT_UNPAIR" "addr_is_set host"
    and "r_linked r" "h_connection_handle (r_h r to_playstation) = 0"
  shows "let r1 = l2cap_send_feature_set E to_dualsense (pairing_set host key rest) r;
      r2 = l2cap_send_feature_set E to_dualsense (pair_command sub rest') r1;
      r3 = run_task E udc bind to_dualsense THandover (r2\<lparr>r_tasks := r_tasks r\<rparr>)
    in (to_dualsense, ConsolePairing host key) \<in> set (r_trace r1) \<and>
       (\<exists>sent. r2 = spawn to_dualsense 0 THandover sent \<and> r_tasks sent = r_tasks r) \<and>
       \<not> u_bound (h_gadget (r_h r3 to_dualsense)) \<and> \<not> u_endpoints_enabled (h_gadget (r_h r3 to_dualsense)) \<and>
       (\<exists>x. r3 = send_cmd E to_playstation OGF_LINK_CTL OCF_CREATE_CONN (create_conn_cp host) x) \<and>
       (\<exists>y. receive E to_playstation [conn_complete HCI_SUCCESS handle host, link_key_req host] r3 =
         Some (send_cmd E to_playstation OGF_LINK_CTL OCF_LINK_KEY_REPLY (addr_bytes host @ key) y))"
proof -
  let ?r1 = "l2cap_send_feature_set E to_dualsense (pairing_set host key rest) r"
  let ?r2 = "l2cap_send_feature_set E to_dualsense (pair_command sub rest') ?r1"
  let ?r2' = "?r2\<lparr>r_tasks := r_tasks r\<rparr>"
  let ?r3 = "run_handover E to_dualsense ?r2'"
  have r1: "?r1 = emit to_dualsense (ConsolePairing host key)
       (upd to_dualsense (\<lambda>h. h\<lparr>h_console_addr := host, h_console_link_key := key, h_console_pairing_seen := True\<rparr>) r)"
    using assms(2) take_pairing_set_captures [OF assms(1)] by simp
  have r2: "?r2 = spawn to_dualsense 0 THandover (l2cap_send_hid_feature_set E to_dualsense (pair_command sub rest')
      (upd to_dualsense (\<lambda>h. h\<lparr>h_pair_command_seen := True\<rparr>) ?r1))" (is "_ = spawn _ _ _ ?sent")
    by (rule pair_command_spawns [OF assms(3)]) (simp_all add: r1 assms(5))
  have sent: "r_tasks ?sent = r_tasks r" by (simp add: r1)
  have state: "r_linked ?r2'" "h_connection_handle (r_h ?r2' to_playstation) = 0"
    "h_console_addr (r_h ?r2' to_dualsense) = host" "h_console_link_key (r_h ?r2' to_dualsense) = key"
    unfolding r2 spawn_def using assms(5,6) by (simp_all add: r1)
  obtain x where x: "?r3 = send_cmd E to_playstation OGF_LINK_CTL OCF_CREATE_CONN (create_conn_cp host) x"
      "h_link_key (r_h x to_playstation) = Some key"
      "h_gadget (r_h x to_dualsense) = disable_gadget (h_gadget (r_h ?r2' to_dualsense))"
    using handover_calls [OF state(1,2), of E] assms(4) state(3,4) by auto
  have off: "\<not> u_bound (disable_gadget u)" "\<not> u_endpoints_enabled (disable_gadget u)" for u
    by (simp_all add: disable_gadget_def Let_def)
  have key: "h_link_key (r_h ?r3 to_playstation) = Some key" using x(1,2) by simp
  obtain r4 where r4: "handle_bluetooth_data E to_playstation (conn_complete HCI_SUCCESS handle host) ?r3 = Some r4"
      "h_link_key (r_h r4 to_playstation) = Some key"
    using key by (simp add: recv_conn_complete Let_def split: option.split)
  have "handle_bluetooth_data E to_playstation (link_key_req host) r4 =
      Some (send_cmd E to_playstation OGF_LINK_CTL OCF_LINK_KEY_REPLY (addr_bytes host @ key) r4)"
    using r4(2) assms(1) by (simp add: recv_link_key_req)
  then have reply: "\<exists>y. receive E to_playstation [conn_complete HCI_SUCCESS handle host, link_key_req host] ?r3 =
      Some (send_cmd E to_playstation OGF_LINK_CTL OCF_LINK_KEY_REPLY (addr_bytes host @ key) y)"
    using r4(1) by auto
  have "(to_dualsense, ConsolePairing host key) \<in> set (r_trace ?r1)" by (simp add: r1)
  moreover have "\<exists>sent. ?r2 = spawn to_dualsense 0 THandover sent \<and> r_tasks sent = r_tasks r"
    using r2 sent by blast
  ultimately show ?thesis
    using x off reply by (auto simp: Let_def)
qed

theorem handover_reaches_console_witness:
  "\<exists>y. receive demo_env to_playstation [conn_complete HCI_SUCCESS 12 demo_pad, link_key_req demo_pad]
     (run_task demo_env True True to_dualsense THandover
       ((l2cap_send_feature_set demo_env to_dualsense (pair_command 1 [])
         (l2cap_send_feature_set demo_env to_dualsense (pairing_set demo_pad (replicate 16 5) []) (relay_start demo_setup)))
        \<lparr>r_tasks := r_tasks (relay_start demo_setup)\<rparr>)) =
    Some (send_cmd demo_env to_playstation OGF_LINK_CTL OCF_LINK_KEY_REPLY (addr_bytes demo_pad @ replicate 16 5) y)"
proof -
  have start: "addr_is_set demo_pad" "r_linked (relay_start demo_setup)"
    "h_connection_handle (r_h (relay_start demo_setup) to_playstation) = 0"
    by (simp_all add: demo_pad_def addr_is_set_def addr_of_def addr_any_def relay_start_def demo_setup_def with_pairing_def
        handler_init_def set_spoof_addr_def Let_def)
  have cmd: "(1 :: byte) \<noteq> TRANSPORT_UNPAIR" by (simp add: TRANSPORT_UNPAIR_def)
  have key: "length (replicate 16 (5 :: byte)) = 16" "\<not> list_all (\<lambda>b. b = 0) (replicate 16 (5 :: byte))" by (simp_all add: list_all_iff)
  from handover_reaches_console [OF key cmd start]
  show ?thesis unfolding Let_def by blast
qed

end
