(* ===== verification/GadgetTree.thy ===== *)
theory GadgetTree
  imports USBHandler "HOL-Library.Sublist"
begin

text \<open>
  The gadget's tree in configfs, the upper half of \<^verbatim>\<open>src/src/usb/USBHandler.cpp\<close>: how the
  tree is built (libusbgx, then the audio function by hand, then FunctionFS), how it is
  bound and unbound, and how a leftover one is taken apart. \<open>USBHandler\<close> has the same four
  operations with the tree left out; here they carry it, and the two are shown to agree.

  A path is the list of its components below \<^verbatim>\<open>GADGET_PATH\<close>; \<open>[]\<close> is the gadget's own
  directory. The file system is the kernel's: the record \<open>configfs\<close> holds the calls the code
  makes, as functions on a state of an arbitrary type, and what the code relies on is stated
  by \<open>configfs_documented\<close>, from the kernel's documentation of \<^verbatim>\<open>configfs\<close> and of the gadget's
  \<^verbatim>\<open>UDC\<close> attribute. A directory is removed only when everything made below it and every link
  to it has gone, the gadget is unbound, and, for a FunctionFS instance, it is not mounted.
\<close>

section \<open>The file system the code calls\<close>

type_synonym path = "string list"

datatype node = Directory | Symlink path | Attribute

text \<open>What libusbgx is told of the device: ids, strings, and the one configuration.\<close>

record gadget_attrs =
  bcdUSB :: u16
  bDeviceClass :: byte
  bDeviceSubClass :: byte
  bDeviceProtocol :: byte
  bMaxPacketSize0 :: byte
  idVendor :: u16
  idProduct :: u16
  bcdDevice :: u16

record gadget_strs =
  manufacturer :: string
  product :: string
  serial :: string

record config_attrs =
  bmAttributes :: byte
  bMaxPower :: byte
  configuration :: string

definition SONY_VENDOR_ID :: u16 where "SONY_VENDOR_ID = 0x054c"
definition DUALSENSE_PRODUCT_ID :: u16 where "DUALSENSE_PRODUCT_ID = 0x0ce6"

definition device_attrs :: gadget_attrs where
  "device_attrs = \<lparr>bcdUSB = 0x0200, bDeviceClass = 0, bDeviceSubClass = 0, bDeviceProtocol = 0,
    bMaxPacketSize0 = 64, idVendor = SONY_VENDOR_ID, idProduct = DUALSENSE_PRODUCT_ID, bcdDevice = 0x0100\<rparr>"

definition device_strings :: gadget_strs where
  "device_strings = \<lparr>manufacturer = ''Sony Interactive Entertainment'',
    product = ''DualSense Wireless Controller'', serial = []\<rparr>"

definition gadget_config :: config_attrs where
  "gadget_config = \<lparr>bmAttributes = 0xc0, bMaxPower = 250, configuration = ''config''\<rparr>"

record 's configfs =
  cf_node :: "'s \<Rightarrow> path \<Rightarrow> node option"
  cf_entries :: "'s \<Rightarrow> path \<Rightarrow> string list"
  cf_remove :: "path \<Rightarrow> 's \<Rightarrow> 's"
  cf_mkdir :: "path \<Rightarrow> 's \<Rightarrow> 's"
  cf_symlink :: "path \<Rightarrow> path \<Rightarrow> 's \<Rightarrow> bool \<times> 's"
  cf_can_open :: "path \<Rightarrow> 's \<Rightarrow> bool"
  cf_write :: "path \<Rightarrow> string \<Rightarrow> 's \<Rightarrow> bool \<times> 's"
  cf_read :: "path \<Rightarrow> 's \<Rightarrow> string"
  cf_umount :: "'s \<Rightarrow> 's"
  cf_mount :: "'s \<Rightarrow> bool \<times> 's"
  cf_udcs :: "'s \<Rightarrow> string list"
  cf_usbg_init :: "'s \<Rightarrow> bool \<times> 's"
  cf_create_gadget :: "gadget_attrs \<Rightarrow> gadget_strs \<Rightarrow> 's \<Rightarrow> bool \<times> 's"
  cf_create_function :: "string \<Rightarrow> 's \<Rightarrow> bool \<times> 's"
  cf_create_config :: "config_attrs \<Rightarrow> 's \<Rightarrow> bool \<times> 's"
  cf_add_function :: "string \<Rightarrow> 's \<Rightarrow> bool \<times> 's"
  cf_bound :: "'s \<Rightarrow> string"
  cf_mounted :: "'s \<Rightarrow> bool"
  cf_links :: "'s \<Rightarrow> string list"

definition UDC_PATH :: path where "UDC_PATH = [''UDC'']"
definition FFS_INSTANCE :: string where "FFS_INSTANCE = ''dualsense''"
definition FFS_FUNCTION :: string where "FFS_FUNCTION = ''ffs.dualsense''"

definition newline :: char where "newline = CHR 0x0A"

text \<open>What \<^verbatim>\<open>std::getline\<close> leaves in the string: the first line without its end.\<close>

definition first_line :: "string \<Rightarrow> string" where
  "first_line s = takeWhile (\<lambda>c. c \<noteq> newline) s"

definition node_exists :: "'s configfs \<Rightarrow> 's \<Rightarrow> path \<Rightarrow> bool" where
  "node_exists F s p \<longleftrightarrow> cf_node F s p \<noteq> None"

fun is_symlink :: "node option \<Rightarrow> bool" where
  "is_symlink (Some (Symlink t)) = True"
| "is_symlink _ = False"

text \<open>\<^verbatim>\<open>is_directory\<close> follows a link, as the standard library does.\<close>

definition is_directory :: "'s configfs \<Rightarrow> 's \<Rightarrow> path \<Rightarrow> bool" where
  "is_directory F s p =
    (case cf_node F s p of
       Some Directory \<Rightarrow> True
     | Some (Symlink t) \<Rightarrow> cf_node F s t = Some Directory
     | _ \<Rightarrow> False)"

section \<open>Taking the tree apart\<close>

definition unbind_udc :: "'s configfs \<Rightarrow> 's \<Rightarrow> bool \<times> 's" where
  "unbind_udc F s =
    (if \<not> cf_can_open F UDC_PATH s then (False, s)
     else let s = snd (cf_write F UDC_PATH [newline] s)
          in (first_line (cf_read F UDC_PATH s) = [], s))"

definition remove_links :: "'s configfs \<Rightarrow> path \<Rightarrow> 's \<Rightarrow> 's" where
  "remove_links F d s =
    fold (\<lambda>n s. if is_symlink (cf_node F s (d @ [n])) then cf_remove F (d @ [n]) s else s)
      (cf_entries F s d) s"

definition remove_all_in :: "'s configfs \<Rightarrow> path \<Rightarrow> 's \<Rightarrow> 's" where
  "remove_all_in F d s = fold (\<lambda>n. cf_remove F (d @ [n])) (cf_entries F s d) s"

definition teardown_config :: "'s configfs \<Rightarrow> string \<Rightarrow> 's \<Rightarrow> 's" where
  "teardown_config F n s =
    (let cfg = [''configs'', n]
     in if \<not> is_directory F s cfg then s
        else cf_remove F cfg (remove_all_in F (cfg @ [''strings'']) (remove_links F cfg s)))"

definition teardown_gadget_tree :: "'s configfs \<Rightarrow> 's \<Rightarrow> 's" where
  "teardown_gadget_tree F s =
    (if \<not> node_exists F s [] then s
     else let s = snd (unbind_udc F s);
              s = cf_umount F s;
              s = fold (teardown_config F) (cf_entries F s [''configs'']) s;
              s = remove_all_in F [''functions''] s;
              s = remove_all_in F [''strings''] s
          in cf_remove F [] s)"

section \<open>Building it\<close>

definition write_gadget_attr :: "'s configfs \<Rightarrow> path \<Rightarrow> string \<Rightarrow> 's \<Rightarrow> bool \<times> 's" where
  "write_gadget_attr F p v s =
    (if \<not> node_exists F s p then (False, s)
     else if \<not> cf_can_open F p s then (False, s)
     else cf_write F p v s)"

definition uac1_attrs :: "(string \<times> string) list" where
  "uac1_attrs = [(''c_chmask'', ''0x33''), (''c_srate'', ''48000''), (''c_ssize'', ''2''),
    (''p_chmask'', ''0x3''), (''p_srate'', ''48000''), (''p_ssize'', ''2'')]"

definition uac1 :: string where "uac1 = ''uac1.usb0''"

definition add_audio_function :: "'s configfs \<Rightarrow> 's \<Rightarrow> bool \<times> 's" where
  "add_audio_function F s =
    (case find (\<lambda>n. is_directory F s [''configs'', n]) (cf_entries F s [''configs'']) of
       None \<Rightarrow> (False, s)
     | Some cfg \<Rightarrow>
         let fn = [''functions'', uac1]; s = cf_mkdir F fn s
         in if \<not> node_exists F s fn then (False, s)
            else cf_symlink F fn [''configs'', cfg, uac1]
              (fold (\<lambda>(a, v) s. snd (write_gadget_attr F (fn @ [a]) v s)) uac1_attrs s))"

text \<open>
  \<^verbatim>\<open>init_gadget\<close> with the tree, from the record \<open>st\<close> only the steps of \<^verbatim>\<open>open_function\<close> after
  the mount. The result of \<^verbatim>\<open>add_audio_function\<close> is not looked at.
\<close>

definition init_gadget_tree :: "'s configfs \<Rightarrow> setup_steps \<Rightarrow> 's \<Rightarrow> usb \<Rightarrow> bool \<times> usb \<times> 's" where
  "init_gadget_tree F st s u =
    (let s = teardown_gadget_tree F s; (ok, s) = cf_usbg_init F s
     in if \<not> ok then (False, u, s)
     else let (ok, s) = cf_create_gadget F device_attrs device_strings s
     in if \<not> ok then (False, u, s)
     else let u = u\<lparr>u_gadget_created := True\<rparr>; (ok, s) = cf_create_function F FFS_INSTANCE s
     in if \<not> ok then (False, u, s)
     else let (ok, s) = cf_create_config F gadget_config s
     in if \<not> ok then (False, u, s)
     else let s = snd (add_audio_function F s); (ok, s) = cf_add_function F FFS_FUNCTION s
     in if \<not> ok then (False, u, s)
     else let (ok, s) = cf_mount F s; (ok', u) = open_function (st\<lparr>st_mount := ok\<rparr>) u
     in (ok', u, s))"

definition preferred_udc :: string where "preferred_udc = ''1000480000.usb''"

definition choose_udc :: "string list \<Rightarrow> string" where
  "choose_udc udcs =
    (if preferred_udc \<in> set udcs then preferred_udc else case udcs of [] \<Rightarrow> [] | n # _ \<Rightarrow> n)"

definition enable_gadget_tree :: "'s configfs \<Rightarrow> 's \<Rightarrow> usb \<Rightarrow> bool \<times> usb \<times> 's" where
  "enable_gadget_tree F s u =
    (if \<not> u_ep0_open u then (False, u, s)
     else let udc = choose_udc (cf_udcs F s)
     in if udc = [] then (False, u, s)
     else let (ok, s) = cf_write F UDC_PATH udc s
     in if \<not> ok then (False, u, s) else (True, u\<lparr>u_bound := True\<rparr>, s))"

definition disable_gadget_tree :: "'s configfs \<Rightarrow> 's \<Rightarrow> usb \<Rightarrow> usb \<times> 's" where
  "disable_gadget_tree F s u = (disable_gadget u, snd (unbind_udc F s))"

definition remove_gadget_tree :: "'s configfs \<Rightarrow> 's \<Rightarrow> usb \<Rightarrow> usb \<times> 's" where
  "remove_gadget_tree F s u =
    (let s = (if u_mounted u then cf_umount F s else s)
     in (remove_gadget u, if u_gadget_created u then teardown_gadget_tree F s else s))"

section \<open>What the kernel documents\<close>

text \<open>
  The directories a user makes in a gadget: the gadget, its configurations, functions and
  languages, and the languages of a configuration. Everything else appears and goes with them.
\<close>

definition made :: "path \<Rightarrow> bool" where
  "made p \<longleftrightarrow> p = [] \<or>
    (case p of
       [d, n] \<Rightarrow> d = ''configs'' \<or> d = ''functions'' \<or> d = ''strings''
     | [d, c, e, n] \<Rightarrow> d = ''configs'' \<and> e = ''strings''
     | _ \<Rightarrow> False)"

definition gadget_shape :: "(path \<Rightarrow> node option) \<Rightarrow> bool" where
  "gadget_shape N \<longleftrightarrow>
    (\<forall>p n. N (p @ [n]) \<noteq> None \<longrightarrow> N p = Some Directory) \<and>
    (\<forall>p. made p \<longrightarrow> N p = None \<or> N p = Some Directory) \<and>
    (\<forall>p t. N p = Some (Symlink t) \<longrightarrow> (\<exists>c n f. p = [''configs'', c, n] \<and> t = [''functions'', f]))"

definition cut :: "path \<Rightarrow> (path \<Rightarrow> node option) \<Rightarrow> path \<Rightarrow> node option" where
  "cut p N = (\<lambda>q. if prefix p q then None else N q)"

definition removable :: "'s configfs \<Rightarrow> 's \<Rightarrow> path \<Rightarrow> bool" where
  "removable F s p \<longleftrightarrow> cf_bound F s = [] \<and>
    (is_symlink (cf_node F s p) \<or>
     (cf_node F s p = Some Directory \<and> made p \<and>
      (\<forall>q. strict_prefix p q \<longrightarrow> made q \<or> is_symlink (cf_node F s q) \<longrightarrow> cf_node F s q = None) \<and>
      (\<forall>q. cf_node F s q \<noteq> Some (Symlink p)) \<and>
      (p = [''functions'', FFS_FUNCTION] \<longrightarrow> \<not> cf_mounted F s)))"

definition remove_documented :: "'s configfs \<Rightarrow> bool" where
  "remove_documented F \<longleftrightarrow> (\<forall>s p. removable F s p \<longrightarrow>
    cf_node F (cf_remove F p s) = cut p (cf_node F s) \<and>
    cf_bound F (cf_remove F p s) = cf_bound F s \<and> cf_mounted F (cf_remove F p s) = cf_mounted F s)"

definition listing_documented :: "'s configfs \<Rightarrow> bool" where
  "listing_documented F \<longleftrightarrow> (\<forall>s d. distinct (cf_entries F s d) \<and>
    set (cf_entries F s d) = {n. cf_node F s (d @ [n]) \<noteq> None})"

definition unbind_documented :: "'s configfs \<Rightarrow> bool" where
  "unbind_documented F \<longleftrightarrow> (\<forall>s. cf_node F s [] = Some Directory \<longrightarrow> cf_can_open F UDC_PATH s \<and>
    (let s' = snd (cf_write F UDC_PATH [newline] s)
     in cf_node F s' = cf_node F s \<and> cf_bound F s' = [] \<and> cf_mounted F s' = cf_mounted F s))"

definition umount_documented :: "'s configfs \<Rightarrow> bool" where
  "umount_documented F \<longleftrightarrow> (\<forall>s. \<not> cf_mounted F (cf_umount F s) \<and>
    cf_node F (cf_umount F s) = cf_node F s \<and> cf_bound F (cf_umount F s) = cf_bound F s)"

definition configfs_documented :: "'s configfs \<Rightarrow> bool" where
  "configfs_documented F \<longleftrightarrow>
    remove_documented F \<and> listing_documented F \<and> unbind_documented F \<and> umount_documented F"

text \<open>
  Interface numbers are handed out in the order functions are linked: \<open>cf_links\<close> is that
  order. Linking appends to it, a new gadget has none, nothing else done on the way changes it.
\<close>

definition links_documented :: "'s configfs \<Rightarrow> bool" where
  "links_documented F \<longleftrightarrow>
    (\<forall>s. fst (cf_create_gadget F device_attrs device_strings s) \<longrightarrow> cf_links F (snd (cf_create_gadget F device_attrs device_strings s)) = []) \<and>
    (\<forall>n s. cf_links F (snd (cf_create_function F n s)) = cf_links F s) \<and>
    (\<forall>s. cf_links F (snd (cf_create_config F gadget_config s)) = cf_links F s) \<and>
    (\<forall>p s. cf_links F (cf_mkdir F p s) = cf_links F s) \<and>
    (\<forall>p v s. cf_links F (snd (cf_write F p v s)) = cf_links F s) \<and>
    (\<forall>s. cf_links F (snd (cf_mount F s)) = cf_links F s) \<and>
    (\<forall>t p s. cf_links F (snd (cf_symlink F t p s)) =
      cf_links F s @ (if fst (cf_symlink F t p s) then [last p] else [])) \<and>
    (\<forall>n s. cf_links F (snd (cf_add_function F n s)) =
      cf_links F s @ (if fst (cf_add_function F n s) then [n] else []))"

definition interface_count :: "string \<Rightarrow> nat" where
  "interface_count n = (if n = uac1 then 3 else if n = FFS_FUNCTION then 1 else 0)"

definition hid_interface :: "string list \<Rightarrow> nat" where
  "hid_interface links = sum_list (map interface_count (takeWhile (\<lambda>n. n \<noteq> FFS_FUNCTION) links))"

text \<open>The state \<^verbatim>\<open>add_audio_function\<close> is called in, once the steps before it have succeeded.\<close>

definition before_audio :: "'s configfs \<Rightarrow> 's \<Rightarrow> 's" where
  "before_audio F s = snd (cf_create_config F gadget_config (snd (cf_create_function F FFS_INSTANCE
    (snd (cf_create_gadget F device_attrs device_strings (snd (cf_usbg_init F (teardown_gadget_tree F s))))))))"

text \<open>The same run as the flags \<open>USBHandler\<close> takes: how each step went, had it been reached.\<close>

definition steps_of :: "'s configfs \<Rightarrow> setup_steps \<Rightarrow> 's \<Rightarrow> setup_steps" where
  "steps_of F st s =
    (let r0 = cf_usbg_init F (teardown_gadget_tree F s); r1 = cf_create_gadget F device_attrs device_strings (snd r0);
         r2 = cf_create_function F FFS_INSTANCE (snd r1); r3 = cf_create_config F gadget_config (snd r2);
         r4 = cf_add_function F FFS_FUNCTION (snd (add_audio_function F (snd r3))); r5 = cf_mount F (snd r4)
     in st\<lparr>st_usbg_init := fst r0, st_create_gadget := fst r1, st_create_function := fst r2,
           st_create_config := fst r3, st_add_function := fst r4, st_mount := fst r5\<rparr>)"

section \<open>Lemmas\<close>

text \<open>A tree that can be taken apart: in shape, unbound and not mounted.\<close>

definition loose :: "'s configfs \<Rightarrow> 's \<Rightarrow> bool" where
  "loose F s \<longleftrightarrow> gadget_shape (cf_node F s) \<and> cf_bound F s = [] \<and> \<not> cf_mounted F s"

lemma cut_cut: "prefix p q \<Longrightarrow> cut p (cut q N) = cut p N"
  by (auto simp: cut_def fun_eq_iff dest: prefix_order.trans)

lemma gadget_shape_cut: "gadget_shape N \<Longrightarrow> gadget_shape (cut p N)"
  unfolding gadget_shape_def cut_def by (auto split: if_splits simp: prefix_def)

lemma remove_cut:
  assumes "remove_documented F" "loose F s" "removable F s p"
  shows "cf_node F (cf_remove F p s) = cut p (cf_node F s)" "loose F (cf_remove F p s)"
  using assms by (auto simp: remove_documented_def loose_def gadget_shape_cut)

lemma removable_after:
  assumes "remove_documented F" "loose F s" "removable F s p" "removable F s q" "\<not> prefix p q"
  shows "removable F (cf_remove F p s) q"
  using assms(4,5) remove_cut [OF assms(1-3)] assms(1,3)
  by (auto simp: removable_def remove_documented_def cut_def)

lemma is_symlink_iff: "is_symlink x \<longleftrightarrow> (\<exists>t. x = Some (Symlink t))"
  by (cases x rule: is_symlink.cases) auto

text \<open>Whatever exists stands in directories, up to the gadget's own.\<close>

lemma shape_prefix:
  assumes "gadget_shape N" "N q \<noteq> None" "strict_prefix p q"
  shows "N p = Some Directory"
  using assms(2,3)
proof (induction q rule: rev_induct)
  case (snoc n q)
  from assms(1) snoc.prems(1) have "N q = Some Directory" by (auto simp: gadget_shape_def)
  with snoc show ?case by (cases "p = q") (auto simp: strict_prefix_def)
qed simp

lemma shape_gone: "gadget_shape N \<Longrightarrow> N p = None \<Longrightarrow> prefix p q \<Longrightarrow> N q = None"
  using shape_prefix [of N q p] by (cases "p = q"; cases "N q") (auto simp: strict_prefix_def)

lemma shape_made: "gadget_shape N \<Longrightarrow> made p \<Longrightarrow> N p \<noteq> None \<Longrightarrow> N p = Some Directory"
  by (auto simp: gadget_shape_def)

lemma shape_link: "gadget_shape N \<Longrightarrow> is_symlink (N p) \<Longrightarrow> \<exists>c n. p = [''configs'', c, n]"
  by (auto simp: gadget_shape_def is_symlink_iff)

lemma shape_target: "gadget_shape N \<Longrightarrow> N p = Some (Symlink t) \<Longrightarrow> \<exists>f. t = [''functions'', f]"
  by (auto simp: gadget_shape_def)

text \<open>The loop both directory walks are: the entries that qualify go, with what is below.\<close>

lemma fold_remove:
  assumes "remove_documented F" "loose F s" "distinct ns"
    and "\<And>n. n \<in> set ns \<Longrightarrow> Q (cf_node F s (d @ [n])) \<Longrightarrow> removable F s (d @ [n])"
  defines "s' \<equiv> fold (\<lambda>n s. if Q (cf_node F s (d @ [n])) then cf_remove F (d @ [n]) s else s) ns s"
  shows "loose F s' \<and> cf_node F s' =
    (\<lambda>q. if \<exists>n \<in> set ns. Q (cf_node F s (d @ [n])) \<and> prefix (d @ [n]) q then None else cf_node F s q)"
  using assms(2-4) unfolding s'_def
proof (induction ns arbitrary: s)
  case (Cons n ns)
  show ?case
  proof (cases "Q (cf_node F s (d @ [n]))")
    case True
    let ?s = "cf_remove F (d @ [n]) s"
    have rm: "removable F s (d @ [n])" using Cons.prems(3) True by simp
    note cut = remove_cut [OF assms(1) Cons.prems(1) rm]
    have same: "cf_node F ?s (d @ [m]) = cf_node F s (d @ [m])" if "m \<in> set ns" for m
      using that Cons.prems(2) by (auto simp: cut cut_def)
    have "removable F ?s (d @ [m])" if "m \<in> set ns" "Q (cf_node F ?s (d @ [m]))" for m
      using that Cons.prems same [OF that(1)]
      by (intro removable_after [OF assms(1) Cons.prems(1) rm]) auto
    from Cons.IH [OF cut(2) _ this] show ?thesis
      using True Cons.prems(2) same by (auto simp: fun_eq_iff cut(1) cut_def)
  next
    case False
    then show ?thesis using Cons.IH [OF Cons.prems(1)] Cons.prems(2,3) by auto
  qed
qed simp

lemma remove_links_cut:
  assumes "configfs_documented F" "loose F s"
  shows "loose F (remove_links F d s)"
    and "cf_node F (remove_links F d s) = (\<lambda>q. if \<exists>n. is_symlink (cf_node F s (d @ [n])) \<and> prefix (d @ [n]) q
      then None else cf_node F s q)"
proof -
  have l: "distinct (cf_entries F s d)" "set (cf_entries F s d) = {n. cf_node F s (d @ [n]) \<noteq> None}"
    using assms(1) by (auto simp: configfs_documented_def listing_documented_def)
  have "loose F (remove_links F d s) \<and> cf_node F (remove_links F d s) =
      (\<lambda>q. if \<exists>n \<in> set (cf_entries F s d). is_symlink (cf_node F s (d @ [n])) \<and> prefix (d @ [n]) q
       then None else cf_node F s q)"
    unfolding remove_links_def using assms l(1)
    by (intro fold_remove) (auto simp: configfs_documented_def removable_def loose_def)
  moreover have "(\<exists>n \<in> set (cf_entries F s d). is_symlink (cf_node F s (d @ [n])) \<and> prefix (d @ [n]) q) =
      (\<exists>n. is_symlink (cf_node F s (d @ [n])) \<and> prefix (d @ [n]) q)" for q
    unfolding l(2) by (auto simp: is_symlink_iff)
  ultimately show "loose F (remove_links F d s)"
    "cf_node F (remove_links F d s) = (\<lambda>q. if \<exists>n. is_symlink (cf_node F s (d @ [n])) \<and> prefix (d @ [n]) q
      then None else cf_node F s q)" by simp_all
qed

lemma remove_all_in_cut:
  assumes "configfs_documented F" "loose F s"
    and "\<forall>n. cf_node F s (d @ [n]) \<noteq> None \<longrightarrow> removable F s (d @ [n])"
  shows "loose F (remove_all_in F d s)"
    and "cf_node F (remove_all_in F d s) = (\<lambda>q. if strict_prefix d q then None else cf_node F s q)"
proof -
  have l: "distinct (cf_entries F s d)" "set (cf_entries F s d) = {n. cf_node F s (d @ [n]) \<noteq> None}"
    using assms(1) by (auto simp: configfs_documented_def listing_documented_def)
  have *: "loose F (remove_all_in F d s) \<and> cf_node F (remove_all_in F d s) =
      (\<lambda>q. if \<exists>n \<in> set (cf_entries F s d). prefix (d @ [n]) q then None else cf_node F s q)"
    unfolding remove_all_in_def
    using fold_remove [where Q = "\<lambda>_. True" and F = F and s = s and d = d, OF _ assms(2) l(1)] assms(1,3) l(2)
    by (simp add: configfs_documented_def)
  have "cf_node F s q = None" if "strict_prefix d q" "\<not> (\<exists>n \<in> set (cf_entries F s d). prefix (d @ [n]) q)" for q
  proof -
    from that(1) obtain n r where q: "q = d @ n # r" by (auto elim: strict_prefixE')
    then have "prefix (d @ [n]) q" by (simp add: prefix_def)
    moreover from this have "cf_node F s (d @ [n]) = None" using that(2) l(2) by auto
    ultimately show ?thesis using shape_gone assms(2) by (auto simp: loose_def)
  qed
  moreover have "strict_prefix d q" if "prefix (d @ [n]) q" for n q
    using that by (auto simp: strict_prefix_def prefix_def)
  ultimately show "loose F (remove_all_in F d s)"
    "cf_node F (remove_all_in F d s) = (\<lambda>q. if strict_prefix d q then None else cf_node F s q)"
    using * by (auto simp: fun_eq_iff)
qed

lemma made_simps [simp]:
  "made [d, n] \<longleftrightarrow> d = ''configs'' \<or> d = ''functions'' \<or> d = ''strings''"
  "made [d, c, e, n] \<longleftrightarrow> d = ''configs'' \<and> e = ''strings''" "made []" "\<not> made [d]" "\<not> made [d, c, e]"
  by (simp_all add: made_def)

lemma removableI:
  assumes "loose F s" "made p" "cf_node F s p \<noteq> None"
    and "\<And>q. strict_prefix p q \<Longrightarrow> made q \<or> is_symlink (cf_node F s q) \<Longrightarrow> cf_node F s q = None"
    and "\<And>f q. p = [''functions'', f] \<Longrightarrow> \<not> is_symlink (cf_node F s q)"
  shows "removable F s p"
proof -
  have shape: "gadget_shape (cf_node F s)" using assms(1) by (simp add: loose_def)
  have "cf_node F s q \<noteq> Some (Symlink p)" for q
    using shape_target [OF shape, of q p] assms(5) [of _ q] by (auto simp: is_symlink_iff)
  then show ?thesis
    using assms(1,2,4) shape_made [OF shape assms(2,3)] by (auto simp: removable_def loose_def)
qed

lemma made_below_configs: "made q \<Longrightarrow> strict_prefix [''configs'', c] q \<Longrightarrow> \<exists>n. q = [''configs'', c, ''strings'', n]"
  by (auto simp: made_def strict_prefix_def prefix_def split: list.splits)

lemma teardown_config_cut:
  assumes "configfs_documented F" "loose F s" "cf_node F s [''configs'', c] \<noteq> None"
  shows "loose F (teardown_config F c s)"
    and "cf_node F (teardown_config F c s) = cut [''configs'', c] (cf_node F s)"
proof -
  let ?c = "[''configs'', c]"
  let ?s1 = "remove_links F ?c s" and ?s2 = "remove_all_in F (?c @ [''strings'']) (remove_links F ?c s)"
  have shape: "gadget_shape (cf_node F s)" using assms(2) by (simp add: loose_def)
  have rd: "remove_documented F" using assms(1) by (simp add: configfs_documented_def)
  have dir: "cf_node F s ?c = Some Directory" by (rule shape_made [OF shape _ assms(3)]) simp
  note s1 = remove_links_cut [OF assms(1,2), of ?c]
  have none1: "\<not> is_symlink (cf_node F ?s1 q)" if "prefix ?c q" for q
    using shape_link [OF shape, of q] that unfolding s1(2) by (fastforce split: if_splits)
  have rem: "\<forall>n. cf_node F ?s1 ((?c @ [''strings'']) @ [n]) \<noteq> None \<longrightarrow>
    removable F ?s1 ((?c @ [''strings'']) @ [n])"
  proof (intro allI impI removableI [OF s1(1)])
    fix n q assume "strict_prefix ((?c @ [''strings'']) @ [n]) q" "made q \<or> is_symlink (cf_node F ?s1 q)"
    then show "cf_node F ?s1 q = None"
      using none1 [of q] made_below_configs [of q c] by (auto simp: strict_prefix_def prefix_def)
  qed simp_all
  note s2 = remove_all_in_cut [OF assms(1) s1(1), of "?c @ [''strings'']", OF rem]
  have dir2: "cf_node F ?s2 ?c = Some Directory"
    using dir s2(2) s1(2) by simp
  have "removable F ?s2 ?c"
  proof (rule removableI [OF s2(1)])
    fix q assume "strict_prefix ?c q" "made q \<or> is_symlink (cf_node F ?s2 q)"
    then show "cf_node F ?s2 q = None"
      using none1 [of q] made_below_configs [of q c] unfolding s2(2)
      by (auto simp: strict_prefix_def prefix_def split: if_splits)
  qed (use dir2 in simp_all)
  note s3 = remove_cut [OF rd s2(1) this]
  have is_dir: "is_directory F s ?c" by (simp add: is_directory_def dir)
  then have eq: "teardown_config F c s = cf_remove F ?c ?s2" by (simp add: teardown_config_def Let_def)
  show "loose F (teardown_config F c s)" unfolding eq by (rule s3(2))
  show "cf_node F (teardown_config F c s) = cut ?c (cf_node F s)"
    unfolding eq s3(1) s2(2) s1(2) by (auto simp: cut_def fun_eq_iff strict_prefix_def prefix_def)
qed

lemma configs_cut:
  assumes "configfs_documented F" "loose F s" "distinct cs" "\<And>c. c \<in> set cs \<Longrightarrow> cf_node F s [''configs'', c] \<noteq> None"
  shows "loose F (fold (teardown_config F) cs s) \<and>
    cf_node F (fold (teardown_config F) cs s) =
      (\<lambda>q. if \<exists>c \<in> set cs. prefix [''configs'', c] q then None else cf_node F s q)"
  using assms(2-4)
proof (induction cs arbitrary: s)
  case (Cons c cs)
  note cut = teardown_config_cut [OF assms(1) Cons.prems(1), of c]
  have here: "cf_node F s [''configs'', c] \<noteq> None" using Cons.prems(3) by simp
  have "cf_node F (teardown_config F c s) [''configs'', d] \<noteq> None" if "d \<in> set cs" for d
    unfolding cut(2) [OF here] using that Cons.prems(2,3) by (auto simp: cut_def)
  from Cons.IH [OF cut(1) [OF here] _ this] show ?case
    using Cons.prems(2) by (auto simp: cut(2) [OF here] cut_def fun_eq_iff)
qed simp

lemma no_configs_no_links:
  assumes "gadget_shape N" "\<And>c. N [''configs'', c] = None"
  shows "\<not> is_symlink (N q)"
proof
  assume "is_symlink (N q)"
  with shape_link [OF assms(1)] obtain c n where q: "q = [''configs'', c, n]" by blast
  then have "N q = None" using shape_gone [OF assms(1), of "[''configs'', c]" q] assms(2) by (simp add: prefix_def)
  with \<open>is_symlink (N q)\<close> show False by (simp add: is_symlink_iff)
qed

lemma made_below_top: "made q \<Longrightarrow> q \<noteq> [] \<Longrightarrow>
    strict_prefix [''configs''] q \<or> strict_prefix [''functions''] q \<or> strict_prefix [''strings''] q"
  by (auto simp: made_def strict_prefix_def prefix_def split: list.splits)

lemma made_below_pair: "made q \<Longrightarrow> strict_prefix [d, n] q \<Longrightarrow> d = ''configs''"
  by (auto simp: made_def strict_prefix_def prefix_def split: list.splits)

lemma write_attr_links:
  "links_documented F \<Longrightarrow> cf_links F (snd (write_gadget_attr F p v s)) = cf_links F s"
  by (simp add: links_documented_def write_gadget_attr_def)

lemma write_attrs_links:
  "links_documented F \<Longrightarrow>
   cf_links F (fold (\<lambda>(a, v) s. snd (write_gadget_attr F (d @ [a]) v s)) attrs s) = cf_links F s"
  by (induction attrs arbitrary: s) (auto simp: write_attr_links)

lemma add_audio_links:
  "links_documented F \<Longrightarrow> cf_links F (snd (add_audio_function F s)) =
   cf_links F s @ (if fst (add_audio_function F s) then [uac1] else [])"
  using write_attrs_links [of F "[''functions'', uac1]"]
  by (simp add: add_audio_function_def links_documented_def Let_def split: option.split)

lemma hid_interface_values [simp]: "hid_interface [uac1, FFS_FUNCTION] = 3" "hid_interface [FFS_FUNCTION] = 0"
  by (simp_all add: hid_interface_def interface_count_def uac1_def FFS_FUNCTION_def)

text \<open>The gadget without its tree, as \<open>USBHandler\<close> has it, is this one with the tree left out.\<close>

lemma init_gadget_tree_flags:
  "init_gadget (steps_of F st s) u =
   (fst (init_gadget_tree F st s u), fst (snd (init_gadget_tree F st s u)))"
  by (auto simp: init_gadget_tree_def init_gadget_def steps_of_def open_function_def Let_def split_beta)

text \<open>The tree once the loop over the configurations has run.\<close>

lemma configs_torn_down:
  assumes "configfs_documented F" "loose F s"
  defines "s' \<equiv> fold (teardown_config F) (cf_entries F s [''configs'']) s"
  shows "loose F s'"
    and "cf_node F s' = (\<lambda>q. if \<exists>c. cf_node F s [''configs'', c] \<noteq> None \<and> prefix [''configs'', c] q
      then None else cf_node F s q)"
    and "\<not> is_symlink (cf_node F s' q)"
    and "strict_prefix [''configs''] q \<Longrightarrow> cf_node F s' q = None"
proof -
  have listed: "distinct (cf_entries F s [''configs''])"
      "set (cf_entries F s [''configs'']) = {c. cf_node F s [''configs'', c] \<noteq> None}"
    using assms(1) by (simp_all add: configfs_documented_def listing_documented_def)
  then have "\<And>c. c \<in> set (cf_entries F s [''configs'']) \<Longrightarrow> cf_node F s [''configs'', c] \<noteq> None" by simp
  note cut = configs_cut [OF assms(1,2) listed(1) this]
  show s': "loose F s'" "cf_node F s' = (\<lambda>q. if \<exists>c. cf_node F s [''configs'', c] \<noteq> None \<and>
      prefix [''configs'', c] q then None else cf_node F s q)"
    using cut unfolding listed(2) s'_def by simp_all
  show "\<not> is_symlink (cf_node F s' q)"
    using s'(1) by (intro no_configs_no_links) (auto simp: loose_def s'(2))
  assume "strict_prefix [''configs''] q"
  then obtain c r where "q = ''configs'' # c # r" by (auto elim: strict_prefixE')
  then show "cf_node F s' q = None"
    using shape_gone [of "cf_node F s" "[''configs'', c]" q] assms(2) by (auto simp: s'(2) loose_def)
qed

section \<open>A kernel that does as documented\<close>

text \<open>
  A file system to run the operations on: the nodes as an association list, and a removal that
  is refused whenever the documentation does not promise it. It takes every step of the setup.
\<close>

record demo_fs =
  d_nodes :: "(path \<times> node) list"
  d_bound :: string
  d_mounted :: bool
  d_links :: "string list"

definition demo_make :: "(path \<times> node) list \<Rightarrow> demo_fs \<Rightarrow> demo_fs" where
  "demo_make ns t = t\<lparr>d_nodes := ns @ d_nodes t\<rparr>"

definition demo_can_remove :: "path \<Rightarrow> demo_fs \<Rightarrow> bool" where
  "demo_can_remove p t \<longleftrightarrow> d_bound t = [] \<and>
    (is_symlink (map_of (d_nodes t) p) \<or>
     map_of (d_nodes t) p = Some Directory \<and> made p \<and>
     list_all (\<lambda>(q, k). \<not> (strict_prefix p q \<and> (made q \<or> is_symlink (map_of (d_nodes t) q)))) (d_nodes t) \<and>
     list_all (\<lambda>(q, k). map_of (d_nodes t) q \<noteq> Some (Symlink p)) (d_nodes t) \<and>
     (p = [''functions'', FFS_FUNCTION] \<longrightarrow> \<not> d_mounted t))"

definition demo_configfs :: "demo_fs configfs" where
  "demo_configfs =
    \<lparr>cf_node = (\<lambda>t. map_of (d_nodes t)),
     cf_entries = (\<lambda>t d. remdups (map last (filter (\<lambda>q. q \<noteq> [] \<and> butlast q = d) (map fst (d_nodes t))))),
     cf_remove = (\<lambda>p t. if demo_can_remove p t
       then t\<lparr>d_nodes := filter (\<lambda>(q, _). \<not> prefix p q) (d_nodes t)\<rparr> else t),
     cf_mkdir = (\<lambda>p. demo_make [(p, Directory), (p @ [''c_chmask''], Attribute)]),
     cf_symlink = (\<lambda>dest p t. (True, (demo_make [(p, Symlink dest)] t)\<lparr>d_links := d_links t @ [last p]\<rparr>)),
     cf_can_open = (\<lambda>p t. True),
     cf_write = (\<lambda>p v t. (True, if p = UDC_PATH then t\<lparr>d_bound := (if v = [newline] then [] else v)\<rparr> else t)),
     cf_read = (\<lambda>p t. d_bound t @ [newline]),
     cf_umount = (\<lambda>t. t\<lparr>d_mounted := False\<rparr>),
     cf_mount = (\<lambda>t. (True, t\<lparr>d_mounted := True\<rparr>)),
     cf_udcs = (\<lambda>t. [''dummy_udc.0'', ''1000480000.usb'']),
     cf_usbg_init = (\<lambda>t. (True, t)),
     cf_create_gadget = (\<lambda>_ _ t. (map_of (d_nodes t) [] = None, if map_of (d_nodes t) [] = None
       then (demo_make [([], Directory), (UDC_PATH, Attribute), ([''configs''], Directory),
         ([''functions''], Directory), ([''strings''], Directory), ([''strings'', ''0x409''], Directory)] t)
         \<lparr>d_links := []\<rparr> else t)),
     cf_create_function = (\<lambda>n t. (True, demo_make [([''functions'', ''ffs.'' @ n], Directory)] t)),
     cf_create_config = (\<lambda>_ t. (True, demo_make [([''configs'', ''config.1''], Directory),
       ([''configs'', ''config.1'', ''strings''], Directory),
       ([''configs'', ''config.1'', ''strings'', ''0x409''], Directory)] t)),
     cf_add_function = (\<lambda>n t. (True, (demo_make
       [([''configs'', ''config.1'', n], Symlink [''functions'', n])] t)\<lparr>d_links := d_links t @ [n]\<rparr>)),
     cf_bound = d_bound, cf_mounted = d_mounted, cf_links = d_links\<rparr>"

definition demo_empty :: demo_fs where
  "demo_empty = \<lparr>d_nodes = [], d_bound = [], d_mounted = False, d_links = []\<rparr>"

text \<open>A run that set its gadget up, bound it, and was killed.\<close>

definition demo_killed :: demo_fs where
  "demo_killed =
    (let (ok, u, s) = init_gadget_tree demo_configfs all_steps demo_empty USBHandler_init
     in snd (snd (enable_gadget_tree demo_configfs s u)))"

lemma map_of_filter_prefix: "map_of (filter (\<lambda>(q, _). \<not> prefix p q) xs) = cut p (map_of xs)"
  by (induction xs) (auto simp: cut_def fun_eq_iff)

lemma demo_removable: "removable demo_configfs t p \<Longrightarrow> demo_can_remove p t"
  by (auto simp: removable_def demo_can_remove_def demo_configfs_def list_all_iff map_of_eq_None_iff image_iff) fastforce+

lemma demo_documented: "configfs_documented demo_configfs"
proof -
  have "remove_documented demo_configfs"
    using demo_removable by (auto simp: remove_documented_def demo_configfs_def map_of_filter_prefix)
  moreover have "listing_documented demo_configfs"
  proof -
    have "last ` {q \<in> fst ` set ns. q \<noteq> [] \<and> butlast q = d} = {n. d @ [n] \<in> fst ` set ns}"
      for d and ns :: "(path \<times> node) list"
      by (auto simp: image_iff Bex_def) (metis butlast_snoc last_snoc snoc_eq_iff_butlast)
    then show ?thesis
      by (simp add: listing_documented_def demo_configfs_def map_of_eq_None_iff)
  qed
  moreover have "unbind_documented demo_configfs" "umount_documented demo_configfs"
    by (simp_all add: unbind_documented_def umount_documented_def demo_configfs_def)
  ultimately show ?thesis by (simp add: configfs_documented_def)
qed

lemma demo_links_documented: "links_documented demo_configfs"
  by (simp add: links_documented_def demo_configfs_def demo_make_def)

definition shape_check :: "(path \<times> node) list \<Rightarrow> bool" where
  "shape_check ns \<longleftrightarrow> list_all (\<lambda>(q, k). (q = [] \<or> map_of ns (butlast q) = Some Directory) \<and>
    (made q \<longrightarrow> k = Directory) \<and>
    (case k of Symlink t \<Rightarrow> length q = 3 \<and> hd q = ''configs'' \<and> length t = 2 \<and> hd t = ''functions'' | _ \<Rightarrow> True)) ns"

lemma shape_of_check:
  assumes "shape_check ns"
  shows "gadget_shape (map_of ns)"
proof -
  have node: "(q = [] \<or> map_of ns (butlast q) = Some Directory) \<and> (made q \<longrightarrow> k = Directory) \<and>
      (case k of Symlink t \<Rightarrow> length q = 3 \<and> hd q = ''configs'' \<and> length t = 2 \<and> hd t = ''functions'' | _ \<Rightarrow> True)"
    if "map_of ns q = Some k" for q k
    using map_of_SomeD [OF that] assms unfolding shape_check_def list_all_iff by fast
  have "\<exists>c n f. q = [''configs'', c, n] \<and> t = [''functions'', f]" if "map_of ns q = Some (Symlink t)" for q t
    using node [OF that] by (auto simp: numeral_3_eq_3 numeral_2_eq_2 length_Suc_conv)
  moreover have "map_of ns p = Some Directory" if "map_of ns (p @ [n]) = Some k" for p n k
    using node [OF that] by simp
  moreover have "map_of ns p = None \<or> map_of ns p = Some Directory" if "made p" for p
    using node [of p] that by (cases "map_of ns p") auto
  ultimately show ?thesis unfolding gadget_shape_def by blast
qed

section \<open>Properties\<close>

text \<open>
  C14 (a gadget left behind is removed whole). Whatever an earlier run left in configfs, bound
  or not, mounted or not, with any configurations, functions, links and languages in it: after
  \<^verbatim>\<open>teardown_gadget_tree\<close> nothing of it is there, and the gadget is unbound and unmounted.
\<close>

theorem teardown_leaves_nothing:
  assumes "configfs_documented F" "gadget_shape (cf_node F s)" "cf_node F s [] \<noteq> None"
  shows "(\<forall>p. cf_node F (teardown_gadget_tree F s) p = None) \<and>
    cf_bound F (teardown_gadget_tree F s) = [] \<and> \<not> cf_mounted F (teardown_gadget_tree F s)"
proof -
  let ?s2 = "cf_umount F (snd (unbind_udc F s))"
  let ?s3 = "fold (teardown_config F) (cf_entries F ?s2 [''configs'']) ?s2"
  let ?s4 = "remove_all_in F [''functions''] ?s3"
  let ?s5 = "remove_all_in F [''strings''] ?s4"
  have top: "cf_node F s [] = Some Directory" by (rule shape_made [OF assms(2) _ assms(3)]) simp
  have unbound: "cf_node F (snd (unbind_udc F s)) = cf_node F s" "cf_bound F (snd (unbind_udc F s)) = []"
    using assms(1) top by (simp_all add: configfs_documented_def unbind_documented_def unbind_udc_def Let_def)
  have s2: "loose F ?s2" "cf_node F ?s2 = cf_node F s"
    using assms(1,2) unbound by (simp_all add: loose_def configfs_documented_def umount_documented_def)
  note s3 = configs_torn_down [OF assms(1) s2(1)]
  have rem4: "\<forall>n. cf_node F ?s3 ([''functions''] @ [n]) \<noteq> None \<longrightarrow> removable F ?s3 ([''functions''] @ [n])"
    using s3(3) by (intro allI impI removableI [OF s3(1)]) (auto dest: made_below_pair)
  note s4 = remove_all_in_cut [OF assms(1) s3(1), of "[''functions'']", OF rem4]
  have no_links4: "\<not> is_symlink (cf_node F ?s4 q)" for q using s3(3) [of q] by (simp add: s4(2))
  have rem5: "\<forall>n. cf_node F ?s4 ([''strings''] @ [n]) \<noteq> None \<longrightarrow> removable F ?s4 ([''strings''] @ [n])"
    using no_links4 by (intro allI impI removableI [OF s4(1)]) (auto dest: made_below_pair)
  note s5 = remove_all_in_cut [OF assms(1) s4(1), of "[''strings'']", OF rem5]
  have "removable F ?s5 []"
  proof (rule removableI [OF s5(1)])
    show "cf_node F ?s5 [] \<noteq> None" using top by (auto simp: s5(2) s4(2) s3(2) s2(2))
    fix q assume "strict_prefix [] q" "made q \<or> is_symlink (cf_node F ?s5 q)"
    then show "cf_node F ?s5 q = None"
      using made_below_top [of q] s3(4) [of q] no_links4 [of q] by (auto simp: s5(2) s4(2))
  qed simp_all
  then have "loose F (cf_remove F [] ?s5)" "cf_node F (cf_remove F [] ?s5) = cut [] (cf_node F ?s5)"
    using remove_cut [OF _ s5(1)] assms(1) by (simp_all add: configfs_documented_def)
  moreover have "teardown_gadget_tree F s = cf_remove F [] ?s5"
    using assms(3) by (simp add: teardown_gadget_tree_def node_exists_def Let_def)
  ultimately show ?thesis by (simp add: loose_def cut_def)
qed

lemma demo_killed_state: "shape_check (d_nodes demo_killed)" "map_of (d_nodes demo_killed) [] = Some Directory"
    "d_bound demo_killed = ''1000480000.usb''" "d_mounted demo_killed"
  by code_simp+

theorem teardown_leaves_nothing_witness:
  "cf_node demo_configfs demo_killed [''functions'', uac1] = Some Directory \<and>
   cf_node demo_configfs (teardown_gadget_tree demo_configfs demo_killed) [''functions'', uac1] = None \<and>
   cf_bound demo_configfs demo_killed = ''1000480000.usb'' \<and>
   cf_bound demo_configfs (teardown_gadget_tree demo_configfs demo_killed) = []"
proof -
  have "gadget_shape (cf_node demo_configfs demo_killed)" "cf_node demo_configfs demo_killed [] \<noteq> None"
    using shape_of_check [OF demo_killed_state(1)] demo_killed_state(2) by (simp_all add: demo_configfs_def)
  note gone = teardown_leaves_nothing [OF demo_documented this]
  have "cf_node demo_configfs demo_killed [''functions'', uac1] = Some Directory"
    "cf_bound demo_configfs demo_killed = ''1000480000.usb''"
    by code_simp+
  with gone show ?thesis by simp
qed

text \<open>
  C15 (HID is interface 3 when the audio function could be linked). When \<^verbatim>\<open>init_gadget\<close>
  succeeds, the audio function, if linked at all, was linked before HID, so that HID's
  interface number is 3; when \<^verbatim>\<open>add_audio_function\<close> failed it is 0, and the gadget is made
  all the same. The members of the class are then those of \<open>USBHandler\<close>'s \<^verbatim>\<open>init_gadget\<close>.
\<close>

theorem hid_follows_audio:
  assumes "links_documented F" "init_gadget_tree F st s u = (True, u', s')"
  shows "let audio = fst (add_audio_function F (before_audio F s))
    in cf_links F s' = (if audio then [uac1, FFS_FUNCTION] else [FFS_FUNCTION]) \<and>
       hid_interface (cf_links F s') = (if audio then 3 else 0) \<and>
       init_gadget (steps_of F st s) u = (True, u')"
proof -
  let ?x = "before_audio F s"
  have made: "fst (cf_create_gadget F device_attrs device_strings (snd (cf_usbg_init F (teardown_gadget_tree F s))))"
      and linked: "fst (cf_add_function F FFS_FUNCTION (snd (add_audio_function F ?x)))"
      and s': "s' = snd (cf_mount F (snd (cf_add_function F FFS_FUNCTION (snd (add_audio_function F ?x)))))"
    using assms(2) unfolding init_gadget_tree_def before_audio_def
    by (auto simp: Let_def split: prod.splits if_splits)
  have "cf_links F ?x = []"
    using assms(1) made by (simp add: before_audio_def links_documented_def)
  then have links: "cf_links F s' = (if fst (add_audio_function F ?x) then [uac1, FFS_FUNCTION] else [FFS_FUNCTION])"
    using assms(1) linked add_audio_links [OF assms(1), of ?x] by (simp add: s' links_documented_def)
  then show ?thesis
    using init_gadget_tree_flags [of F st s u] assms(2) by (simp add: Let_def)
qed

theorem hid_follows_audio_witness:
  "cf_links demo_configfs (snd (snd (init_gadget_tree demo_configfs all_steps demo_empty USBHandler_init))) =
     [uac1, FFS_FUNCTION] \<and>
   hid_interface (cf_links demo_configfs
     (snd (snd (init_gadget_tree demo_configfs all_steps demo_empty USBHandler_init)))) = 3"
proof -
  let ?r = "init_gadget_tree demo_configfs all_steps demo_empty USBHandler_init"
  have "fst ?r" "fst (add_audio_function demo_configfs (before_audio demo_configfs demo_empty))" by code_simp+
  then show ?thesis
    using hid_follows_audio [OF demo_links_documented, of all_steps demo_empty USBHandler_init "fst (snd ?r)" "snd (snd ?r)"]
    by (simp add: Let_def prod_eq_iff)
qed

end
