(* ===== verification/ControlLoop.thy ===== *)
theory ControlLoop
  imports USBHandler
begin

text \<open>
  The two coroutines of \<^verbatim>\<open>src/src/usb/USBHandler.cpp\<close>, \<^verbatim>\<open>control_events\<close> and \<^verbatim>\<open>endpoint_events\<close>,
  each with the place it is suspended at, interleaved with the calls the relay makes into the
  gadget. \<open>USBHandler\<close>'s step relation says what the gadget does when it does something; here
  is when it is done: what the loops wait for, which error ends them, pauses them, or sends
  them round again. Every run of the loops is a run of that relation.

  The members \<^verbatim>\<open>ep0_ready_\<close> and \<^verbatim>\<open>aio_ready_\<close> are set by the last lines of \<^verbatim>\<open>open_function\<close>,
  with the AIO context, and reset with it, so \<open>u_aio_open\<close> stands for them.
\<close>

section \<open>The control loop\<close>

definition EIDRM :: int where "EIDRM = 43"
definition EBADFD :: int where "EBADFD = 77"

datatype wait_result = WaitOk | WaitAborted | WaitError

datatype ctl_pc = CtlTop | CtlTimer | CtlReady | CtlSleep time | CtlEnded

text \<open>From the top of the loop to its next suspension; \<open>got\<close> is what \<^verbatim>\<open>read\<close> on ep0 gives.\<close>

definition control_turn ::
  "kernel \<Rightarrow> time \<Rightarrow> int + ffs_event list \<Rightarrow> usb \<Rightarrow> (usb \<times> pad_call list) \<times> ctl_pc" where
  "control_turn k now got u =
    (if \<not> u_ep0_open u \<or> \<not> u_aio_open u then ((u, []), CtlEnded)
     else if u_pending_get u \<noteq> None then ((u, []), CtlTimer)
     else case got of
       Inr (e # es) \<Rightarrow> (handle_events k now (e # es) u, CtlTop)
     | Inr [] \<Rightarrow> ((u, []), CtlReady)
     | Inl err \<Rightarrow>
         if err = EAGAIN then ((u, []), CtlReady)
         else if err = EIDRM then ((u, []), CtlTop)
         else if err = EBADFD then ((u, []), CtlEnded)
         else ((u, []), CtlSleep (now + ms 100)))"

definition control_timer_woken :: "kernel \<Rightarrow> bool \<Rightarrow> usb \<Rightarrow> usb" where
  "control_timer_woken k expired u =
    (if expired \<and> u_pending_get u \<noteq> None then get_report_timed_out k u else u)"

definition control_ready_woken :: "time \<Rightarrow> wait_result \<Rightarrow> ctl_pc" where
  "control_ready_woken now w =
    (case w of WaitAborted \<Rightarrow> CtlEnded | WaitError \<Rightarrow> CtlSleep (now + ms 10) | WaitOk \<Rightarrow> CtlTop)"

section \<open>The endpoint loop\<close>

datatype ep_pc = EpTop | EpWait | EpSleep time | EpEnded

definition TAG_INPUT :: u64 where "TAG_INPUT = 1"
definition TAG_OUTPUT :: u64 where "TAG_OUTPUT = 2"

definition endpoint_turn :: "usb \<Rightarrow> ep_pc" where
  "endpoint_turn u = (if \<not> u_aio_open u then EpEnded else EpWait)"

definition endpoint_woken :: "time \<Rightarrow> wait_result \<Rightarrow> ep_pc" where
  "endpoint_woken now w =
    (case w of WaitAborted \<Rightarrow> EpEnded | WaitError \<Rightarrow> EpSleep (now + ms 10) | WaitOk \<Rightarrow> EpTop)"

text \<open>
  One completion: its tag, its result, and for a read what the kernel put in the buffer. The
  kernel completes only what it holds, which is what \<open>None\<close> rules out.
\<close>

definition complete :: "kernel \<Rightarrow> time \<Rightarrow> u64 \<times> int \<times> bytes \<Rightarrow> usb_sys \<Rightarrow> usb_sys option" where
  "complete k now c s =
    (case c of (tag, result, data) \<Rightarrow>
       if tag = TAG_INPUT then
         if s_in_flight s = 0 then None
         else Some (s\<lparr>s_usb := on_input_done now result (s_usb s), s_in_flight := s_in_flight s - 1\<rparr>)
       else if tag = TAG_OUTPUT then
         if s_out_flight s = 0 then None
         else let r = on_output_done k (if result < 0 then Inl (- result) else Inr data) (s_usb s)
           in Some (s\<lparr>s_usb := fst r, s_pad := s_pad s @ snd r,
             s_out_flight := s_out_flight s - 1 + (if u_out_busy (fst r) then 1 else 0)\<rparr>)
       else Some s)"

fun reap_all :: "kernel \<Rightarrow> time \<Rightarrow> (u64 \<times> int \<times> bytes) list \<Rightarrow> usb_sys \<Rightarrow> usb_sys option" where
  "reap_all k now [] s = Some s"
| "reap_all k now (c # cs) s = Option.bind (complete k now c s) (reap_all k now cs)"

section \<open>Both loops and the relay\<close>

datatype relay_call = CallFeature bytes | CallSend bytes | CallDisable | CallEnable bool bool

primrec relay_call_step :: "kernel \<Rightarrow> relay_call \<Rightarrow> usb_sys \<Rightarrow> usb_sys" where
  "relay_call_step k (CallFeature report) s = s\<lparr>s_usb := on_feature_report k report (s_usb s)\<rparr>"
| "relay_call_step k (CallSend report) s = s\<lparr>s_usb := send_input k report (s_usb s),
     s_offered := s_offered s + 1,
     s_in_flight := s_in_flight s + became_busy u_in_busy (s_usb s) (send_input k report (s_usb s))\<rparr>"
| "relay_call_step k CallDisable s = s\<lparr>s_usb := disable_gadget (s_usb s)\<rparr>"
| "relay_call_step k (CallEnable udc bind) s = s\<lparr>s_usb := snd (enable_gadget udc bind (s_usb s))\<rparr>"

record loops =
  l_sys :: usb_sys
  l_ctl :: ctl_pc
  l_ep :: ep_pc

definition took :: "usb \<times> pad_call list \<Rightarrow> usb_sys \<Rightarrow> usb_sys" where
  "took r s = s\<lparr>s_usb := fst r, s_pad := s_pad s @ snd r,
     s_out_flight := s_out_flight s + became_busy u_out_busy (s_usb s) (fst r)\<rparr>"

inductive loops_step :: "kernel \<Rightarrow> loops \<Rightarrow> loops \<Rightarrow> bool" for k where
  ctl_turn: "l_ctl c = CtlTop \<Longrightarrow> (\<And>es. got = Inr es \<Longrightarrow> length es \<le> 4) \<Longrightarrow>
    r = control_turn k now got (s_usb (l_sys c)) \<Longrightarrow>
    loops_step k c (c\<lparr>l_sys := took (fst r) (l_sys c), l_ctl := snd r\<rparr>)"
| ctl_expired: "l_ctl c = CtlTimer \<Longrightarrow> u_get_report_timer (s_usb (l_sys c)) = Some t \<Longrightarrow> t \<le> now \<Longrightarrow>
    loops_step k c (c\<lparr>l_sys := (l_sys c)\<lparr>s_usb := control_timer_woken k True (s_usb (l_sys c))\<rparr>, l_ctl := CtlTop\<rparr>)"
| ctl_cancelled: "l_ctl c = CtlTimer \<Longrightarrow> u_get_report_timer (s_usb (l_sys c)) = None \<Longrightarrow>
    loops_step k c (c\<lparr>l_sys := (l_sys c)\<lparr>s_usb := control_timer_woken k False (s_usb (l_sys c))\<rparr>, l_ctl := CtlTop\<rparr>)"
| ctl_ready: "l_ctl c = CtlReady \<Longrightarrow> loops_step k c (c\<lparr>l_ctl := control_ready_woken now w\<rparr>)"
| ctl_slept: "l_ctl c = CtlSleep t \<Longrightarrow> t \<le> now \<Longrightarrow> loops_step k c (c\<lparr>l_ctl := CtlTop\<rparr>)"
| ep_turn: "l_ep c = EpTop \<Longrightarrow> loops_step k c (c\<lparr>l_ep := endpoint_turn (s_usb (l_sys c))\<rparr>)"
| ep_woken: "l_ep c = EpWait \<Longrightarrow> w \<noteq> WaitOk \<Longrightarrow> loops_step k c (c\<lparr>l_ep := endpoint_woken now w\<rparr>)"
| ep_reaped: "l_ep c = EpWait \<Longrightarrow> reap_all k now cs (l_sys c) = Some s \<Longrightarrow>
    loops_step k c (c\<lparr>l_sys := s, l_ep := endpoint_woken now WaitOk\<rparr>)"
| ep_slept: "l_ep c = EpSleep t \<Longrightarrow> t \<le> now \<Longrightarrow> loops_step k c (c\<lparr>l_ep := EpTop\<rparr>)"
| relay: "loops_step k c (c\<lparr>l_sys := relay_call_step k call (l_sys c)\<rparr>)"

definition loops_start :: "setup_steps \<Rightarrow> loops" where
  "loops_start st = \<lparr>l_sys = usb_start st, l_ctl = CtlTop, l_ep = EpTop\<rparr>"

section \<open>Lemmas\<close>

lemma complete_steps:
  assumes "complete k now c s = Some s'"
  shows "(usb_step k)\<^sup>*\<^sup>* s s'"
proof -
  obtain tag result data where c: "c = (tag, result, data)" by (cases c)
  consider "tag = TAG_INPUT" | "tag = TAG_OUTPUT" "tag \<noteq> TAG_INPUT" | "s' = s"
    using assms by (auto simp: complete_def c split: if_splits)
  then show ?thesis
  proof cases
    case 1
    then have "0 < s_in_flight s"
      "s' = s\<lparr>s_usb := on_input_done now result (s_usb s), s_in_flight := s_in_flight s - 1\<rparr>"
      using assms by (auto simp: complete_def c split: if_splits)
    then show ?thesis using step_input_done [of s k now result] by blast
  next
    case 2
    then have "0 < s_out_flight s" using assms by (auto simp: complete_def c split: if_splits)
    from step_output_done [OF this refl, of k "if result < 0 then Inl (- result) else Inr data"]
    show ?thesis using assms 2 by (auto simp: complete_def c Let_def simp del: One_nat_def split: if_splits)
  qed simp
qed

lemma reap_all_steps: "reap_all k now cs s = Some s' \<Longrightarrow> (usb_step k)\<^sup>*\<^sup>* s s'"
proof (induction cs arbitrary: s)
  case (Cons c cs)
  then obtain s1 where "complete k now c s = Some s1" "reap_all k now cs s1 = Some s'"
    by (auto simp: bind_eq_Some_conv)
  then show ?case using complete_steps Cons.IH rtranclp_trans [of "usb_step k"] by blast
qed simp

lemma relay_call_is_step: "usb_step k s (relay_call_step k call s)"
proof (cases call)
  case (CallSend report)
  show ?thesis unfolding CallSend relay_call_step.simps by (rule step_send)
qed (auto intro: usb_step.intros)

lemma took_nothing: "took (s_usb s, []) s = s"
  by (simp add: took_def became_busy_def)

lemma control_turn_step:
  assumes "\<And>es. got = Inr es \<Longrightarrow> length es \<le> 4"
  shows "(usb_step k)\<^sup>*\<^sup>* s (took (fst (control_turn k now got (s_usb s))) s)"
proof (cases "\<exists>e es. got = Inr (e # es) \<and> u_pending_get (s_usb s) = None \<and> u_ep0_open (s_usb s) \<and> u_aio_open (s_usb s)")
  case True
  then obtain e es where got: "got = Inr (e # es)" "u_pending_get (s_usb s) = None"
    and eq: "fst (control_turn k now got (s_usb s)) = handle_events k now (e # es) (s_usb s)"
    by (auto simp: control_turn_def simp del: handle_events.simps)
  show ?thesis
    unfolding eq took_def using step_events [OF got(2) assms [OF got(1)] refl] by blast
next
  case False
  then have "fst (control_turn k now got (s_usb s)) = (s_usb s, [])"
    by (auto simp: control_turn_def split: sum.splits list.splits)
  then show ?thesis by (simp add: took_nothing)
qed

lemma timer_woken_step:
  assumes "u_get_report_timer (s_usb s) = Some t"
  shows "(usb_step k)\<^sup>*\<^sup>* s (s\<lparr>s_usb := control_timer_woken k b (s_usb s)\<rparr>)"
  using step_timer [OF assms order_refl, of k] by (auto simp: control_timer_woken_def)

lemma loops_step_steps: "loops_step k c c' \<Longrightarrow> (usb_step k)\<^sup>*\<^sup>* (l_sys c) (l_sys c')"
proof (induction rule: loops_step.induct)
  case (ctl_turn c got r now)
  then show ?case using control_turn_step [of got k "l_sys c" now] by simp
next
  case (ctl_cancelled c)
  then show ?case by (simp add: control_timer_woken_def)
qed (auto intro: timer_woken_step reap_all_steps r_into_rtranclp relay_call_is_step)

text \<open>No step opens or closes a file, and only the control loop makes a request pending.\<close>

definition same_files :: "usb \<Rightarrow> usb \<Rightarrow> bool" where
  "same_files u u' \<longleftrightarrow> u_ep0_open u' = u_ep0_open u \<and> u_aio_open u' = u_aio_open u"

lemma same_files_trans: "same_files u v \<Longrightarrow> same_files v w \<Longrightarrow> same_files u w"
  by (simp add: same_files_def)

lemma ep0_files [simp]:
  "same_files u (snd (ep0_reply k d u')) \<longleftrightarrow> same_files u u'"
  "same_files u (ep0_ack k u') \<longleftrightarrow> same_files u u'"
  "same_files u (ep0_stall b u') \<longleftrightarrow> same_files u u'"
  "same_files u (ep0_stage_failed e b u') \<longleftrightarrow> same_files u u'"
  "same_files u (u_log i u') \<longleftrightarrow> same_files u u'"
  by (auto simp: ep0_defs same_files_def Let_def split: option.splits sum.splits)

lemma finish_files [simp]: "same_files u (finish_get_report k r u') \<longleftrightarrow> same_files u u'"
  by (auto simp: finish_get_report_def split: option.splits) (simp_all add: same_files_def)

lemma output_read_files [simp]: "same_files u (submit_output_read k u') \<longleftrightarrow> same_files u u'"
  by (auto simp: submit_output_read_def Let_def u_log_def same_files_def)

lemma handle_setup_files: "same_files u (fst (handle_setup k now st u))"
  by (auto simp: handle_setup_def begin_get_report_def take_set_report_def Let_def
      split: Request.splits option.splits sum.splits) (auto simp: same_files_def u_log_def)

lemma usb_event_files: "same_files u (fst (usb_handle_event k now e u))"
  using handle_setup_files
  by (cases e; simp add: usb_handle_event_def on_endpoints_enabled_def on_endpoints_disabled_def; simp add: same_files_def)

lemma handle_events_files: "same_files u (fst (handle_events k now es u))"
proof (induction es arbitrary: u)
  case (Cons e es)
  then show ?case by (auto simp: Let_def intro: same_files_trans [OF usb_event_files])
qed (simp add: same_files_def)

text \<open>What the steps outside the control loop leave of a pending request.\<close>

definition no_new_get :: "usb \<Rightarrow> usb \<Rightarrow> bool" where
  "no_new_get u u' \<longleftrightarrow> same_files u u' \<and> (u_pending_get u' \<noteq> None \<longrightarrow> u_pending_get u \<noteq> None)"

lemma no_new_get_refl: "no_new_get u u"
  by (simp add: no_new_get_def same_files_def)

lemma no_new_get_trans: "no_new_get u v \<Longrightarrow> no_new_get v w \<Longrightarrow> no_new_get u w"
  by (auto simp: no_new_get_def intro: same_files_trans)

lemma output_read_pending [simp]: "u_pending_get (submit_output_read k u) = u_pending_get u"
  by (simp add: submit_output_read_def Let_def u_log_def)

lemma finish_pending: "u_pending_get (finish_get_report k r u) = None"
  by (auto simp: finish_get_report_def ep0_defs Let_def split: option.splits)

lemma outside_steps:
  "no_new_get u (on_input_done now res u)"
  "no_new_get u (fst (on_output_done k x u))"
  "no_new_get u (on_feature_report k report u)"
  "no_new_get u (send_input k report u)"
  "no_new_get u (disable_gadget u)"
  "no_new_get u (snd (enable_gadget udc bind u))"
  by (auto simp: no_new_get_def on_input_done_def on_output_done_def on_feature_report_def send_input_def
      disable_gadget_def enable_gadget_def finish_pending Let_def split: option.splits sum.splits)
    (auto simp: same_files_def u_log_def)

lemma complete_no_new: "complete k now c s = Some s' \<Longrightarrow> no_new_get (s_usb s) (s_usb s')"
  by (auto simp: complete_def Let_def outside_steps no_new_get_refl split: prod.splits if_splits)

lemma reap_all_no_new: "reap_all k now cs s = Some s' \<Longrightarrow> no_new_get (s_usb s) (s_usb s')"
  by (induction cs arbitrary: s)
    (auto simp: bind_eq_Some_conv no_new_get_refl intro: no_new_get_trans complete_no_new)

lemma relay_call_no_new: "no_new_get (s_usb s) (s_usb (relay_call_step k call s))"
  by (cases call) (simp_all add: outside_steps)

lemma timer_woken_no_new: "no_new_get u (control_timer_woken k b u)"
proof (cases "b \<and> u_pending_get u \<noteq> None")
  case True
  then show ?thesis
    by (auto simp: control_timer_woken_def get_report_timed_out_def no_new_get_def finish_pending same_files_def
        finish_get_report_def ep0_defs Let_def split: option.splits)
qed (auto simp: control_timer_woken_def no_new_get_refl)

text \<open>A request that is pending is one the control loop is awake for, or is waiting on.\<close>

definition attended :: "loops \<Rightarrow> bool" where
  "attended c \<longleftrightarrow> (u_pending_get (s_usb (l_sys c)) \<noteq> None \<longrightarrow>
    (l_ctl c = CtlTop \<or> l_ctl c = CtlTimer) \<and> u_ep0_open (s_usb (l_sys c)) \<and> u_aio_open (s_usb (l_sys c)))"

lemma attended_no_new:
  assumes "attended c" "no_new_get (s_usb (l_sys c)) (s_usb s)" "pc = l_ctl c \<or> pc = CtlTop"
  shows "attended (c\<lparr>l_sys := s, l_ctl := pc, l_ep := e\<rparr>)"
  using assms by (auto simp: attended_def no_new_get_def same_files_def)

lemma attended_turn:
  assumes "attended c" "r = control_turn k now got (s_usb (l_sys c))"
  shows "attended (c\<lparr>l_sys := took (fst r) (l_sys c), l_ctl := snd r\<rparr>)"
proof (cases "u_pending_get (s_usb (l_sys c)) = None \<and> u_ep0_open (s_usb (l_sys c)) \<and> u_aio_open (s_usb (l_sys c))")
  case True
  with handle_events_files [of "s_usb (l_sys c)" k now] show ?thesis
    by (auto simp: attended_def took_def assms(2) control_turn_def same_files_def
        simp del: handle_events.simps split: sum.splits list.splits)
next
  case False
  with assms show ?thesis by (auto simp: attended_def took_def control_turn_def)
qed

lemma loops_step_attended: "loops_step k c c' \<Longrightarrow> attended c \<Longrightarrow> attended c'"
proof (induction rule: loops_step.induct)
  case (ctl_turn c got r now)
  then show ?case by (simp add: attended_turn)
next
  case (relay c call)
  then show ?case using attended_no_new [of c "relay_call_step k call (l_sys c)" "l_ctl c" "l_ep c"] relay_call_no_new by simp
next
  case (ep_reaped c now cs s)
  then show ?case using attended_no_new [of c s "l_ctl c"] reap_all_no_new by simp
next
  case (ctl_expired c t now)
  then show ?case using attended_no_new [of c _ CtlTop "l_ep c"] timer_woken_no_new by simp
next
  case (ctl_cancelled c)
  then show ?case using attended_no_new [of c _ CtlTop "l_ep c"] timer_woken_no_new by simp
qed (auto simp: attended_def)

lemma loops_start_attended: "attended (loops_start st)"
  by (simp add: attended_def loops_start_def usb_start_def init_gadget_def open_function_def USBHandler_init_def
      u_log_def Let_def)

lemma loops_reachable:
  "(loops_step k)\<^sup>*\<^sup>* (loops_start st) c \<Longrightarrow> attended c \<and> (usb_step k)\<^sup>*\<^sup>* (usb_start st) (l_sys c)"
proof (induction rule: rtranclp_induct)
  case base
  then show ?case using loops_start_attended by (simp add: loops_start_def)
next
  case (step c c')
  then show ?case using loops_step_attended [of k c c'] loops_step_steps [of k c c'] rtranclp_trans by fastforce
qed

section \<open>Properties\<close>


definition asked_loops :: loops where
  "asked_loops = \<lparr>l_sys = asked_sys, l_ctl = CtlTimer, l_ep = EpTop\<rparr>"

lemma asked_loops_reachable: "(loops_step willing_kernel)\<^sup>*\<^sup>* (loops_start all_steps) asked_loops"
proof -
  let ?c = "loops_start all_steps" and ?e = "[FUNCTIONFS_SETUP ask_f1]"
  let ?r = "control_turn willing_kernel 0 (Inr ?e) (s_usb (l_sys ?c))"
  have start: "l_ctl ?c = CtlTop" "u_ep0_open (s_usb (l_sys ?c))" "u_aio_open (s_usb (l_sys ?c))"
    "u_pending_get (s_usb (l_sys ?c)) = None" "s_pad (l_sys ?c) = []" "s_out_flight (l_sys ?c) = 0"
    "\<not> u_out_busy (s_usb (l_sys ?c))"
    by (simp_all add: loops_start_def usb_start_def init_gadget_def open_function_def all_steps_def
        USBHandler_init_def u_log_def Let_def)
  have r: "?r = (handle_events willing_kernel 0 ?e (s_usb (l_sys ?c)), CtlTop)"
    using start by (simp add: control_turn_def del: handle_events.simps)
  let ?d = "?c\<lparr>l_sys := took (fst ?r) (l_sys ?c), l_ctl := snd ?r\<rparr>"
  have first: "loops_step willing_kernel ?c ?d" by (rule ctl_turn [OF start(1) _ refl]) simp
  have quiet: "\<not> u_out_busy (fst (handle_events willing_kernel 0 ?e (s_usb (usb_start all_steps))))"
    using classify_ask_f1
    by (simp add: usb_handle_event_def handle_setup_wf usb_start_def init_gadget_def open_function_def all_steps_def
        USBHandler_init_def u_log_def Let_def)
  have sys: "l_sys ?c = usb_start all_steps" by (simp add: loops_start_def)
  have d: "l_sys ?d = asked_sys" "l_ctl ?d = CtlTop" "l_ep ?d = EpTop"
    using r start(5,6) quiet asked_sys_pending(2) unfolding sys
    by (simp_all add: took_def asked_sys_def became_busy_def loops_start_def del: handle_events.simps)
  have "attended ?d" by (rule loops_step_attended [OF first loops_start_attended])
  then have "control_turn willing_kernel 0 (Inl EAGAIN) (s_usb asked_sys) = ((s_usb asked_sys, []), CtlTimer)"
    using asked_sys_pending(1) d(1) by (simp add: attended_def control_turn_def)
  then have "loops_step willing_kernel ?d (?d\<lparr>l_sys := took (s_usb asked_sys, []) asked_sys, l_ctl := CtlTimer\<rparr>)"
    using loops_step.ctl_turn [OF d(2), where got = "Inl EAGAIN" and now = 0 and k = willing_kernel, OF _ refl] d(1) by simp
  then have "loops_step willing_kernel ?d asked_loops"
    by (simp add: took_nothing asked_loops_def d(3) loops_start_def)
  with first show ?thesis by (meson rtranclp.rtrancl_refl rtranclp.rtrancl_into_rtrancl)
qed


end
