(* ===== verification/Ep0Stage.thy ===== *)
theory Ep0Stage
  imports ControlLoop
begin

unbundle bit_operations_syntax

text \<open>
  The stages of ep0 as the thread lives through them. FunctionFS puts a caller to sleep until
  the host collects the stage, and \<^verbatim>\<open>Ep0Deadline\<close> (\<^verbatim>\<open>src/src/usb/USBHandler.cpp\<close>) arms a timer
  signal against a host that never does. \<open>USBHandler\<close> takes the answer of each stage from its
  kernel; here the answer is what becomes of a sleeping thread, its host and its signal, with
  the time it took, and FunctionFS keeps the request it has not been rid of.
\<close>

section \<open>The deadline\<close>

definition EP0_STAGE_DEADLINE :: int where "EP0_STAGE_DEADLINE = 200"

record itimerspec =
  tv_sec :: int
  tv_nsec :: int

definition stage_timer :: "int \<Rightarrow> itimerspec" where
  "stage_timer d = \<lparr>tv_sec = d div 1000, tv_nsec = d mod 1000 * 1000000\<rparr>"

text \<open>The instant of the signal, if the timer could be created.\<close>

definition Ep0Deadline :: "bool \<Rightarrow> time \<Rightarrow> int \<Rightarrow> time option" where
  "Ep0Deadline created now d =
    (if \<not> created then None
     else Some (now + 1000000000 * tv_sec (stage_timer d) + tv_nsec (stage_timer d)))"

section \<open>One stage\<close>

text \<open>
  What the host does about a stage, counted from the moment the thread sleeps: it takes it (of
  a stage towards us, with these bytes), it gives the request up for another one, it never
  comes back, or the controller fails the transfer.
\<close>

datatype host_does = Takes time bytes | Replaces time | Ignores | Breaks time int

text \<open>
  For the n-th call: whether \<^verbatim>\<open>timer_create\<close> succeeds, how long after arming the timer the
  thread is asleep in the call, and what the host does.
\<close>

record ep0_env =
  x_created :: "nat \<Rightarrow> bool"
  x_late :: "nat \<Rightarrow> time"
  x_host :: "nat \<Rightarrow> host_does"

primrec host_wakes :: "time \<Rightarrow> host_does \<Rightarrow> (time \<times> (int + bytes)) option" where
  "host_wakes asleep (Takes d data) = Some (asleep + d, Inr data)"
| "host_wakes asleep (Replaces d) = Some (asleep + d, Inl EIDRM)"
| "host_wakes asleep Ignores = None"
| "host_wakes asleep (Breaks d err) = Some (asleep + d, Inl err)"

text \<open>
  A signal that comes while the thread is not yet asleep interrupts nothing: its handler is
  empty and the timer fires once. \<open>None\<close>: the call does not return.
\<close>

definition sleeps :: "time option \<Rightarrow> time \<Rightarrow> host_does \<Rightarrow> (time \<times> (int + bytes)) option" where
  "sleeps signal asleep host =
    (let interrupted = (case signal of
           None \<Rightarrow> None
         | Some at \<Rightarrow> if asleep < at then Some (at, Inl EINTR) else None)
     in case (host_wakes asleep host, interrupted) of
          (Some (t, r), Some (at, r')) \<Rightarrow> Some (if t \<le> at then (t, r) else (at, r'))
        | (Some w, None) \<Rightarrow> Some w
        | (None, i) \<Rightarrow> i)"

definition stage :: "ep0_env \<Rightarrow> nat \<Rightarrow> (time \<times> (int + bytes)) option" where
  "stage x n = sleeps (Ep0Deadline (x_created x n) 0 EP0_STAGE_DEADLINE) (x_late x n) (x_host x n)"

text \<open>The kernel whose answers on ep0 are those of the stages.\<close>

definition stage_kernel :: "ep0_env \<Rightarrow> (nat \<Rightarrow> bool) \<Rightarrow> kernel" where
  "stage_kernel x submit =
    \<lparr>k_ep0_write = \<lambda>n. (case stage x n of Some (_, Inl err) \<Rightarrow> Some err | _ \<Rightarrow> None),
     k_ep0_read = \<lambda>n. (case stage x n of Some (_, r) \<Rightarrow> r | None \<Rightarrow> Inr []),
     k_aio_submit = submit\<rparr>"

section \<open>FunctionFS and its request\<close>

datatype ffs = NoSetup | SetupPending byte

text \<open>A call against the direction of the request, which is how it is stalled.\<close>

definition against :: "byte \<Rightarrow> usb_io \<Rightarrow> bool" where
  "against request_type i =
    (case i of
       Ep0Read _ \<Rightarrow> request_type AND USB_DIR_IN \<noteq> 0
     | Ep0Write _ \<Rightarrow> request_type AND USB_DIR_IN = 0
     | _ \<Rightarrow> False)"

text \<open>
  A call on ep0: the time it takes and the request FunctionFS has left. A stalled request, a
  completed one and one let go for its successor are gone; after any other error it is kept.
\<close>

fun ep0_call :: "ep0_env \<Rightarrow> nat \<Rightarrow> usb_io \<Rightarrow> ffs \<Rightarrow> (time \<times> ffs) option" where
  "ep0_call x n i NoSetup = Some (0, NoSetup)"
| "ep0_call x n i (SetupPending b) =
    (if \<not> is_ep0 i then Some (0, SetupPending b)
     else if against b i then Some (0, NoSetup)
     else case stage x n of
         None \<Rightarrow> None
       | Some (t, Inr _) \<Rightarrow> Some (t, NoSetup)
       | Some (t, Inl err) \<Rightarrow> Some (t, if err = EIDRM then NoSetup else SetupPending b))"

fun ep0_calls :: "ep0_env \<Rightarrow> nat \<Rightarrow> usb_io list \<Rightarrow> ffs \<Rightarrow> (time \<times> ffs) option" where
  "ep0_calls x n [] f = Some (0, f)"
| "ep0_calls x n (i # is) f =
    (case ep0_call x n i f of
       None \<Rightarrow> None
     | Some (t, f') \<Rightarrow> map_option (\<lambda>(t', f''). (t + t', f'')) (ep0_calls x (Suc n) is f'))"

text \<open>The calls made on the way from one state of the gadget to another.\<close>

definition ep0_between :: "ep0_env \<Rightarrow> usb \<Rightarrow> usb \<Rightarrow> ffs \<Rightarrow> (time \<times> ffs) option" where
  "ep0_between x u u' f = ep0_calls x (length (u_io u)) (drop (length (u_io u)) (u_io u')) f"

primrec delivered :: "ffs_event \<Rightarrow> ffs \<Rightarrow> ffs" where
  "delivered FUNCTIONFS_BIND f = f"
| "delivered FUNCTIONFS_UNBIND f = f"
| "delivered FUNCTIONFS_ENABLE f = f"
| "delivered FUNCTIONFS_DISABLE f = f"
| "delivered (FUNCTIONFS_SETUP p) f = SetupPending (bRequestType p)"
| "delivered FUNCTIONFS_SUSPEND f = f"
| "delivered FUNCTIONFS_RESUME f = f"

fun events_ep0 :: "ep0_env \<Rightarrow> (nat \<Rightarrow> bool) \<Rightarrow> time \<Rightarrow> ffs_event list \<Rightarrow> usb \<Rightarrow> ffs \<Rightarrow> (time \<times> ffs) option" where
  "events_ep0 x submit now [] u f = Some (0, f)"
| "events_ep0 x submit now (e # es) u f =
    (let u' = fst (usb_handle_event (stage_kernel x submit) now e u)
     in case ep0_between x u u' (delivered e f) of
          None \<Rightarrow> None
        | Some (t, f') \<Rightarrow> map_option (\<lambda>(t', f''). (t + t', f'')) (events_ep0 x submit now es u' f'))"

section \<open>The gadget and FunctionFS\<close>

record ep0_sys =
  e_sys :: usb_sys
  e_ffs :: ffs

text \<open>A step is one that returns: a thread asleep for good takes none.\<close>

inductive ep0_step :: "ep0_env \<Rightarrow> (nat \<Rightarrow> bool) \<Rightarrow> ep0_sys \<Rightarrow> ep0_sys \<Rightarrow> bool" for x submit where
  events: "u_pending_get (s_usb (e_sys c)) = None \<Longrightarrow> length es \<le> 4 \<Longrightarrow>
    events_ep0 x submit now es (s_usb (e_sys c)) (e_ffs c) = Some (t, f) \<Longrightarrow>
    ep0_step x submit c (c\<lparr>e_sys := took (handle_events (stage_kernel x submit) now es (s_usb (e_sys c))) (e_sys c),
      e_ffs := f\<rparr>)"
| expired: "u_get_report_timer (s_usb (e_sys c)) = Some d \<Longrightarrow> d \<le> now \<Longrightarrow>
    u' = get_report_timed_out (stage_kernel x submit) (s_usb (e_sys c)) \<Longrightarrow>
    ep0_between x (s_usb (e_sys c)) u' (e_ffs c) = Some (t, f) \<Longrightarrow>
    ep0_step x submit c (c\<lparr>e_sys := (e_sys c)\<lparr>s_usb := u'\<rparr>, e_ffs := f\<rparr>)"
| relay: "s' = relay_call_step (stage_kernel x submit) call (e_sys c) \<Longrightarrow> call \<noteq> CallDisable \<Longrightarrow>
    ep0_between x (s_usb (e_sys c)) (s_usb s') (e_ffs c) = Some (t, f) \<Longrightarrow>
    ep0_step x submit c (c\<lparr>e_sys := s', e_ffs := f\<rparr>)"
| disabled: "ep0_step x submit c
    (c\<lparr>e_sys := relay_call_step (stage_kernel x submit) CallDisable (e_sys c), e_ffs := NoSetup\<rparr>)"
| reaped: "reap_all (stage_kernel x submit) now cs (e_sys c) = Some s' \<Longrightarrow>
    ep0_step x submit c (c\<lparr>e_sys := s'\<rparr>)"

definition ep0_start :: "setup_steps \<Rightarrow> ep0_sys" where
  "ep0_start st = \<lparr>e_sys = usb_start st, e_ffs = NoSetup\<rparr>"

section \<open>Lemmas\<close>

lemma Ep0Deadline_at: "Ep0Deadline created now d = (if created then Some (now + ms d) else None)"
proof -
  have "1000000000 * (d div 1000) + d mod 1000 * 1000000 = d * 1000000"
    using div_mult_mod_eq [of d 1000] by linarith
  then show ?thesis by (simp add: Ep0Deadline_def stage_timer_def ms_def)
qed

lemma stage_None_iff:
  "stage x n = None \<longleftrightarrow>
    x_host x n = Ignores \<and> (x_created x n \<longrightarrow> ms EP0_STAGE_DEADLINE \<le> x_late x n)"
  by (cases "x_host x n") (auto simp: stage_def sleeps_def Ep0Deadline_at Let_def)

text \<open>The deadline holds when every timer is created and every thread asleep before its signal.\<close>

definition punctual :: "ep0_env \<Rightarrow> bool" where
  "punctual x \<longleftrightarrow> (\<forall>n. x_created x n \<and> x_late x n < ms EP0_STAGE_DEADLINE)"

lemma stage_punctual:
  assumes "punctual x"
  obtains t r where "stage x n = Some (t, r)" "t \<le> ms EP0_STAGE_DEADLINE"
proof -
  have "\<exists>w. stage x n = Some w \<and> fst w \<le> ms EP0_STAGE_DEADLINE"
    using assms by (cases "x_host x n") (auto simp: punctual_def stage_def sleeps_def Ep0Deadline_at Let_def)
  then show thesis using that by (metis prod.collapse)
qed

definition broken :: "host_does \<Rightarrow> bool" where
  "broken h = (case h of Breaks _ err \<Rightarrow> err \<noteq> EIDRM \<and> err \<noteq> EINTR | _ \<Rightarrow> False)"

lemma stage_error:
  "stage x n = Some (t, Inl err) \<Longrightarrow> \<not> broken (x_host x n) \<Longrightarrow> err \<noteq> EIDRM \<Longrightarrow> err = EINTR"
  by (cases "x_host x n")
    (auto simp: stage_def sleeps_def Ep0Deadline_at Let_def broken_def split: if_splits)

text \<open>
  What an operation on ep0 comes to: nothing left of the request unless the controller broke a
  stage, and an end within the deadline.
\<close>

definition settled :: "ep0_env \<Rightarrow> (time \<times> ffs) option \<Rightarrow> bool" where
  "settled x o' \<longleftrightarrow> ((\<forall>n. \<not> broken (x_host x n)) \<longrightarrow> (\<forall>t f. o' = Some (t, f) \<longrightarrow> f = NoSetup)) \<and>
    (punctual x \<longrightarrow> (\<exists>t f. o' = Some (t, f) \<and> t \<le> ms EP0_STAGE_DEADLINE))"

lemma deadline_nonneg [simp]: "0 \<le> ms EP0_STAGE_DEADLINE"
  by (simp add: ms_def EP0_STAGE_DEADLINE_def)

lemma settled_nothing: "settled x (Some (0, NoSetup))"
  by (simp add: settled_def)

lemma ep0_calls_none [simp]: "ep0_calls x n is NoSetup = Some (0, NoSetup)"
  by (induction "is" arbitrary: n) auto

lemma settled_stage:
  assumes "is_ep0 i" "is_ep0 s" "\<And>b. \<not> against b i \<Longrightarrow> against b s"
  shows "settled x (ep0_calls x n (i # (if \<exists>t. stage x n = Some (t, Inl EINTR) then [s] else [])) f)"
proof (cases f)
  case (SetupPending b)
  show ?thesis
  proof (cases "against b i")
    case False
    show ?thesis
    proof (cases "stage x n")
      case None
      then have "\<not> punctual x" by (metis stage_punctual option.distinct(1))
      then show ?thesis using None False by (simp add: SetupPending settled_def assms)
    next
      case (Some w)
      then obtain t r where w: "stage x n = Some (t, r)" by (cases w) auto
      have "t \<le> ms EP0_STAGE_DEADLINE" if "punctual x"
        using stage_punctual [OF that, of n] w by auto
      then show ?thesis
        using w False assms stage_error [OF w [THEN trans]]
        by (cases r) (auto simp: SetupPending settled_def EIDRM_def EINTR_def dest: stage_error)
    qed
  qed (simp add: SetupPending settled_def assms)
qed (simp add: settled_nothing)

lemma between_log: "u_io v = u_io u @ is \<Longrightarrow> ep0_between x u v f = ep0_calls x (length (u_io u)) is f"
  by (simp add: ep0_between_def)

lemma against_ep0 [simp]:
  "against b (Ep0Read n) \<longleftrightarrow> b AND USB_DIR_IN \<noteq> 0"
  "against b (Ep0Write d) \<longleftrightarrow> b AND USB_DIR_IN = 0"
  by (simp_all add: against_def)

lemma reply_io:
  "u_io (snd (ep0_reply (stage_kernel x a) d u)) = u_io u @ Ep0Write d #
    (if \<exists>t. stage x (length (u_io u)) = Some (t, Inl EINTR) then [Ep0Read 0] else [])"
  by (auto simp: ep0_reply_def ep0_stage_failed_def ep0_stall_def u_log_def stage_kernel_def USB_DIR_IN_def Let_def
      split: option.split sum.splits)

lemma ack_io:
  "u_io (ep0_ack (stage_kernel x a) u) = u_io u @ Ep0Read 0 #
    (if \<exists>t. stage x (length (u_io u)) = Some (t, Inl EINTR) then [Ep0Write []] else [])"
  by (auto simp: ep0_ack_def ep0_stage_failed_def ep0_stall_def u_log_def stage_kernel_def USB_DIR_OUT_def Let_def
      split: option.split sum.splits)

lemma set_report_io:
  "u_io (fst (take_set_report (stage_kernel x a) v n u)) = u_io u @ Ep0Read (unat n) #
    (if \<exists>t. stage x (length (u_io u)) = Some (t, Inl EINTR) then [Ep0Write []] else [])"
  by (auto simp: take_set_report_def ep0_stage_failed_def ep0_stall_def u_log_def stage_kernel_def USB_DIR_OUT_def Let_def
      split: option.split sum.splits)

lemma settled_reply: "u_io v = u_io u \<Longrightarrow> settled x (ep0_between x u (snd (ep0_reply (stage_kernel x a) d v)) f)"
  using settled_stage [of "Ep0Write d" "Ep0Read 0"] by (simp add: between_log [OF trans [OF reply_io]])

lemma settled_ack: "u_io v = u_io u \<Longrightarrow> settled x (ep0_between x u (ep0_ack (stage_kernel x a) v) f)"
  using settled_stage [of "Ep0Read 0" "Ep0Write []"] by (simp add: between_log [OF trans [OF ack_io]])

lemma settled_set_report: "settled x (ep0_between x u (fst (take_set_report (stage_kernel x a) w n u)) f)"
  using settled_stage [of "Ep0Read (unat n)" "Ep0Write []"] by (simp add: between_log [OF set_report_io])

lemma settled_stall: "u_io v = u_io u \<Longrightarrow> settled x (ep0_between x u (ep0_stall b v) (SetupPending b))"
  by (auto simp: ep0_stall_def ep0_between_def u_log_def settled_def)

lemma settled_finish:
  assumes "u_pending_get v \<noteq> None" "u_io v = u_io u"
  shows "settled x (ep0_between x u (finish_get_report (stage_kernel x a) r v) f)"
  using assms by (auto simp: finish_get_report_def intro!: settled_reply)

text \<open>A request FunctionFS holds is one the gadget is going to answer.\<close>

definition held :: "usb \<Rightarrow> ffs \<Rightarrow> bool" where
  "held u f \<longleftrightarrow> (f \<noteq> NoSetup \<longrightarrow> u_pending_get u \<noteq> None)"

text \<open>The outcome of a call into the gadget that began with \<open>u\<close> and \<open>f\<close> and left \<open>u'\<close>.\<close>

definition served :: "ep0_env \<Rightarrow> usb \<Rightarrow> (time \<times> ffs) option \<Rightarrow> bool" where
  "served x u' o' \<longleftrightarrow> ((\<forall>n. \<not> broken (x_host x n)) \<longrightarrow> (\<forall>t f. o' = Some (t, f) \<longrightarrow> held u' f)) \<and>
    (punctual x \<longrightarrow> (\<exists>t f. o' = Some (t, f) \<and> t \<le> ms EP0_STAGE_DEADLINE))"

lemma settled_served: "settled x o' \<Longrightarrow> served x u' o'"
  by (auto simp: settled_def served_def held_def)

lemma ep0_calls_other: "\<forall>i\<in>set is. \<not> is_ep0 i \<Longrightarrow> ep0_calls x n is f = Some (0, f)"
  by (induction "is" arbitrary: n) (cases f; simp)+

lemma between_other:
  assumes "u_io v = u_io u @ ops" "\<forall>i\<in>set ops. \<not> is_ep0 i"
  shows "ep0_between x u v f = Some (0, f)"
  using assms by (simp add: between_log ep0_calls_other)

lemma setup_served:
  "served x (fst (handle_setup (stage_kernel x a) now p u))
    (ep0_between x u (fst (handle_setup (stage_kernel x a) now p u)) (SetupPending (bRequestType p)))"
proof (cases "classify (bRequestType p) (bRequest p) (wValue p)")
  case get_report
  let ?r = "handle_setup (stage_kernel x a) now p u"
  show ?thesis
  proof (cases "u_pending_get (fst ?r) \<noteq> None \<and> u_io (fst ?r) = u_io u")
    case True
    then show ?thesis by (auto simp: ep0_between_def served_def held_def)
  next
    case False
    then show ?thesis
      by (auto simp: get_report handle_setup_def begin_get_report_def Let_def split: option.splits if_splits
          intro!: settled_served settled_reply)
  qed
qed (auto simp: handle_setup_def intro!: settled_served settled_reply settled_ack settled_stall settled_set_report)

lemma output_read_between:
  "u_io v = u_io u \<Longrightarrow> ep0_between x u (submit_output_read k v) f = Some (0, f)"
  by (rule between_other [where ops = "drop (length (u_io u)) (u_io (submit_output_read k v))"])
    (auto simp: submit_output_read_def u_log_def Let_def)

lemma other_event:
  assumes "\<And>p. e \<noteq> FUNCTIONFS_SETUP p"
  shows "ep0_between x u (fst (usb_handle_event k now e u)) (delivered e f) = Some (0, f)"
    "u_pending_get (fst (usb_handle_event k now e u)) = u_pending_get u"
  using assms
  by (cases e; simp add: usb_handle_event_def on_endpoints_enabled_def on_endpoints_disabled_def
      output_read_between; simp add: ep0_between_def)+

lemma event_served:
  fixes u
  assumes "stage_kernel x a = k" "u' = fst (usb_handle_event k now e u)" "o' = ep0_between x u u' (delivered e f)"
  shows "(\<forall>n. \<not> broken (x_host x n)) \<Longrightarrow> held u f \<Longrightarrow> o' = Some (t, f') \<Longrightarrow> held u' f'"
    "punctual x \<Longrightarrow> \<exists>t f. o' = Some (t, f) \<and> t \<le> ms EP0_STAGE_DEADLINE"
proof -
  have eq: "u' = fst (usb_handle_event (stage_kernel x a) now e u)" using assms by simp
  have "served x u' o' \<or> o' = Some (0, f) \<and> u_pending_get u' = u_pending_get u"
  proof (cases "\<exists>p. e = FUNCTIONFS_SETUP p")
    case True
    then show ?thesis using setup_served by (auto simp: eq assms(3) usb_handle_event_def)
  next
    case False
    then show ?thesis using other_event [of e] by (simp add: eq assms(3))
  qed
  then show "(\<forall>n. \<not> broken (x_host x n)) \<Longrightarrow> held u f \<Longrightarrow> o' = Some (t, f') \<Longrightarrow> held u' f'"
    "punctual x \<Longrightarrow> \<exists>t f. o' = Some (t, f) \<and> t \<le> ms EP0_STAGE_DEADLINE"
    by (auto simp: served_def held_def)
qed

lemma events_ep0_held:
  assumes "\<forall>n. \<not> broken (x_host x n)"
  shows "held u f \<Longrightarrow> events_ep0 x a now es u f = Some (t, f') \<Longrightarrow>
    held (fst (handle_events (stage_kernel x a) now es u)) f'"
proof (induction es arbitrary: u f t)
  case (Cons e es)
  let ?u = "fst (usb_handle_event (stage_kernel x a) now e u)"
  obtain t1 f1 t2 where first: "ep0_between x u ?u (delivered e f) = Some (t1, f1)"
    and rest: "events_ep0 x a now es ?u f1 = Some (t2, f')"
    using Cons.prems(2) by (auto simp: Let_def split: option.splits)
  have "held ?u f1" by (rule event_served(1) [OF refl refl refl assms Cons.prems(1) first])
  with rest Cons.IH show ?case by (simp add: Let_def)
qed simp

lemma events_ep0_time:
  assumes "punctual x"
  shows "\<exists>t f'. events_ep0 x a now es u f = Some (t, f') \<and> t \<le> int (length es) * ms EP0_STAGE_DEADLINE"
proof (induction es arbitrary: u f)
  case (Cons e es)
  let ?u = "fst (usb_handle_event (stage_kernel x a) now e u)"
  obtain t f1 where first: "ep0_between x u ?u (delivered e f) = Some (t, f1)" "t \<le> ms EP0_STAGE_DEADLINE"
    using event_served(2) [OF refl refl refl assms] by blast
  obtain t' f2 where "events_ep0 x a now es ?u f1 = Some (t', f2)" "t' \<le> int (length es) * ms EP0_STAGE_DEADLINE"
    using Cons.IH by blast
  with first show ?case by (simp add: Let_def distrib_right)
qed simp

text \<open>The other two ways to ep0: the timer's answer, and the pad's.\<close>

lemma timed_out_settled:
  assumes "u_pending_get u \<noteq> None"
  shows "settled x (ep0_between x u (get_report_timed_out (stage_kernel x a) u) f)"
  using assms settled_finish [of u u] by (auto simp: get_report_timed_out_def)

lemma feature_served:
  "(\<forall>n. \<not> broken (x_host x n)) \<Longrightarrow> held u f \<Longrightarrow>
    ep0_between x u (on_feature_report (stage_kernel x a) report u) f = Some (t, f') \<Longrightarrow>
    held (on_feature_report (stage_kernel x a) report u) f'"
  "punctual x \<Longrightarrow> \<exists>t f'. ep0_between x u (on_feature_report (stage_kernel x a) report u) f = Some (t, f') \<and>
    t \<le> ms EP0_STAGE_DEADLINE"
proof -
  let ?u = "u\<lparr>u_answers := (u_answers u)(hd report \<mapsto> take (min (length report) REPORT_LENGTH) report)\<rparr>"
  have cases: "(u_io (on_feature_report (stage_kernel x a) report u) = u_io u \<and>
      u_pending_get (on_feature_report (stage_kernel x a) report u) = u_pending_get u) \<or>
    u_pending_get ?u \<noteq> None \<and> on_feature_report (stage_kernel x a) report u =
      finish_get_report (stage_kernel x a) (take (min (length report) REPORT_LENGTH) report) ?u"
    by (auto simp: on_feature_report_def Let_def split: option.split)
  show "(\<forall>n. \<not> broken (x_host x n)) \<Longrightarrow> held u f \<Longrightarrow>
      ep0_between x u (on_feature_report (stage_kernel x a) report u) f = Some (t, f') \<Longrightarrow>
      held (on_feature_report (stage_kernel x a) report u) f'"
    using cases settled_finish [of ?u u x a "take (min (length report) REPORT_LENGTH) report" f]
    by (auto simp: settled_def held_def ep0_between_def)
  show "punctual x \<Longrightarrow> \<exists>t f'. ep0_between x u (on_feature_report (stage_kernel x a) report u) f = Some (t, f') \<and>
      t \<le> ms EP0_STAGE_DEADLINE"
    using cases settled_finish [of ?u u x a "take (min (length report) REPORT_LENGTH) report" f]
    by (auto simp: settled_def ep0_between_def)
qed

text \<open>Every step is one of the gadget's, or several: what holds of its runs holds of these.\<close>

lemma ep0_step_steps: "ep0_step x a c c' \<Longrightarrow> (usb_step (stage_kernel x a))\<^sup>*\<^sup>* (e_sys c) (e_sys c')"
proof (induction rule: ep0_step.induct)
  case (events c es now t f)
  then show ?case
    unfolding took_def using step_events [OF events(1,2) refl, of "stage_kernel x a" now]
    by (simp add: r_into_rtranclp)
next
  case (expired c d now u' t f)
  then show ?case using step_timer [OF expired(1,2), of "stage_kernel x a"] by auto
next
  case (reaped now cs c s')
  then show ?case using reap_all_steps by simp
qed (use relay_call_is_step in \<open>auto intro!: r_into_rtranclp simp del: relay_call_step.simps\<close>)

lemma ep0_run_steps:
  "(ep0_step x a)\<^sup>*\<^sup>* (ep0_start st) c \<Longrightarrow> (usb_step (stage_kernel x a))\<^sup>*\<^sup>* (usb_start st) (e_sys c)"
proof (induction rule: rtranclp_induct)
  case base
  then show ?case by (simp add: ep0_start_def)
next
  case (step c c')
  then show ?case using ep0_step_steps [of x a c c'] by (metis rtranclp_trans)
qed

lemma reap_all_pending:
  "reap_all k now cs s = Some s' \<Longrightarrow> u_pending_get (s_usb s') = u_pending_get (s_usb s)"
  by (induction cs arbitrary: s)
    (auto simp: bind_eq_Some_conv complete_def input_side_ops Let_def split: prod.splits if_splits)

lemma send_between: "ep0_between x u (send_input k report u) f = Some (0, f)"
  by (rule between_other [where ops = "drop (length (u_io u)) (u_io (send_input k report u))"])
    (auto simp: send_input_def u_log_def Let_def)

lemma relay_call_held:
  assumes "\<forall>n. \<not> broken (x_host x n)" "held (s_usb s) f" "call \<noteq> CallDisable"
    "ep0_between x (s_usb s) (s_usb (relay_call_step (stage_kernel x a) call s)) f = Some (t, f')"
  shows "held (s_usb (relay_call_step (stage_kernel x a) call s)) f'"
proof (cases call)
  case (CallFeature report)
  then show ?thesis using assms feature_served(1) by auto
next
  case (CallEnable udc bind)
  have "u_io (snd (enable_gadget udc bind (s_usb s))) = u_io (s_usb s)"
    by (simp add: enable_gadget_def Let_def)
  then show ?thesis using assms CallEnable by (simp add: ep0_between_def held_def input_side_ops)
qed (use assms in \<open>simp_all add: send_between held_def input_side_ops\<close>)

lemma ep0_step_held:
  assumes "\<forall>n. \<not> broken (x_host x n)"
  shows "ep0_step x a c c' \<Longrightarrow> held (s_usb (e_sys c)) (e_ffs c) \<Longrightarrow> held (s_usb (e_sys c')) (e_ffs c')"
proof (induction rule: ep0_step.induct)
  case (events c es now t f)
  then show ?case using events_ep0_held [OF assms] by (simp add: took_def)
next
  case (expired c d now u' t f)
  then show ?case
    using timed_out_settled [of "s_usb (e_sys c)" x a "e_ffs c"] assms
    by (cases "u_pending_get (s_usb (e_sys c)) = None")
      (auto simp: settled_def held_def get_report_timed_out_def ep0_between_def)
next
  case (relay s' call c t f)
  then show ?case using relay_call_held [OF assms] by simp
next
  case (reaped now cs c s')
  then show ?case using reap_all_pending by (simp add: held_def)
qed (simp add: held_def)

lemma ep0_run_held:
  assumes "\<forall>n. \<not> broken (x_host x n)"
  shows "(ep0_step x a)\<^sup>*\<^sup>* (ep0_start st) c \<Longrightarrow> held (s_usb (e_sys c)) (e_ffs c)"
proof (induction rule: rtranclp_induct)
  case base
  then show ?case by (simp add: ep0_start_def held_def)
qed (use ep0_step_held [OF assms] in blast)

lemma stuck_stage:
  assumes "is_ep0 i" "\<not> against b i" "against b s"
  shows "ep0_calls x n (i # (if c then [s] else [])) (SetupPending b) = None \<longleftrightarrow> stage x n = None"
  using assms by (auto split: option.splits sum.splits)

section \<open>Properties\<close>


text \<open>
  A signal that comes too early is lost: a supported request other than GET_REPORT, not
  collected by the host, holds the thread for good exactly when there is no timer, because
  \<^verbatim>\<open>timer_create\<close> failed, or its one signal came before the thread was asleep: a failure goes
  unreported, and nothing makes the timer fire again.
\<close>

theorem early_signal_lost:
  assumes "classify (bRequestType p) (bRequest p) (wValue p) \<notin> {get_report, set_protocol, unsupported}"
    "n = length (u_io u)"
  shows "events_ep0 x submit now [FUNCTIONFS_SETUP p] u f = None \<longleftrightarrow>
    x_host x n = Ignores \<and> (\<not> x_created x n \<or> ms 200 \<le> x_late x n)"
proof -
  let ?c = "classify (bRequestType p) (bRequest p) (wValue p)"
  have "ep0_between x u (fst (handle_setup (stage_kernel x submit) now p u)) (SetupPending (bRequestType p)) = None
      \<longleftrightarrow> stage x n = None"
    using assms(1) classify_from_device [of "bRequestType p" "bRequest p" "wValue p"]
      classify_to_device [of "bRequestType p" "bRequest p" "wValue p"]
    by (cases ?c) (simp_all add: handle_setup_def from_device_def assms(2) stuck_stage between_log [OF trans [OF reply_io]]
        between_log [OF trans [OF ack_io]] between_log [OF set_report_io] del: ep0_calls.simps)
  then show ?thesis
    using stage_None_iff [of x n]
    by (auto simp: usb_handle_event_def EP0_STAGE_DEADLINE_def split: option.splits)
qed

definition late_thread :: ep0_env where
  "late_thread = \<lparr>x_created = \<lambda>_. True, x_late = \<lambda>_. ms 201, x_host = \<lambda>_. Ignores\<rparr>"

theorem early_signal_lost_witness:
  "events_ep0 late_thread (\<lambda>_. True) 0
    [FUNCTIONFS_SETUP \<lparr>bRequestType = 0xa1, bRequest = 2, wValue = 0, wLength = 1\<rparr>] USBHandler_init NoSetup = None"
  using early_signal_lost [of "\<lparr>bRequestType = 0xa1, bRequest = 2, wValue = 0, wLength = 1\<rparr>" 0 USBHandler_init late_thread]
  by (simp add: late_thread_def classify_def consts_def USBHandler_init_def ms_def)

text \<open>A host that collects nothing at all, and one that takes everything at once.\<close>

definition gone_host :: ep0_env where
  "gone_host = \<lparr>x_created = \<lambda>_. True, x_late = \<lambda>_. 0, x_host = \<lambda>_. Ignores\<rparr>"

definition prompt_host :: ep0_env where
  "prompt_host = \<lparr>x_created = \<lambda>_. True, x_late = \<lambda>_. 0, x_host = \<lambda>_. Takes 0 [0x0a, 7]\<rparr>"



lemma prompt_kernel: "stage_kernel prompt_host (\<lambda>_. True) = willing_kernel"
  by (simp add: stage_kernel_def willing_kernel_def stage_def sleeps_def prompt_host_def Ep0Deadline_at
      ms_def EP0_STAGE_DEADLINE_def Let_def)


definition asked_ep0 :: ep0_sys where
  "asked_ep0 = \<lparr>e_sys = asked_sys, e_ffs = SetupPending 0xa1\<rparr>"

lemma asked_ep0_reachable: "(ep0_step prompt_host (\<lambda>_. True))\<^sup>*\<^sup>* (ep0_start all_steps) asked_ep0"
proof -
  let ?u = "s_usb (usb_start all_steps)" and ?e = "[FUNCTIONFS_SETUP ask_f1]"
  have io: "u_io (fst (handle_events willing_kernel 0 ?e ?u)) = u_io ?u" "u_pending_get ?u = None"
    "\<not> u_out_busy (fst (handle_events willing_kernel 0 ?e ?u))"
    using classify_ask_f1
    by (simp_all add: usb_handle_event_def handle_setup_def begin_get_report_def
        is_cacheable_feature_def consts_def usb_start_def init_gadget_def open_function_def
        all_steps_def USBHandler_init_def u_log_def Let_def)
  then have "events_ep0 prompt_host (\<lambda>_. True) 0 ?e ?u NoSetup = Some (0, SetupPending 0xa1)"
    by (simp add: ep0_between_def prompt_kernel ask_f1_def)
  then have "ep0_step prompt_host (\<lambda>_. True) (ep0_start all_steps) asked_ep0"
    using events [of "ep0_start all_steps" ?e prompt_host "\<lambda>_. True" 0] io asked_sys_pending(2)
    by (simp add: ep0_start_def asked_ep0_def prompt_kernel took_def asked_sys_def became_busy_def usb_start_def
        del: handle_events.simps events_ep0.simps)
  then show ?thesis by blast
qed


end
