(* ===== verification/ReadLoop.thy ===== *)
theory ReadLoop
  imports Saved InputView
begin

text \<open>
  What stands around the relay in \<^verbatim>\<open>src/src/bluetooth/BluetoothHandler.cpp\<close> and
  \<^verbatim>\<open>src/src/main.cpp\<close>: claiming an adapter (\<^verbatim>\<open>open_socket\<close>, with its retries), the command
  line and the choice of sides in \<^verbatim>\<open>main\<close>, and the read loop at the end of \<^verbatim>\<open>handle()\<close>, which
  after every wakeup drains the socket with plain reads, but not without a bound.
\<close>

section \<open>Claiming an adapter\<close>

definition EBUSY :: int where "EBUSY = 16"
definition EALREADY :: int where "EALREADY = 114"

datatype adapter_op = OpenSocket | BindUser | CloseSocket | DeviceDown | Usleep nat

text \<open>\<open>ioctl\<close> is the error \<^verbatim>\<open>HCIDEVDOWN\<close> left, if any.\<close>

definition force_device_down :: "bool \<Rightarrow> int option \<Rightarrow> bool" where
  "force_device_down ctl ioctl = (ctl \<and> (ioctl = None \<or> ioctl = Some EALREADY))"

text \<open>
  The loop from an attempt on: \<open>sock\<close> and \<open>bind\<close> are the kernel's answers at each attempt,
  the last argument the attempts left. What \<^verbatim>\<open>force_device_down\<close> returns is not looked at.
\<close>

fun open_socket_from :: "(nat \<Rightarrow> bool) \<Rightarrow> (nat \<Rightarrow> int option) \<Rightarrow> nat \<Rightarrow> nat \<Rightarrow> nat option \<times> adapter_op list" where
  "open_socket_from sock bind attempt 0 = (None, [])"
| "open_socket_from sock bind attempt (Suc left) =
    (if \<not> sock attempt then (None, [])
     else case bind attempt of
       None \<Rightarrow> (Some attempt, [OpenSocket, BindUser])
     | Some err \<Rightarrow>
         if err = EBUSY \<and> attempt < 9 then
           let r = open_socket_from sock bind (Suc attempt) left
           in (fst r, [OpenSocket, BindUser, CloseSocket, DeviceDown, Usleep 300000] @ snd r)
         else (None, [OpenSocket, BindUser, CloseSocket]))"

definition open_socket :: "(nat \<Rightarrow> bool) \<Rightarrow> (nat \<Rightarrow> int option) \<Rightarrow> nat option \<times> adapter_op list" where
  "open_socket sock bind = open_socket_from sock bind 0 10"

section \<open>The choice of sides\<close>

text \<open>\<open>info\<close>: the address \<^verbatim>\<open>HCIGETDEVINFO\<close> gave, if it gave one.\<close>

definition set_ps5_side_adapter :: "bool \<Rightarrow> bdaddr option \<Rightarrow> bdaddr \<Rightarrow> bool \<times> bdaddr" where
  "set_ps5_side_adapter ctl info ps5_side_addr =
    (if \<not> ctl then (False, ps5_side_addr)
     else case info of None \<Rightarrow> (False, ps5_side_addr) | Some addr \<Rightarrow> (True, addr))"

record main_args =
  a_hci_index :: int
  a_ds_mac :: string
  a_ps5_hci_index :: int

definition parse_main_args :: "string list \<Rightarrow> main_args" where
  "parse_main_args argv =
    \<lparr>a_hci_index = (if 1 < length argv then atoi (argv ! 1) else 1),
     a_ds_mac = (if 2 < length argv then argv ! 2 else ''88:03:4C:FE:79:42''),
     a_ps5_hci_index = (if 3 < length argv then atoi (argv ! 3) else - 1)\<rparr>"

text \<open>
  The machine: what each adapter answers, by its index, and libbluetooth's \<^verbatim>\<open>str2ba\<close>. A
  handler is \<^verbatim>\<open>ok()\<close> when its socket was opened.
\<close>

record machine =
  mc_now :: time
  mc_ctl :: bool
  mc_info :: "u16 \<Rightarrow> bdaddr option"
  mc_sock :: "u16 \<Rightarrow> nat \<Rightarrow> bool"
  mc_bind :: "u16 \<Rightarrow> nat \<Rightarrow> int option"
  mc_str2ba :: "string \<Rightarrow> bdaddr"
  mc_usb_steps :: setup_steps
  mc_feed :: bool

definition local_addr :: "machine \<Rightarrow> u16 \<Rightarrow> bdaddr" where
  "local_addr M hci = (if mc_ctl M then case mc_info M hci of Some a \<Rightarrow> a | None \<Rightarrow> addr_any else addr_any)"

definition handler_opens :: "machine \<Rightarrow> u16 \<Rightarrow> bool" where
  "handler_opens M hci \<longleftrightarrow> fst (open_socket (mc_sock M hci) (mc_bind M hci)) \<noteq> None"

text \<open>
  \<^verbatim>\<open>main\<close> up to \<^verbatim>\<open>ios.run()\<close>: what the relay starts with, or nothing when the adapter for the
  pad could not be claimed.
\<close>

definition main_boot :: "machine \<Rightarrow> files \<Rightarrow> string list \<Rightarrow> main_setup option" where
  "main_boot M f argv =
    (let args = parse_main_args argv;
         hci = of_int (a_hci_index args); ps5 = of_int (a_ps5_hci_index args);
         adapter = set_ps5_side_adapter (mc_ctl M) (mc_info M ps5) addr_any;
         wanted = (0 \<le> a_ps5_hci_index args)
     in if \<not> handler_opens M hci then None
        else Some (load_files f (mc_str2ba M (a_ds_mac args))
          \<lparr>m_now = mc_now M, m_linked = wanted \<and> fst adapter \<and> handler_opens M ps5,
           m_ds_addr = addr_any, m_ps5_side_addr = (if wanted then snd adapter else addr_any),
           m_link_key = None, m_console = None,
           m_local = (\<lambda>s. local_addr M (case s of to_dualsense \<Rightarrow> hci | to_playstation \<Rightarrow> ps5)),
           m_usb_steps = mc_usb_steps M, m_feed_mapped = mc_feed M\<rparr>))"

section \<open>The read loop\<close>

definition READ_BUFFER_SIZE :: nat where "READ_BUFFER_SIZE = 4096"
definition max_drain :: nat where "max_drain = 32"

text \<open>
  \<open>q\<close> is what the socket holds, a packet per read; a longer packet than the buffer is cut off
  by the kernel. A read that returns nothing ends the drain like one that would block.
\<close>

fun drain :: "nat \<Rightarrow> env \<Rightarrow> EConnectionSide \<Rightarrow> bytes list \<Rightarrow> relay \<Rightarrow> (relay \<times> bytes list) option" where
  "drain 0 E s q r = Some (r, q)"
| "drain (Suc n) E s [] r = Some (r, [])"
| "drain (Suc n) E s (p # q) r =
    (if p = [] then Some (r, q)
     else Option.bind (handle_bluetooth_data E s (take READ_BUFFER_SIZE p) r) (drain n E s q))"

text \<open>One wakeup of the loop; it sleeps on while nothing has arrived.\<close>

fun read_wakeup :: "env \<Rightarrow> EConnectionSide \<Rightarrow> bytes list \<Rightarrow> relay \<Rightarrow> (relay \<times> bytes list) option" where
  "read_wakeup E s [] r = Some (r, [])"
| "read_wakeup E s (p # q) r =
    Option.bind (handle_bluetooth_data E s (take READ_BUFFER_SIZE p) r) (drain max_drain E s q)"

fun read_wakeups :: "nat \<Rightarrow> env \<Rightarrow> EConnectionSide \<Rightarrow> bytes list \<Rightarrow> relay \<Rightarrow> (relay \<times> bytes list) option" where
  "read_wakeups 0 E s q r = Some (r, q)"
| "read_wakeups (Suc n) E s q r = Option.bind (read_wakeup E s q r) (\<lambda>(r, q). read_wakeups n E s q r)"

section \<open>Lemmas\<close>

abbreviation as_read :: "bytes list \<Rightarrow> bytes list" where
  "as_read q \<equiv> map (take READ_BUFFER_SIZE) q"

lemma drain_receive:
  "[] \<notin> set q \<Longrightarrow> drain n E s q r = map_option (\<lambda>r'. (r', drop n q)) (receive E s (as_read (take n q)) r)"
proof (induction n E s q r rule: drain.induct)
  case (3 n E s p q r)
  then show ?case by (cases "handle_bluetooth_data E s (take READ_BUFFER_SIZE p) r") auto
qed simp_all

lemma read_wakeup_receive:
  "[] \<notin> set q \<Longrightarrow>
    read_wakeup E s q r = map_option (\<lambda>r'. (r', drop 33 q)) (receive E s (as_read (take 33 q)) r)"
proof (cases q)
  case (Cons p ps)
  assume "[] \<notin> set q"
  then have "[] \<notin> set ps" by (simp add: Cons)
  from drain_receive [OF this, of max_drain E s] show ?thesis
    by (cases "handle_bluetooth_data E s (take READ_BUFFER_SIZE p) r") (auto simp: Cons max_drain_def numeral_eq_Suc)
qed simp

lemma take_add_drop: "take m q @ take n (drop m q) = take (m + n) q"
  by (simp add: take_add)

lemma read_wakeups_receive:
  assumes "[] \<notin> set q"
  shows "read_wakeups n E s q r =
    map_option (\<lambda>r'. (r', drop (33 * n) q)) (receive E s (as_read (take (33 * n) q)) r)"
  using assms
proof (induction n arbitrary: q r)
  case (Suc n)
  have rest: "[] \<notin> set (drop 33 q)" using Suc.prems by (auto dest: in_set_dropD)
  have parts: "as_read (take (33 * Suc n) q) = as_read (take 33 q) @ as_read (take (33 * n) (drop 33 q))"
    unfolding map_append [symmetric] take_add_drop by (simp add: add.commute)
  show ?case
    unfolding parts receive_append read_wakeups.simps read_wakeup_receive [OF Suc.prems]
    using Suc.IH [OF rest]
    by (cases "receive E s (as_read (take 33 q)) r") (auto simp: add.commute)
qed simp

lemma receive_steps:
  "\<forall>p \<in> set ps. length p \<le> 4096 \<Longrightarrow> receive E s ps r = Some r' \<Longrightarrow> (relay_step E)\<^sup>*\<^sup>* r r'"
proof (induction ps arbitrary: r)
  case (Cons p ps)
  then obtain r1 where r1: "handle_bluetooth_data E s p r = Some r1" "receive E s ps r1 = Some r'"
    by (auto simp: bind_eq_Some_conv)
  have "relay_step E r r1" by (rule relay_step.packet [OF _ r1(1)]) (use Cons.prems(1) in simp)
  with Cons.IH [OF _ r1(2)] Cons.prems(1) show ?case by (simp add: converse_rtranclp_into_rtranclp)
qed simp

section \<open>Properties\<close>

text \<open>
  C17 (draining the socket changes nothing but the number of wakeups). Packets are handled in
  the order they arrived, each once, at most 33 at a wakeup, so that timers get their turn;
  after \<open>n\<close> wakeups exactly the first \<open>33 n\<close> of those waiting have been handled, with the
  result of handling them one at a time, and an error among them is met just the same. So a run
  of the loop is a run of the relay's step relation.
\<close>

theorem read_loop_keeps_order:
  assumes "[] \<notin> set q"
  shows "read_wakeups n E s q r =
      map_option (\<lambda>r'. (r', drop (33 * n) q)) (receive E s (map (take READ_BUFFER_SIZE) (take (33 * n) q)) r) \<and>
    (\<forall>r' q'. read_wakeups n E s q r = Some (r', q') \<longrightarrow> (relay_step E)\<^sup>*\<^sup>* r r')"
proof -
  have "(relay_step E)\<^sup>*\<^sup>* r r'" if "receive E s (as_read (take (33 * n) q)) r = Some r'" for r'
    by (rule receive_steps [OF _ that]) (simp add: READ_BUFFER_SIZE_def)
  then show ?thesis by (auto simp: read_wakeups_receive [OF assms])
qed

lemma receive_ignored: "receive E s (replicate n [0]) r = Some r"
proof (induction n)
  case (Suc n)
  have "handle_bluetooth_data E s [0] r = Some r"
    by (simp add: handle_bluetooth_data_def PacketContents_get_def PacketContents_init_def subspan_def
        HCI_EVENT_PKT_def HCI_ACLDATA_PKT_def)
  with Suc show ?case by simp
qed simp

theorem read_loop_keeps_order_witness:
  "read_wakeups 1 demo_env to_dualsense (replicate 40 [0]) demo_relay = Some (demo_relay, replicate 7 [0]) \<and>
   read_wakeups 2 demo_env to_dualsense (replicate 40 [0]) demo_relay = Some (demo_relay, [])"
proof -
  have "[] \<notin> set (replicate 40 [0 :: byte])" by simp
  note * = read_loop_keeps_order [OF this]
  show ?thesis
    by (simp add: * READ_BUFFER_SIZE_def receive_ignored map_replicate_const)
qed

text \<open>How often a list of operations has one, and how long it sleeps in all.\<close>

definition slept :: "adapter_op list \<Rightarrow> nat" where
  "slept ops = sum_list (map (\<lambda>x. case x of Usleep n \<Rightarrow> n | _ \<Rightarrow> 0) ops)"

lemma open_socket_from_claims:
  "attempt + left = 10 \<Longrightarrow>
    fst (open_socket_from sock bind attempt left) = Some n \<longleftrightarrow>
      attempt \<le> n \<and> n < 10 \<and> (\<forall>m. attempt \<le> m \<and> m \<le> n \<longrightarrow> sock m) \<and>
      (\<forall>m. attempt \<le> m \<and> m < n \<longrightarrow> bind m = Some EBUSY) \<and> bind n = None"
proof (induction sock bind attempt left rule: open_socket_from.induct)
  case (2 sock bind attempt left)
  have unroll: "(\<forall>m. attempt \<le> m \<and> Q m \<longrightarrow> P m) \<longleftrightarrow>
      (Q attempt \<longrightarrow> P attempt) \<and> (\<forall>m. Suc attempt \<le> m \<and> Q m \<longrightarrow> P m)" for P Q :: "nat \<Rightarrow> bool"
    by (metis Suc_leD Suc_leI le_neq_implies_less le_refl)
  show ?case
  proof (cases "sock attempt \<and> bind attempt = Some EBUSY \<and> attempt < 9")
    case True
    then have "fst (open_socket_from sock bind attempt (Suc left)) = Some n \<longleftrightarrow>
        fst (open_socket_from sock bind (Suc attempt) left) = Some n"
      by (simp add: Let_def)
    also have "\<dots> \<longleftrightarrow> Suc attempt \<le> n \<and> n < 10 \<and> (\<forall>m. Suc attempt \<le> m \<and> m \<le> n \<longrightarrow> sock m) \<and>
        (\<forall>m. Suc attempt \<le> m \<and> m < n \<longrightarrow> bind m = Some EBUSY) \<and> bind n = None"
      using True "2.IH" "2.prems" by simp
    finally show ?thesis
      unfolding unroll [of "\<lambda>m. m \<le> n"] unroll [of "\<lambda>m. m < n"] using True
      by (cases "n = attempt") auto
  next
    case False
    show ?thesis
      unfolding unroll [of "\<lambda>m. m \<le> n"] unroll [of "\<lambda>m. m < n"] using False "2.prems"
      by (cases "bind attempt"; cases "n = attempt") (auto simp: Let_def)
  qed
qed auto

lemma open_socket_from_ops:
  "attempt + left = 10 \<Longrightarrow> open_socket_from sock bind attempt left = (got, ops) \<Longrightarrow>
    count_list ops OpenSocket = count_list ops CloseSocket + (if got = None then 0 else 1) \<and>
    slept ops = 300000 * count_list ops DeviceDown \<and> count_list ops DeviceDown + attempt \<le> 9 + (if left = 0 then 1 else 0) \<and>
    (\<forall>n. got = Some n \<longrightarrow> count_list ops DeviceDown + attempt = n)"
proof (induction sock bind attempt left arbitrary: got ops rule: open_socket_from.induct)
  case (2 sock bind attempt left)
  show ?case
  proof (cases "sock attempt \<and> bind attempt = Some EBUSY \<and> attempt < 9")
    case True
    obtain got' ops' where r: "open_socket_from sock bind (Suc attempt) left = (got', ops')" by fastforce
    have "0 < left" using True "2.prems"(1) by simp
    then show ?thesis
      using True "2.IH" [OF _ _ _ _ r] "2.prems" r by (auto simp: Let_def slept_def)
  next
    case False
    then show ?thesis using "2.prems" by (cases "bind attempt") (auto simp: Let_def slept_def split: if_splits)
  qed
qed (simp add: slept_def)

text \<open>
  C23 (an adapter is claimed, or let go of). \<^verbatim>\<open>open_socket\<close> succeeds exactly when one of ten
  attempts could be made and bound and the ones before it were all refused with \<^verbatim>\<open>EBUSY\<close>; the
  adapter is taken down before each further attempt, no other error is retried, the call
  sleeps at most 2.7 s, and of the sockets it opened only the one it returns stays open.
\<close>

theorem adapter_claimed_iff:
  "open_socket sock bind = (got, ops) \<Longrightarrow>
    (got = Some n \<longleftrightarrow> n < 10 \<and> (\<forall>m\<le>n. sock m) \<and> (\<forall>m<n. bind m = Some EBUSY) \<and> bind n = None) \<and>
    (got = Some n \<longrightarrow> count_list ops DeviceDown = n) \<and> slept ops \<le> 2700000 \<and>
    count_list ops OpenSocket = count_list ops CloseSocket + (if got = None then 0 else 1)"
  using open_socket_from_claims [of 0 10 sock bind n] open_socket_from_ops [of 0 10 sock bind got ops]
  unfolding open_socket_def by auto

theorem adapter_claimed_iff_witness:
  "fst (open_socket (\<lambda>_. True) (\<lambda>m. if m < 2 then Some EBUSY else None)) = Some 2 \<and>
   count_list (snd (open_socket (\<lambda>_. True) (\<lambda>m. if m < 2 then Some EBUSY else None))) DeviceDown = 2"
  using adapter_claimed_iff [of "\<lambda>_. True" "\<lambda>m. if m < 2 then Some EBUSY else None", OF surjective_pairing, of 2]
  by simp

end
