(* ===== verification/StatusLine.thy ===== *)
theory StatusLine
  imports InputView Reception
begin

text \<open>
  What the relay prints about itself and what the viewer makes of it: \<^verbatim>\<open>relay_status\<close> of
  \<^verbatim>\<open>src/src/bluetooth/BluetoothHandler.cpp\<close>, the line \<^verbatim>\<open>report_stats\<close> of
  \<^verbatim>\<open>src/src/usb/USBHandler.cpp\<close> prints every five seconds, and the end of the log file as
  the panel of \<^verbatim>\<open>src/src/input/InputView.cpp\<close> reads it.
\<close>

section \<open>The line\<close>

definition link_text :: "handler \<Rightarrow> string" where
  "link_text c =
    (if h_connection_handle c = 0 then ''not connected''
     else if h_dcid c hid_interrupt_channel = 0 then ''linked, waiting for HID channels''
     else ''relaying'')"

definition radio_text :: "handler \<Rightarrow> string" where
  "radio_text c =
    (if h_radio_read c
     then '' | radio q'' @ dec (unat (h_link_quality c)) @ '' rssi '' @ dec_int (sint (h_link_rssi c)) @
       '' afh '' @ dec (unat (h_afh_channels c)) @ ''/79''
     else [])"

definition relay_status :: "EConnectionSide \<Rightarrow> relay \<Rightarrow> string" where
  "relay_status s r =
    (case (if s = to_playstation then Some s else other r s) of
       None \<Rightarrow> ''console side: none''
     | Some side \<Rightarrow>
         let c = r_h r side
         in ''console: '' @ link_text c @
            '', reports sent '' @ dec (unat (h_console_input_count c)) @
            '' held '' @ dec (unat (h_console_input_backpressure c)) @
            '' flushed '' @ dec (unat (h_console_input_flushed c)) @
            '' opaque '' @ dec (unat (h_console_input_opaque_dropped c)) @
            '' | out '' @ dec (unat (h_console_output_count c)) @
            '' held '' @ dec (unat (h_console_output_dropped c)) @
            '' | acl '' @ dec_int (fc_total (h_acl c)) @ ''/'' @ dec_int (AclFlowControl_budget (h_acl c)) @
            (if h_link_sniffing c then '' sniff'' else []) @ radio_text c)"

text \<open>The counters as they were at the line before, and one turn of the loop.\<close>

record stats_last =
  last_ok :: u64
  last_eagain :: u64
  last_out :: u64
  last_ctrl :: u64

definition report_stats :: "EConnectionSide \<Rightarrow> relay \<Rightarrow> usb \<Rightarrow> stats_last \<Rightarrow> string \<times> stats_last" where
  "report_stats s r u l =
    (''USB 5s: in ok='' @ dec (unat (u_in_ok u - last_ok l)) @
       '' eagain='' @ dec (unat (u_in_eagain u - last_eagain l)) @
       '' ctrl='' @ dec (unat (u_ctrl_count u - last_ctrl l)) @ '' | '' @
       (if u_pad u then relay_status s r else ''no bluetooth''),
     \<lparr>last_ok = u_in_ok u, last_eagain = u_in_eagain u, last_out = u_out_count u, last_ctrl = u_ctrl_count u\<rparr>)"

section \<open>Errors in words\<close>

text \<open>\<^verbatim>\<open>get_error_message\<close> of \<^verbatim>\<open>src/src/bluetooth/HciEvents.cpp\<close>.\<close>

definition error_messages :: "string list" where
  "error_messages =
    [''UNKNOWN HCI COMMAND'', ''UNKNOWN CONNECTION IDENTIFIER'', ''HARDWARE FAILURE'', ''PAGE TIMEOUT'',
     ''AUTHENTICATION FAILURE'', ''PIN OR KEY MISSING'', ''MEMORY CAPACITY EXCEEDED'', ''CONNECTION TIMEOUT'',
     ''CONNECTION LIMIT EXCEEDED'', ''MAX NUMBER OF CONNECTIONS EXCEEDED'', ''ACL CONNECTION ALREADY EXISTS'',
     ''COMMAND DISALLOWED'', ''REJECTED - LIMITED RESOURCES'', ''REJECTED - SECURITY'',
     ''REJECTED - UNACCEPTABLE BD_ADDR'', ''CONNECTION ACCEPT TIMEOUT'', ''UNSUPPORTED FEATURE OR PARAMETER'',
     ''INVALID HCI COMMAND PARAMETERS'', ''REMOTE USER TERMINATED CONNECTION'',
     ''REMOTE DEVICE TERMINATED - LOW RESOURCES'', ''REMOTE DEVICE TERMINATED - POWER OFF'',
     ''CONNECTION TERMINATED BY LOCAL HOST'']"

definition get_error_message :: "byte \<Rightarrow> string" where
  "get_error_message code =
    (if 1 \<le> code \<and> code \<le> 0x16 then error_messages ! (unat code - 1)
     else ''UNKNOWN ERROR 0x'' @ dec (unat code))"

section \<open>Lemmas\<close>

lemma split_lines_append: "split_lines (a @ NEWLINE # b) = split_lines a @ split_lines b"
proof (induction a)
  case (Cons x a)
  have "split_lines a \<noteq> []" by (cases a) (auto split: list.splits)
  with Cons show ?case by (auto split: list.splits)
qed simp

lemma split_lines_one: "NEWLINE \<notin> set l \<Longrightarrow> split_lines l = [l]"
  by (induction l) auto

lemma newline_not_in_dec [simp]: "NEWLINE \<notin> set (dec n)" "NEWLINE \<notin> set (dec_int i)"
proof -
  have "NEWLINE \<noteq> digit d" if "d < 10" for d
  proof
    assume "NEWLINE = digit d"
    then have "(of_char NEWLINE :: nat) = 48 + d" using of_char_digit [OF that] by simp
    then show False by (simp add: NEWLINE_def)
  qed
  then have all: "NEWLINE \<notin> set (dec m)" for m using set_dec [of m] by auto
  show "NEWLINE \<notin> set (dec n)" by (rule all)
  show "NEWLINE \<notin> set (dec_int i)" using all by (simp add: dec_int_def NEWLINE_def)
qed

lemma dec_0: "dec 0 = ''0''"
  by code_simp

text \<open>A code without a name is printed in decimal behind a 0x: error 0x3e reads as 0x62.\<close>

lemma unknown_error_in_decimal: "get_error_message 0x3e = ''UNKNOWN ERROR 0x62''"
proof -
  have "dec 62 = ''62''" by code_simp
  then show ?thesis by (simp add: get_error_message_def)
qed

lemmas newline_not_in_text [simp] = newline_not_in_dec [unfolded NEWLINE_def]

lemma relay_status_one_line: "NEWLINE \<notin> set (relay_status s r)"
  by (auto simp: relay_status_def Let_def link_text_def radio_text_def NEWLINE_def split: option.split)

lemma tail_ends:
  assumes "content = b @ NEWLINE # rest" "length rest < TAIL_BYTES"
    and "filter (\<lambda>l. l \<noteq> []) (split_lines rest) = prev # ls"
  shows "\<exists>ks. tail_lines content = ks @ ls"
proof -
  let ?from = "length content - TAIL_BYTES"
  have "drop ?from content = drop ?from b @ NEWLINE # rest" using assms(1,2) by simp
  then have "filter (\<lambda>l. l \<noteq> []) (split_lines (drop ?from content)) =
      filter (\<lambda>l. l \<noteq> []) (split_lines (drop ?from b)) @ prev # ls"
    using assms(3) by (simp add: split_lines_append)
  then show ?thesis
    by (cases "filter (\<lambda>l. l \<noteq> []) (split_lines (drop ?from b))")
      (auto simp: tail_lines_def Let_def)
qed

section \<open>Property\<close>

text \<open>
  The statistics line does not hide what happened: when the relay's log ends in an event
  and then a line of \<^verbatim>\<open>report_stats\<close>, whatever the relay's state, the panel takes the line for
  the statistics it is and still shows the event, as long as both and the line before them lie
  within the 16 KiB the viewer looks at.
\<close>

theorem stats_line_kept_apart:
  assumes "rt_path t \<noteq> []" "NEWLINE \<notin> set prev" "prev \<noteq> []" "NEWLINE \<notin> set event" "event \<noteq> []" "\<not> is_stats event"
    and "length prev + length event + length (fst (report_stats s r u l)) + 3 < TAIL_BYTES"
  shows "RelayTail_refresh (Some (before @ [NEWLINE] @ prev @ [NEWLINE] @ event @ [NEWLINE] @
      fst (report_stats s r u l) @ [NEWLINE])) t =
    t\<lparr>rt_last_stats := drop 8 (fst (report_stats s r u l)), rt_last_event := event\<rparr>"
proof -
  let ?line = "fst (report_stats s r u l)"
  have line: "is_stats ?line" "NEWLINE \<notin> set ?line" "?line \<noteq> []"
    using relay_status_one_line [of s r]
    by (auto simp: report_stats_def is_stats_def NEWLINE_def numeral_eq_Suc)
  let ?rest = "prev @ NEWLINE # event @ NEWLINE # ?line @ NEWLINE # []"
  have "filter (\<lambda>l. l \<noteq> []) (split_lines ?rest) = prev # [event, ?line]"
    using assms(2-5) line by (simp add: split_lines_append split_lines_one)
  then obtain ks where "tail_lines (before @ NEWLINE # ?rest) = ks @ [event, ?line]"
    using tail_ends [OF refl, where rest = ?rest and prev = prev and b = before and ls = "[event, ?line]"] assms(7) by auto
  then show ?thesis
    using assms(1,6) line(1) by (simp add: RelayTail_refresh_def Let_def)
qed

theorem stats_line_kept_apart_witness:
  "RelayTail_refresh (Some (''start'' @ [NEWLINE] @ ''one'' @ [NEWLINE] @ ''Gadget enabled'' @ [NEWLINE] @
      fst (report_stats to_dualsense demo_relay (USBHandler_init\<lparr>u_pad := False\<rparr>)
        \<lparr>last_ok = 0, last_eagain = 0, last_out = 0, last_ctrl = 0\<rparr>) @ [NEWLINE]))
      \<lparr>rt_path = ''log'', rt_last_event = [], rt_last_stats = []\<rparr> =
    \<lparr>rt_path = ''log'', rt_last_event = ''Gadget enabled'',
     rt_last_stats = ''in ok=0 eagain=0 ctrl=0 | no bluetooth''\<rparr>"
proof -
  have line: "fst (report_stats to_dualsense demo_relay (USBHandler_init\<lparr>u_pad := False\<rparr>)
      \<lparr>last_ok = 0, last_eagain = 0, last_out = 0, last_ctrl = 0\<rparr>) = ''USB 5s: in ok=0 eagain=0 ctrl=0 | no bluetooth''"
    by (simp add: report_stats_def USBHandler_init_def dec_0)
  show ?thesis
    using stats_line_kept_apart [of "\<lparr>rt_path = ''log'', rt_last_event = [], rt_last_stats = []\<rparr>" "''one''"
        "''Gadget enabled''" to_dualsense demo_relay "USBHandler_init\<lparr>u_pad := False\<rparr>"
        "\<lparr>last_ok = 0, last_eagain = 0, last_out = 0, last_ctrl = 0\<rparr>" "''start''"]
    unfolding line by (simp add: NEWLINE_def is_stats_def TAIL_BYTES_def)
qed

end
