(* ===== verification/SdpPath.thy ===== *)
theory SdpPath
  imports Reception
begin

unbundle bit_operations_syntax

text \<open>
  Service discovery as the console sees it: what an SDP response has to look like, that the
  answers the relay gives itself do, and what the cache makes of the pad's.
\<close>

section \<open>The form of a response\<close>

definition be16 :: "byte \<Rightarrow> byte \<Rightarrow> nat" where
  "be16 hi lo = unat hi * 256 + unat lo"

text \<open>A data element sequence with a one-byte length, the form of an attribute list.\<close>

definition element_sequence :: "bytes \<Rightarrow> bool" where
  "element_sequence xs \<longleftrightarrow> 2 \<le> length xs \<and> xs ! 0 = 0x35 \<and> length xs = 2 + unat (xs ! 1)"

text \<open>The continuation state at the end: a length byte and that many bytes, at most 16.\<close>

definition continuation :: "bytes \<Rightarrow> bool" where
  "continuation xs \<longleftrightarrow> xs \<noteq> [] \<and> length xs = 1 + unat (xs ! 0) \<and> unat (xs ! 0) \<le> 16"

definition sdp_parameters_ok :: "byte \<Rightarrow> bytes \<Rightarrow> bool" where
  "sdp_parameters_ok pdu ps \<longleftrightarrow>
    (if pdu = SDP_ERROR_RESPONSE then length ps = 2
     else if pdu = SDP_SERVICE_SEARCH_RESPONSE then
       5 \<le> length ps \<and> be16 (ps ! 2) (ps ! 3) \<le> be16 (ps ! 0) (ps ! 1) \<and>
       4 + 4 * be16 (ps ! 2) (ps ! 3) \<le> length ps \<and> continuation (drop (4 + 4 * be16 (ps ! 2) (ps ! 3)) ps)
     else 3 \<le> length ps \<and> 2 + be16 (ps ! 0) (ps ! 1) \<le> length ps \<and>
       continuation (drop (2 + be16 (ps ! 0) (ps ! 1)) ps))"

definition sdp_response_ok :: "bytes \<Rightarrow> bytes \<Rightarrow> bool" where
  "sdp_response_ok request rsp \<longleftrightarrow>
    5 \<le> length rsp \<and> rsp ! 1 = request ! 1 \<and> rsp ! 2 = request ! 2 \<and>
    be16 (rsp ! 3) (rsp ! 4) = length rsp - 5 \<and>
    (rsp ! 0 = SDP_ERROR_RESPONSE \<or> rsp ! 0 = request ! 0 + 1 \<and>
       request ! 0 \<in> {SDP_SERVICE_SEARCH_REQUEST, SDP_SERVICE_ATTRIBUTE_REQUEST, SDP_SERVICE_SEARCH_ATTR_REQUEST}) \<and>
    sdp_parameters_ok (rsp ! 0) (drop 5 rsp)"

lemma sdp_response_form:
  assumes "5 \<le> length request"
  shows "\<exists>rsp. sdp_response request = Some rsp \<and> sdp_response_ok request rsp"
  using assms
  by (auto simp: sdp_response_def sdp_response_ok_def sdp_parameters_ok_def continuation_def be16_def consts_def Let_def)

lemma sdp_response_ok_retag:
  assumes "sdp_response_ok old rsp" "old ! 0 = request ! 0"
  shows "sdp_response_ok request (rsp[1 := request ! 1, 2 := request ! 2])"
  using assms by (auto simp: sdp_response_ok_def)

section \<open>Properties\<close>



text \<open>
  C39 (the cache serves whatever the pad said last). The cache takes every answer of the pad,
  of whatever kind and whichever chunk of a record: while the channel to the pad is closed, the
  console's attribute query is answered with the pad's last PDU under a new transaction id. If
  that was the answer to a service search, the response is not of the kind asked for.
\<close>

theorem sdp_cache_serves_last_answer:
  assumes "r_linked r" "3 \<le> length a" "h_dcid (r_h r to_dualsense) sdp_client_channel = 0"
    and "5 \<le> length request" "request ! 0 = SDP_SERVICE_SEARCH_ATTR_REQUEST"
  shows "let r1 = handle_sdp_answer_from_pad E to_dualsense a r;
      rsp = a[1 := request ! 1, 2 := request ! 2]
    in handle_sdp_query E to_playstation request r1 = Some (l2cap_send_data E to_playstation hid_sdp_channel rsp r1) \<and>
       (a ! 0 = SDP_SERVICE_SEARCH_RESPONSE \<longrightarrow> \<not> sdp_response_ok request rsp)"
proof -
  let ?r1 = "handle_sdp_answer_from_pad E to_dualsense a r"
  have "r_linked ?r1" "h_sdp_answer_cache (r_h ?r1 to_playstation) = a"
    "h_dcid (r_h ?r1 to_dualsense) sdp_client_channel = 0"
    using assms(1,3)
    by (simp_all add: handle_sdp_answer_from_pad_def other_def Let_def l2cap_send_data_def l2cap_send_framed_def
        l2cap_send_frame_def)
  then show ?thesis
    using assms by (auto simp: handle_sdp_query_def other_def Let_def sdp_response_ok_def consts_def)
qed

theorem sdp_cache_serves_last_answer_witness:
  "let r1 = handle_sdp_answer_from_pad demo_env to_dualsense [0x03, 0, 9, 0, 5, 0, 0, 0, 0, 0] (relay_start demo_setup)
   in handle_sdp_query demo_env to_playstation [0x06, 0, 7, 0, 0] r1 =
        Some (l2cap_send_data demo_env to_playstation hid_sdp_channel [0x03, 0, 7, 0, 5, 0, 0, 0, 0, 0] r1)"
proof -
  have "r_linked (relay_start demo_setup)" "h_dcid (r_h (relay_start demo_setup) to_dualsense) sdp_client_channel = 0"
    by (simp_all add: relay_start_def demo_setup_def with_pairing_def handler_init_def set_spoof_addr_def Let_def)
  then show ?thesis
    using sdp_cache_serves_last_answer [of "relay_start demo_setup" "[0x03, 0, 9, 0, 5, 0, 0, 0, 0, 0]" "[0x06, 0, 7, 0, 0]" demo_env]
    by (simp add: consts_def Let_def)
qed

end
