(* ===== verification/FeedFile.thy ===== *)
theory FeedFile
  imports ViewerLog
begin

text \<open>
  The file behind the feed (\<^verbatim>\<open>src/src/input/InputFeed.h\<close>): how the relay creates it or takes over
  the one it finds, how a viewer maps it, and how the viewer notices that the relay it is
  watching has been replaced. A file is an inode; the name may be unlinked and made again while
  both sides keep what they have mapped.
\<close>

section \<open>The file and its two sides\<close>

text \<open>
  The one directory entry, each inode's size and, if anything has been written to it, the page;
  an inode in use is never handed out again, which is what the mappings guarantee.
\<close>

record feed_fs =
  ff_entry :: "nat option"
  ff_size :: "nat \<Rightarrow> nat"
  ff_page :: "nat \<Rightarrow> Shared"
  ff_next :: nat

definition sizeof_Shared :: nat where "sizeof_Shared = 4256"

text \<open>What the system calls answer: \<^verbatim>\<open>open\<close>, then \<^verbatim>\<open>ftruncate\<close> and \<^verbatim>\<open>fchmod\<close>, then \<^verbatim>\<open>mmap\<close>.\<close>

record feed_calls =
  fk_open :: bool
  fk_sized :: bool
  fk_mmap :: bool

definition open_creating :: "feed_fs \<Rightarrow> nat \<times> feed_fs" where
  "open_creating fs =
    (case ff_entry fs of
       Some ino \<Rightarrow> (ino, fs)
     | None \<Rightarrow> (ff_next fs, fs\<lparr>ff_entry := Some (ff_next fs), ff_size := (ff_size fs)(ff_next fs := 0),
                   ff_next := ff_next fs + 1\<rparr>))"

definition Writer_open_file :: "feed_calls \<Rightarrow> feed_fs \<Rightarrow> nat option \<times> feed_fs" where
  "Writer_open_file k fs =
    (if \<not> fk_open k then (None, fs)
     else let (ino, fs) = open_creating fs
     in if \<not> fk_sized k then (None, fs)
     else let fs = fs\<lparr>ff_size := (ff_size fs)(ino := sizeof_Shared)\<rparr>
     in if \<not> fk_mmap k then (None, fs)
     else (Some ino, fs\<lparr>ff_page := (ff_page fs)(ino := Shared_init\<lparr>sh_magic := MAGIC, sh_version := VERSION\<rparr>)\<rparr>))"

record Reader =
  rd_s :: "nat option"
  rd_inode :: nat

definition Reader_close :: "Reader \<Rightarrow> Reader" where
  "Reader_close r = r\<lparr>rd_s := None\<rparr>"

definition Reader_open :: "feed_calls \<Rightarrow> feed_fs \<Rightarrow> Reader \<Rightarrow> bool \<times> Reader" where
  "Reader_open k fs r =
    (let r = Reader_close r
     in case ff_entry fs of
          None \<Rightarrow> (False, r)
        | Some ino \<Rightarrow>
            if \<not> fk_open k then (False, r)
            else if \<not> (fk_sized k \<and> sizeof_Shared \<le> ff_size fs ino) \<or> \<not> fk_mmap k then (False, r)
            else (True, \<lparr>rd_s = Some ino, rd_inode = ino\<rparr>))"

text \<open>\<open>st\<close>: whether \<^verbatim>\<open>stat\<close> succeeds when there is a file.\<close>

definition Reader_same_file :: "bool \<Rightarrow> feed_fs \<Rightarrow> Reader \<Rightarrow> bool" where
  "Reader_same_file st fs r \<longleftrightarrow>
    rd_s r \<noteq> None \<and> (case ff_entry fs of None \<Rightarrow> False | Some ino \<Rightarrow> st \<and> ino = rd_inode r)"

section \<open>Relays that come and go under a viewer\<close>

text \<open>\<open>fd_writer\<close>: what the relay now running has mapped, if its \<^verbatim>\<open>open\<close> succeeded.\<close>

record feed =
  fd_fs :: feed_fs
  fd_writer :: "nat option"
  fd_reader :: Reader

inductive feed_step :: "feed \<Rightarrow> feed \<Rightarrow> bool" where
  relay_starts: "Writer_open_file k (fd_fs f) = (w, fs) \<Longrightarrow> feed_step f (f\<lparr>fd_fs := fs, fd_writer := w\<rparr>)"
| relay_publishes: "fd_writer f = Some ino \<Longrightarrow>
    feed_step f (f\<lparr>fd_fs := (fd_fs f)\<lparr>ff_page := (ff_page (fd_fs f))(ino := s)\<rparr>\<rparr>)"
| relay_exits: "feed_step f (f\<lparr>fd_writer := None\<rparr>)"
| unlinked: "feed_step f (f\<lparr>fd_fs := (fd_fs f)\<lparr>ff_entry := None\<rparr>\<rparr>)"
| viewer_opens: "Reader_open k (fd_fs f) (fd_reader f) = (ok, r) \<Longrightarrow> feed_step f (f\<lparr>fd_reader := r\<rparr>)"
| viewer_closes: "feed_step f (f\<lparr>fd_reader := Reader_close (fd_reader f)\<rparr>)"

inductive_cases feed_stepE: "feed_step f f'"

definition feed_start :: "nat \<Rightarrow> feed" where
  "feed_start ino = \<lparr>fd_fs = \<lparr>ff_entry = None, ff_size = (\<lambda>_. 0), ff_page = (\<lambda>_. Shared_init), ff_next = ino\<rparr>,
    fd_writer = None, fd_reader = \<lparr>rd_s = None, rd_inode = 0\<rparr>\<rparr>"

definition feed_ok :: "feed \<Rightarrow> bool" where
  "feed_ok f \<longleftrightarrow>
    (\<forall>w ino. fd_writer f = Some w \<longrightarrow> ff_entry (fd_fs f) = Some ino \<longrightarrow> ino = w) \<and>
    (\<forall>ino. rd_s (fd_reader f) = Some ino \<longrightarrow> rd_inode (fd_reader f) = ino \<and> ino < ff_next (fd_fs f)) \<and>
    (\<forall>ino. ff_entry (fd_fs f) = Some ino \<longrightarrow> ino < ff_next (fd_fs f))"

lemma feed_ok_start: "feed_ok (feed_start ino)"
  by (simp add: feed_ok_def feed_start_def)

lemma feed_ok_step: "feed_step f f' \<Longrightarrow> feed_ok f \<Longrightarrow> feed_ok f'"
proof (induction rule: feed_step.induct)
  case (relay_starts k f w fs)
  then show ?case
    by (auto simp: feed_ok_def Writer_open_file_def open_creating_def Let_def less_Suc_eq split: if_splits option.splits)
next
  case (viewer_opens k f ok r)
  then show ?case
    by (auto simp: feed_ok_def Reader_open_def Reader_close_def Let_def split: if_splits option.splits)
qed (auto simp: feed_ok_def Reader_close_def)

lemma feed_reachable: "feed_step\<^sup>*\<^sup>* (feed_start ino) f \<Longrightarrow> feed_ok f"
  by (induction rule: rtranclp_induct) (auto intro: feed_ok_start feed_ok_step)

section \<open>Properties\<close>

text \<open>
  C33 (a viewer never watches a dead mapping unknowingly). However relays come and go and the
  file is removed and made again: while \<^verbatim>\<open>same_file\<close> says that nothing changed and a relay runs
  with a feed, the page the viewer has mapped is the page that relay writes. And a mapping whose
  file has been removed or replaced is found out.
\<close>

theorem same_file_is_current:
  assumes "feed_step\<^sup>*\<^sup>* (feed_start ino) f"
  shows "(Reader_same_file st (fd_fs f) (fd_reader f) \<and> fd_writer f \<noteq> None \<longrightarrow> rd_s (fd_reader f) = fd_writer f) \<and>
    (rd_s (fd_reader f) \<noteq> None \<and> ff_entry (fd_fs f) \<noteq> rd_s (fd_reader f) \<longrightarrow>
      \<not> Reader_same_file st (fd_fs f) (fd_reader f))"
  using feed_reachable [OF assms] by (auto simp: feed_ok_def Reader_same_file_def split: option.splits)

definition feed_watched :: feed where
  "feed_watched =
    (let fs = snd (Writer_open_file \<lparr>fk_open = True, fk_sized = True, fk_mmap = True\<rparr> (fd_fs (feed_start 7)))
     in \<lparr>fd_fs = fs, fd_writer = Some 7, fd_reader = \<lparr>rd_s = Some 7, rd_inode = 7\<rparr>\<rparr>)"

lemma feed_watched_reachable: "feed_step\<^sup>*\<^sup>* (feed_start 7) feed_watched"
proof -
  let ?k = "\<lparr>fk_open = True, fk_sized = True, fk_mmap = True\<rparr>"
  let ?r = "Writer_open_file ?k (fd_fs (feed_start 7))"
  let ?f = "(feed_start 7)\<lparr>fd_fs := snd ?r, fd_writer := fst ?r\<rparr>"
  have "feed_step (feed_start 7) ?f" by (rule relay_starts [of ?k]) simp
  moreover have "feed_step ?f (?f\<lparr>fd_reader := snd (Reader_open ?k (fd_fs ?f) (fd_reader ?f))\<rparr>)"
    by (rule viewer_opens [of ?k]) (rule surjective_pairing)
  moreover have "?f\<lparr>fd_reader := snd (Reader_open ?k (fd_fs ?f) (fd_reader ?f))\<rparr> = feed_watched"
    by (simp add: feed_watched_def feed_start_def Writer_open_file_def open_creating_def Reader_open_def
        Reader_close_def Let_def)
  ultimately show ?thesis by (metis r_into_rtranclp rtranclp.rtrancl_into_rtrancl)
qed

theorem same_file_is_current_witness:
  "Reader_same_file True (fd_fs feed_watched) (fd_reader feed_watched) \<and>
   rd_s (fd_reader feed_watched) = fd_writer feed_watched \<and> fd_writer feed_watched = Some 7"
  using same_file_is_current [OF feed_watched_reachable, of True]
  by (simp add: feed_watched_def Reader_same_file_def Writer_open_file_def open_creating_def feed_start_def Let_def)

text \<open>
  A button held when the relay goes down hides its next press: A relay that restarts takes
  over the file it finds and empties the page, so the viewer keeps its mapping and starts reading
  from the first new event, but keeps what it took for held. If a button was down then and is up
  in the first new report, no event says so: the next press of it is published and reaches the
  viewer, which logs nothing.
\<close>

theorem press_after_restart_unlogged:
  assumes "Log_active log" "pack_buttons body1 = 0" "pack_buttons body2 \<noteq> 0" "p_held p = pack_buttons body2" "1 < cursor"
  shows "let w = publish m2 t2 body2 l2 (publish m1 t1 body1 l1 (snd (Writer_open True Writer_init)))
    in \<exists>s. w_s w = Some s \<and>
      (case Reader_drain cursor s of (lost, es, cursor') \<Rightarrow>
         lost = 0 \<and> es = [\<lparr>ev_realtime_ns = t2, ev_buttons = pack_buttons body2\<rparr>] \<and>
         snd (fold (note_event local_date log) es (p, out)) = out)"
proof -
  let ?e = "\<lparr>ev_realtime_ns = t2, ev_buttons = pack_buttons body2\<rparr>"
  let ?w = "publish m2 t2 body2 l2 (publish m1 t1 body1 l1 (snd (Writer_open True Writer_init)))"
  obtain s where s: "w_s ?w = Some s" "sh_event_head s = 1" "sh_events s ! 0 = ?e" "Reader_valid s"
    using assms(2,3)
    by (auto simp: publish_def Writer_open_def Writer_init_def Shared_init_def Reader_valid_def EVENTS_def Let_def)
  have "drain_loop (sh_events s) 0 1 = [?e]"
    using s(3) by (subst drain_loop.simps, subst drain_loop.simps) simp
  then have "Reader_drain cursor s = (0, [?e], 1)"
    using assms(5) s by (simp add: Reader_drain_def Reader_event_head_def EVENTS_def Let_def)
  moreover have "snd (note_event local_date log ?e (p, out)) = out"
  proof -
    have nil: "concat (map (\<lambda>b. [] :: string list) looks) = []" by simp
    then show ?thesis using assms(4) by (simp add: note_event_out [OF assms(1)] nil)
  qed
  ultimately show ?thesis using s(1) by (simp add: Let_def)
qed

theorem press_after_restart_unlogged_witness:
  "let w = publish 2 20 (demo_body 0x28) Link_init (publish 1 10 (demo_body 8) Link_init (snd (Writer_open True Writer_init)))
   in \<exists>s. w_s w = Some s \<and>
     (case Reader_drain 5 s of (lost, es, cursor') \<Rightarrow>
        es = [\<lparr>ev_realtime_ns = 20, ev_buttons = CROSS\<rparr>] \<and>
        snd (fold (note_event (\<lambda>_. []) \<lparr>log_file = True, log_to_stdout = False\<rparr>) es (Panel_init\<lparr>p_held := CROSS\<rparr>, \<lparr>out_file = [], out_stdout = []\<rparr>)) = \<lparr>out_file = [], out_stdout = []\<rparr>)"
proof -
  have "Log_active \<lparr>log_file = True, log_to_stdout = False\<rparr>" "pack_buttons (demo_body 0x28) \<noteq> 0" "1 < (5 :: u64)"
    by (simp_all add: demo_bodies CROSS_def Log_active_def)
  then show ?thesis
    using press_after_restart_unlogged [of "\<lparr>log_file = True, log_to_stdout = False\<rparr>" "demo_body 8" "demo_body 0x28" "Panel_init\<lparr>p_held := CROSS\<rparr>" 5
        2 20 Link_init 1 10 Link_init "\<lambda>_. []" "\<lparr>out_file = [], out_stdout = []\<rparr>"]
    by (auto simp: demo_bodies Let_def case_prod_unfold)
qed

end
