(* ===== verification/ViewerExit.thy ===== *)
theory ViewerExit
  imports ViewerScreen
begin

text \<open>
  How the viewer ends (\<^verbatim>\<open>src/src/input/InputView.cpp\<close>, the end of \<^verbatim>\<open>main\<close>): the terminal is
  given back, a relay that has exited is announced with the end of its log, and the viewer's own
  log is closed with a line.
\<close>

text \<open>The lines \<^verbatim>\<open>std::getline\<close> takes from a file: an unfinished last line counts, an empty one not.\<close>

definition getlines :: "string \<Rightarrow> string list" where
  "getlines s = (let ls = split_lines s in if last ls = [] then butlast ls else ls)"

definition exit_text :: "bool \<Rightarrow> string option \<Rightarrow> Viewer \<Rightarrow> string" where
  "exit_text tty content v =
    (if tty then ESC # ''[?7h'' @ ESC # ''[?25h'' else []) @
    (if vw_relay_gone v then
       NEWLINE # ''The relay has exited.'' @ NEWLINE #
       (if rt_path (vw_tail v) \<noteq> [] then
          ''Last lines of '' @ rt_path (vw_tail v) @ '':'' @ NEWLINE #
          concat (map (\<lambda>l. ''  '' @ l @ [NEWLINE])
            (last_lines (case content of Some s \<Rightarrow> getlines s | None \<Rightarrow> [])))
        else [])
     else [])"

definition stop_viewer :: "(u64 \<Rightarrow> string) \<Rightarrow> u64 \<Rightarrow> bool \<Rightarrow> Log \<Rightarrow> string option \<Rightarrow> Viewer \<Rightarrow> Viewer" where
  "stop_viewer local_date clock tty log content v =
    v\<lparr>vw_screen := vw_screen v @ exit_text tty content v,
      vw_out := (if log_file log then Log_line log (''# padlog stopped '' @ wall_time local_date clock) (vw_out v)
                 else vw_out v)\<rparr>"

section \<open>The end of the relay's log\<close>

lemma last_lines_drop: "last_lines ls = drop (length ls - 15) ls"
proof -
  have "fold (\<lambda>l acc. let acc = acc @ [l] in if 15 < length acc then tl acc else acc) ls acc =
      drop (length (acc @ ls) - 15) (acc @ ls)" if "length acc \<le> 15" for acc :: "string list" and ls
    using that
  proof (induction ls arbitrary: acc)
    case (Cons l ls)
    show ?case
    proof (cases "length acc = 15")
      case True
      then obtain a as where acc: "acc = a # as" "length as = 14" by (cases acc) auto
      then show ?thesis using Cons.IH [of "as @ [l]"] by (simp add: Let_def)
    qed (use Cons.IH [of "acc @ [l]"] Cons.prems in \<open>simp add: Let_def\<close>)
  qed simp
  from this [of "[]" ls] show ?thesis by (simp add: last_lines_def)
qed

lemma split_lines_join: "(\<forall>l \<in> set ls. NEWLINE \<notin> set l) \<Longrightarrow>
    split_lines (concat (map (\<lambda>l. l @ [NEWLINE]) ls)) = ls @ [[]]"
proof (induction ls)
  case (Cons l ls)
  have "split_lines (l @ NEWLINE # s) = l # split_lines s" if "NEWLINE \<notin> set l" for l s
    using that by (induction l) auto
  then show ?case using Cons by simp
qed simp

lemma getlines_written: "(\<forall>l \<in> set ls. NEWLINE \<notin> set l) \<Longrightarrow> getlines (concat (map (\<lambda>l. l @ [NEWLINE]) ls)) = ls"
  by (simp add: getlines_def split_lines_join Let_def)

text \<open>
  The end of a run is told whole. When the relay is found to have exited, the viewer gives the
  terminal back, says so, and prints exactly the last fifteen lines of the relay's log, or all
  of them when there are fewer; with a log of its own, that log's last line says when it stopped.
\<close>

theorem exit_shows_last_lines:
  assumes "vw_relay_gone v" "rt_path (vw_tail v) \<noteq> []" "\<forall>l \<in> set ls. NEWLINE \<notin> set l"
  shows "vw_screen (stop_viewer d clock tty log (Some (concat (map (\<lambda>l. l @ [NEWLINE]) ls))) v) =
      vw_screen v @ (if tty then ESC # ''[?7h'' @ ESC # ''[?25h'' else []) @
      NEWLINE # ''The relay has exited.'' @ NEWLINE # ''Last lines of '' @ rt_path (vw_tail v) @ '':'' @ NEWLINE #
      concat (map (\<lambda>l. ''  '' @ l @ [NEWLINE]) (drop (length ls - 15) ls))"
  using assms by (simp add: stop_viewer_def exit_text_def getlines_written last_lines_drop)

end
