(* ===== verification/Spec2Isabelle.thy ===== *)
theory Spec2Isabelle
  imports RelayStep SeqLock InputPath GetReportPath Signalling Battery Saved ViewerLog ViewerScreen LinuxAio Switches
    HandoverPath GadgetTree Ep0Stage ReadLoop StatusLine SdpPath FeedFile ViewerExit
begin

text \<open>
  \<^bold>\<open>dualsense-ps5-mitm\<close>: a relay between a DualSense pad and a PlayStation 5. One Bluetooth
  adapter faces the pad, a second one, under the pad's address, faces the console, and a USB
  gadget is what the console first pairs through.

  \<^bold>\<open>The parts and their theories\<close> (sources under \<^verbatim>\<open>src/src\<close>).

  \<^item> \<open>Prelude\<close>: byte lists, little-endian fields, Bluetooth addresses
    (\<^verbatim>\<open>common/BdAddr.h\<close>), times in nanoseconds.
  \<^item> \<open>DualSense\<close>, \<open>Transforms\<close> (\<^verbatim>\<open>dualsense/\<close>): report ids and sizes, the seeded CRC,
    and the functions that re-frame a report between Bluetooth and USB.
  \<^item> \<open>PacketContents\<close>, \<open>HeldFrame\<close>, \<open>SendGaps\<close>, \<open>HciCommandQueue\<close>, \<open>AclFlowControl\<close>
    (\<^verbatim>\<open>bluetooth/*.h\<close>): the self-contained classes of the Bluetooth side, each with the
    contract its users rely on.
  \<^item> \<open>HidGadget\<close>, \<open>USBHandler\<close> (\<^verbatim>\<open>usb/\<close>): what the gadget looks like to the host, and
    its endpoints and control requests as a step relation. \<open>GadgetTree\<close>: the gadget's tree in
    configfs, made, bound and taken apart again. \<open>ControlLoop\<close>: the two coroutines that serve
    ep0 and the endpoints, every run of which is a run of \<open>USBHandler\<close>'s relation.
    \<open>Ep0Stage\<close>: the stages of ep0 under \<^verbatim>\<open>Ep0Deadline\<close>, with the time the thread sleeps in
    them and the request FunctionFS holds.
  \<^item> \<open>InputFeed\<close>, \<open>SeqLock\<close> (\<^verbatim>\<open>input/InputFeed.h\<close>): the page shared with a viewer, its
    event ring, and its sequence lock as interleaved stores and loads. \<open>FeedFile\<close>: the file
    behind the page, taken over by a relay that restarts, watched by a viewer.
  \<^item> \<open>BtHandler\<close> (\<^verbatim>\<open>bluetooth/BluetoothHandler.h\<close>): the state of both handlers.
    \<open>HciCommands\<close>, \<open>L2capSend\<close>, \<open>Sdp\<close>, \<open>PadBackend\<close>, \<open>Handover\<close>, \<open>HidRelay\<close>,
    \<open>L2cap\<close>, \<open>HciEvents\<close>: the operations of the source files of the same names
    (\<open>L2capSend\<close> is the sending half of \<^verbatim>\<open>L2cap.cpp\<close>; \<open>PadBackend\<close> the calls of
    \<^verbatim>\<open>usb/IPadBackend.h\<close>, implemented in \<^verbatim>\<open>HidRelay.cpp\<close> and \<^verbatim>\<open>Handover.cpp\<close>).
    \<open>BluetoothHandler\<close>: \<^verbatim>\<open>handle()\<close>, the timers and \<^verbatim>\<open>main\<close>, as one step relation.
    \<open>ReadLoop\<close>: claiming an adapter, the command line, the read loop with its drain.
    \<open>StatusLine\<close>: the statistics line, from \<^verbatim>\<open>relay_status\<close> to the viewer's panel.
  \<^item> \<open>RelayInv\<close>, \<open>RelayStep\<close>: the invariant of the whole relay and its preservation.
  \<^item> \<open>Reception\<close>, \<open>Signalling\<close>, \<open>InputPath\<close>, \<open>PadPath\<close>, \<open>GetReportPath\<close>, \<open>Links\<close>, \<open>Battery\<close>, \<open>SdpPath\<close>,
    \<open>HandoverPath\<close>: what the relay does with whole packets: frames and fragments, the opening
    of channels, reports from the pad to the console and back, links that come up, fail and are
    lost, service queries, and the way from the cable to the console's radio.
  \<^item> \<open>Saved\<close> (\<^verbatim>\<open>main.cpp\<close>): the pairing files. \<open>Switches\<close> (\<^verbatim>\<open>common/Switches.h\<close>).
    \<open>LinuxAio\<close> (\<^verbatim>\<open>usb/LinuxAio.*\<close>): reaping completions while the kernel produces them.
  \<^item> \<open>TextFormat\<close>, \<open>InputViewText\<close>, \<open>InputView\<close> (\<^verbatim>\<open>input/InputView.cpp\<close>): the viewer, from
    its text to the rounds of its loop. \<open>ViewerPanel\<close>, \<open>ViewerScreen\<close>, \<open>ViewerLog\<close>: its
    buffers and tables, its redrawing on a terminal, and its log against what was published.
    \<open>ViewerExit\<close>: what it leaves behind.

  \<^bold>\<open>What is shown.\<close> The self-contained classes meet their contracts (order, bounds, sums, no
  wedging); in every run of the gadget each request of the host is answered once and
  in time, no stage whose signal comes during it outlasts its deadline, none leaves a request
  behind for the next read of ep0, and a gadget left behind by a killed run is removed whole; a
  GET_REPORT makes its whole way to the pad and back; in every run of the relay the timers, links, fragments and counters stay consistent and only whole frames
  are written; frames, fragments, feature and output reports and pairing files survive their
  round trips; the console's input is the pad's freshest; the viewer's log is complete. Where
  the code departs from its comments or its purpose, a theorem shows how.

  \<^bold>\<open>How state and effects are modelled.\<close> A class is a record of its members and an operation
  a function on it. The two handlers point at each other, so they live in one record
  \<open>relay\<close> and an operation takes the side it is called on. Whatever leaves the process is
  appended to a trace. Writes may fail: the environment decides for each. A coroutine that
  sleeps is an entry of the list of timers with the instant it is due. The clock is read
  once per call; the time of day is a function of it. What the kernel answers on the USB side
  is a parameter (\<open>kernel\<close>), as is zlib's \<^verbatim>\<open>crc32\<close>; numeric constants of the Bluetooth and
  USB headers are written out.
  A read outside a report, which the source does not guard, is the value \<open>None\<close>.

  \<^bold>\<open>Loops.\<close> Every loop is structural recursion over the data it consumes or has a
  termination proof; no definition uses fuel, and the counts in \<open>ReadLoop\<close> (ten attempts, 32
  reads of a drain) are the source's own. The reset's wait for its answer is a function of the
  packets that arrive within its two seconds, handled as one step.

  The file system under the gadget's tree is a parameter too (\<open>configfs\<close>), and what is relied
  on, that the kernel removes what nothing refers to any more once the gadget is unbound and
  unmounted, is the hypothesis \<open>configfs_documented\<close>; \<open>demo_configfs\<close> is one that meets it and
  refuses every other removal. What FunctionFS does with a request (a call against its direction
  stalls it, a completed one is gone, an interrupted one stays) is as the comments of
  \<^verbatim>\<open>USBHandler.cpp\<close> describe it; when the host collects a stage, if ever, and when the thread is
  asleep in it are the record \<open>ep0_env\<close>.

  \<^bold>\<open>Not modelled.\<close> Log text other than the statistics line and the names of errors, the pause after a leftover gadget
  was removed, printing of floating-point rates and local dates in the viewer (parameters), the
  scripts and the tests. The page shared with the viewer is read at one instant in \<open>InputView\<close>;
  the interleaving of the two is in \<open>SeqLock\<close>.
\<close>

section \<open>Frames\<close>

lemma acl_frame_fields:
  assumes "length (acl_frame handle cid payload) \<le> 4096"
  shows "acl_frame handle cid payload ! 0 = HCI_ACLDATA_PKT"
    "le16_at (acl_frame handle cid payload) 1 = acl_header_handle handle ACL_START_FLUSHABLE"
    "length (acl_frame handle cid payload) = 5 + unat (le16_at (acl_frame handle cid payload) 3)"
    "length (acl_frame handle cid payload) = 9 + unat (le16_at (acl_frame handle cid payload) 5)"
proof -
  have "length payload \<le> 4087" using assms by (simp add: acl_frame_def put_le16_nth)
  then have len: "unat (4 + of_nat (length payload) :: u16) = 4 + length payload"
      "unat (of_nat (length payload) :: u16) = length payload"
    using unat_of_nat [of "4 + length payload", where 'a = 16] by (simp_all add: unat_of_nat)
  show "acl_frame handle cid payload ! 0 = HCI_ACLDATA_PKT"
    "le16_at (acl_frame handle cid payload) 1 = acl_header_handle handle ACL_START_FLUSHABLE"
    "length (acl_frame handle cid payload) = 5 + unat (le16_at (acl_frame handle cid payload) 3)"
    "length (acl_frame handle cid payload) = 9 + unat (le16_at (acl_frame handle cid payload) 5)"
    using len by (simp_all add: acl_frame_def put_le16_nth L2CAP_HDR_SIZE_def)
qed

text \<open>A run in which a frame is written: the pad connects and grants a channel.\<close>

lemma take_link_view:
  "h_open_handles (r_h (take_link E s handle addr r) s) = handle_insert handle (h_open_handles (r_h r s))"
  by (simp add: take_link_def end_handover_paging_def write_page_timeout_def write_page_scan_activity_def
      request_authentication_def reset_channels_def Let_def)

lemma demo_run:
  obtains r f where "(relay_step demo_env)\<^sup>*\<^sup>* (relay_run_start demo_env demo_setup (\<lambda>_. [])) r"
    "(to_dualsense, AclWrite f) \<in> set (r_trace r)"
proof -
  let ?s = to_dualsense and ?r0 = "relay_run_start demo_env demo_setup (\<lambda>_. [])"
  let ?p = "signal 11 L2CAP_CONN_RSP 1 (conn_rsp 0x40 (ch_scid hid_control_channel))"
  obtain r1 where r1: "handle_bluetooth_data demo_env ?s (conn_complete HCI_SUCCESS 11 demo_pad) ?r0 = Some r1"
      "11 \<in> set (h_open_handles (r_h r1 ?s))"
    by (auto simp: recv_conn_complete take_link_view handle_insert_def Let_def set_insort_key)
  define v where "v = \<lparr>v_handle = h_connection_handle (r_h r1 ?s), v_open = h_open_handles (r_h r1 ?s),
    v_incoming = h_incoming_link (r_h r1 ?s), v_dcid = h_dcid (r_h r1 ?s),
    v_ident = h_cmd_request_ident (r_h r1 ?s), v_new = [], v_tasks = r_tasks r1, v_now = r_now r1\<rparr>"
  have "sees ?s (r_trace r1) r1 v" "11 AND 0x0fff \<in> set (v_open v)" "e_io_ok demo_env = (\<lambda>_. True)"
    using r1(2) by (simp_all add: v_def sees_def demo_env_def)
  then obtain r2 where r2: "handle_bluetooth_data demo_env ?s ?p r1 = Some r2"
      "sees ?s (r_trace r1) r2 (v_configure hid_control_channel 0x40 v)"
    using recv_conn_rsp by blast
  have "relay_step demo_env ?r0 r1"
    by (rule relay_step.packet [OF _ r1(1)]) (simp add: conn_complete_def event_packet_def put_le16_nth addr_bytes_def)
  moreover have "relay_step demo_env r1 r2"
    by (rule relay_step.packet [OF _ r2(1)]) (simp add: signal_def acl_frame_def put_le16_nth conn_rsp_def)
  ultimately have "(relay_step demo_env)\<^sup>*\<^sup>* ?r0 r2" by auto
  then show thesis
    using r2(2) by (intro that) (auto simp: sees_def v_configure_def v_request_def)
qed

section \<open>The running relay\<close>

text \<open>
  C1 (the relay's state is consistent in every run). In whatever order packets, timers and
  gadget events come: a reconnect timer runs exactly while one is pending, and never two; the
  link in use is one that is open; a packet being reassembled is shorter than announced; the
  packets in flight add up per link; the output counter stays a nibble; and the gadget's
  endpoints keep their own invariant.
\<close>

theorem relay_invariant:
  assumes "(relay_step E)\<^sup>*\<^sup>* (relay_run_start E m packets) r"
  shows "length (filter (\<lambda>(_, s', t). s' = s \<and> t = TReconnect) (r_tasks r)) =
      (if h_reconnect_pending (r_h r s) then 1 else 0) \<and>
    (h_connection_handle (r_h r s) \<noteq> 0 \<longrightarrow> h_connection_handle (r_h r s) \<in> set (h_open_handles (r_h r s))) \<and>
    sorted (h_open_handles (r_h r s)) \<and> distinct (h_open_handles (r_h r s)) \<and>
    (\<forall>handle buf expected. h_acl_reasm (r_h r s) handle = Some (buf, expected) \<longrightarrow>
      4 \<le> length buf \<and> length buf < expected \<and> expected = 4 + unat (le16_at buf 0)) \<and>
    fc_ok (h_acl (r_h r s)) \<and> h_output_seq (r_h r s) < 16 \<and> usb_wf (h_gadget (r_h r s))"
  using reachable_ok [OF assms]
  unfolding relay_ok_def tasks_ok_def reconnects_def handler_ok_def reasm_ok_def by simp

theorem relay_invariant_witness:
  "length (filter (\<lambda>(_, s', t). s' = to_dualsense \<and> t = TReconnect)
      (r_tasks (relay_run_start demo_env demo_setup (\<lambda>_. [])))) =
    (if h_reconnect_pending (r_h (relay_run_start demo_env demo_setup (\<lambda>_. [])) to_dualsense) then 1 else 0) \<and>
   h_output_seq (r_h (relay_run_start demo_env demo_setup (\<lambda>_. [])) to_dualsense) < 16"
  using relay_invariant [of demo_env demo_setup "\<lambda>_. []" "relay_run_start demo_env demo_setup (\<lambda>_. [])" to_dualsense]
  by simp

text \<open>
  C2 (only whole frames reach a controller). Everything the relay ever writes to an ACL
  socket, on either side, is one complete L2CAP frame: the packet type, a start fragment, both
  length fields equal to what follows them, and never longer than the write buffer.
\<close>

theorem acl_writes_framed:
  assumes "(relay_step E)\<^sup>*\<^sup>* (relay_run_start E m packets) r" and "(s, AclWrite f) \<in> set (r_trace r)"
  shows "length f \<le> 4096 \<and> f ! 0 = HCI_ACLDATA_PKT \<and> acl_boundary_flag (le16_at f 1) \<noteq> ACL_PB_CONT \<and>
    length f = 5 + unat (le16_at f 3) \<and> length f = 9 + unat (le16_at f 5)"
proof -
  have "frame_ok f"
    using reachable_ok [OF assms(1)] assms(2) unfolding relay_ok_def trace_ok_def by blast
  then obtain handle cid payload where f: "f = acl_frame handle cid payload" and len: "length f \<le> 4096"
    unfolding frame_ok_def WRITE_BUFFER_SIZE_def by blast
  note fields = acl_frame_fields [OF len [unfolded f], folded f]
  show ?thesis using len by (intro conjI fields) (simp_all only: fields(2) boundary_flags not_False_eq_True)
qed

theorem acl_writes_framed_witness:
  "\<exists>r f. (relay_step demo_env)\<^sup>*\<^sup>* (relay_run_start demo_env demo_setup (\<lambda>_. [])) r \<and>
    (to_dualsense, AclWrite f) \<in> set (r_trace r) \<and> length f = 9 + unat (le16_at f 5)"
proof -
  obtain r f where run: "(relay_step demo_env)\<^sup>*\<^sup>* (relay_run_start demo_env demo_setup (\<lambda>_. [])) r"
      and f: "(to_dualsense, AclWrite f) \<in> set (r_trace r)"
    by (rule demo_run)
  from acl_writes_framed [OF this] run f show ?thesis by blast
qed

end
